theory Spec2Isabelle
  imports Complex_Main "HOL-Library.AList" "HOL-Library.Char_ord" "HOL-Library.List_Lexorder"
    "HOL-Library.FSet"
begin

chapter \<open>The embedding\<close>

section \<open>Strings and rows\<close>

text \<open>
  The dashboard works on rows parsed from CSV files: JavaScript objects whose keys are the
  column names and whose values are strings. A row is modelled as a partial map from column
  name to cell; an absent column (\<^verbatim>\<open>undefined\<close> in the source) is \<open>None\<close>.

  Strings are lists of \<^typ>\<open>char\<close>. The model covers ASCII text: on ASCII input the
  source's \<^verbatim>\<open>normalize("NFKD")\<close> and its removal of combining marks are the identity
  and are left out, case conversion touches the letters A-Z / a-z only, and the white space
  of \<^verbatim>\<open>trim()\<close> and of the regular expression class \<^verbatim>\<open>\s\<close> is TAB, LF, VT, FF, CR
  and SPACE.
\<close>

type_synonym row = "string \<rightharpoonup> string"

definition isSpace :: "char \<Rightarrow> bool" where
  "isSpace c \<longleftrightarrow> c \<in> set [CHR 0x09, CHR 0x0A, CHR 0x0B, CHR 0x0C, CHR 0x0D, CHR '' '']"

definition trim :: "string \<Rightarrow> string" where
  "trim s = rev (dropWhile isSpace (rev (dropWhile isSpace s)))"

definition toLowerChar :: "char \<Rightarrow> char" where
  "toLowerChar c =
     (case map_of (zip ''ABCDEFGHIJKLMNOPQRSTUVWXYZ'' ''abcdefghijklmnopqrstuvwxyz'') c of
        Some d \<Rightarrow> d | None \<Rightarrow> c)"

definition toUpperChar :: "char \<Rightarrow> char" where
  "toUpperChar c =
     (case map_of (zip ''abcdefghijklmnopqrstuvwxyz'' ''ABCDEFGHIJKLMNOPQRSTUVWXYZ'') c of
        Some d \<Rightarrow> d | None \<Rightarrow> c)"

definition toLowerCase :: "string \<Rightarrow> string" where
  "toLowerCase s = map toLowerChar s"

definition toUpperCase :: "string \<Rightarrow> string" where
  "toUpperCase s = map toUpperChar s"

text \<open>\<^verbatim>\<open>String(s).split(d)\<close> for a one-character separator: never empty, \<open>[""]\<close> on \<open>""\<close>.\<close>

fun split_on :: "char \<Rightarrow> string \<Rightarrow> string list" where
  "split_on d [] = [[]]"
| "split_on d (c # cs) =
     (if c = d then [] # split_on d cs
      else (case split_on d cs of w # ws \<Rightarrow> (c # w) # ws | [] \<Rightarrow> [[c]]))"

text \<open>
  \<^verbatim>\<open>s.replace(/^PREFIX/i, '')\<close> for a literal prefix given in lower case: the prefix is
  compared without regard to letter case and removed when it matches.
\<close>

definition stripPrefixCI :: "string \<Rightarrow> string \<Rightarrow> string option" where
  "stripPrefixCI pre s =
     (if length pre \<le> length s \<and> toLowerCase (take (length pre) s) = pre
      then Some (drop (length pre) s) else None)"

text \<open>\<^verbatim>\<open>s.replace(/^https?:\/\/HOST_AND_PATH/i, '')\<close>, the argument being the part after \<open>//\<close>.\<close>

definition stripURL :: "string \<Rightarrow> string \<Rightarrow> string" where
  "stripURL hostpath s =
     (case stripPrefixCI (''https://'' @ hostpath) s of
        Some r \<Rightarrow> r
      | None \<Rightarrow> (case stripPrefixCI (''http://'' @ hostpath) s of Some r \<Rightarrow> r | None \<Rightarrow> s))"

text \<open>
  \<^verbatim>\<open>
  function splitPipe(v){
    if (!v) return [];
    return String(v).split('|').map(s => s.trim());
  }
  \<close>
\<close>

definition splitPipe :: "string option \<Rightarrow> string list" where
  "splitPipe v =
     (case v of None \<Rightarrow> []
      | Some s \<Rightarrow> if s = [] then [] else map trim (split_on CHR ''|'' s))"

section \<open>Country codes\<close>

definition ISO2_TO_3 :: "(string \<times> string) list" where
  "ISO2_TO_3 =
    [(''US'', ''USA''), (''CA'', ''CAN''), (''GB'', ''GBR''), (''FR'', ''FRA''),
     (''DE'', ''DEU''), (''NL'', ''NLD''), (''BE'', ''BEL''), (''AU'', ''AUS''),
     (''CN'', ''CHN''), (''IN'', ''IND''), (''BR'', ''BRA''), (''ZA'', ''ZAF''),
     (''SE'', ''SWE''), (''NO'', ''NOR''), (''DK'', ''DNK''), (''FI'', ''FIN''),
     (''IT'', ''ITA''), (''ES'', ''ESP''), (''PT'', ''PRT''), (''CH'', ''CHE''),
     (''JP'', ''JPN''), (''KR'', ''KOR''), (''IL'', ''ISR''), (''IE'', ''IRL''),
     (''NZ'', ''NZL''), (''MX'', ''MEX''), (''AR'', ''ARG''), (''RU'', ''RUS''),
     (''TR'', ''TUR''), (''SA'', ''SAU''), (''AE'', ''ARE''), (''SG'', ''SGP''),
     (''HK'', ''HKG''),
     (''AT'', ''AUT''), (''PL'', ''POL''), (''CZ'', ''CZE''), (''HU'', ''HUN''),
     (''GR'', ''GRC''), (''RO'', ''ROU''),
     (''TW'', ''TWN''), (''TH'', ''THA''), (''MY'', ''MYS''), (''ID'', ''IDN''),
     (''PK'', ''PAK''), (''BD'', ''BGD''),
     (''EG'', ''EGY''), (''NG'', ''NGA''), (''KE'', ''KEN''), (''IR'', ''IRN''),
     (''CL'', ''CHL''), (''CO'', ''COL''), (''PE'', ''PER''), (''CU'', ''CUB''),
     (''KN'', ''KNA''),
     (''GL'', ''GRL'')]"

text \<open>
  \<^verbatim>\<open>
  function toISO3(code){
    if (!code) return '';
    const c = String(code).trim().toUpperCase();
    return c.length === 3 ? c : (ISO2_TO_3[c] || '');
  }
  \<close>
\<close>

definition toISO3 :: "string \<Rightarrow> string" where
  "toISO3 code =
     (if code = [] then []
      else let c = toUpperCase (trim code)
           in if length c = 3 then c
              else (case map_of ISO2_TO_3 c of Some v \<Rightarrow> v | None \<Rightarrow> []))"

section \<open>Aligned authorship arrays\<close>

record authorships =
  countries :: "string list"
  ids :: "string list"
  names :: "string list"
  isCorresponding :: "bool list"
  position :: "string list"
  instRor :: "string list"
  instName :: "string list"
  instCountry3 :: "string list"

text \<open>
  \<^verbatim>\<open>
  const firstFromSemicolon = (cell) => {
    if (!cell) return '';
    const s = String(cell).split(';')[0].trim();
    return s;
  };
  \<close>
\<close>

definition firstFromSemicolon :: "string \<Rightarrow> string" where
  "firstFromSemicolon cell = (if cell = [] then [] else trim (hd (split_on CHR '';'' cell)))"

text \<open>
  \<^verbatim>\<open>
  const pad = (arr, fill='') =>
    (arr.length === n ? arr : Array.from({length:n}, (_,i)=> arr[i] ?? fill));
  \<close>
  The elements of the arrays are strings or booleans, never \<^verbatim>\<open>null\<close>, so \<^verbatim>\<open>??\<close>
  takes the fill value exactly at the indices beyond the end of the array.
\<close>

definition pad :: "nat \<Rightarrow> 'a list \<Rightarrow> 'a \<Rightarrow> 'a list" where
  "pad n arr fill =
     (if length arr = n then arr
      else map (\<lambda>i. if i < length arr then arr ! i else fill) [0..<n])"

text \<open>The local constants of \<^verbatim>\<open>parseAuthorships\<close>, before padding.\<close>

definition stripAuthorURL :: "string \<Rightarrow> string" where
  "stripAuthorURL s = stripURL ''openalex.org/authors/'' s"

definition pa_countries :: "row \<Rightarrow> string list" where
  "pa_countries pub = map toISO3 (splitPipe (pub ''authorships__countries''))"

definition pa_ids :: "row \<Rightarrow> string list" where
  "pa_ids pub = map stripAuthorURL (splitPipe (pub ''authorships__author__id''))"

definition pa_names :: "row \<Rightarrow> string list" where
  "pa_names pub =
     (if splitPipe (pub ''authorships__author__display_name'') \<noteq> []
      then splitPipe (pub ''authorships__author__display_name'')
      else splitPipe (pub ''authorships__raw_author_name''))"

definition pa_isCorresponding :: "row \<Rightarrow> bool list" where
  "pa_isCorresponding pub =
     map (\<lambda>x. let s = toLowerCase x in s = ''true'' \<or> s = ''1'' \<or> s = ''yes'' \<or> s = ''y'')
       (splitPipe (pub ''authorships__is_corresponding''))"

definition pa_pos :: "row \<Rightarrow> string list" where
  "pa_pos pub = splitPipe (pub ''authorships__author_position'')"

definition pa_instRor :: "row \<Rightarrow> string list" where
  "pa_instRor pub =
     map (\<lambda>c. stripURL ''ror.org/'' (firstFromSemicolon c))
       (splitPipe (pub ''authorships__institutions__ror''))"

definition pa_instName :: "row \<Rightarrow> string list" where
  "pa_instName pub =
     map firstFromSemicolon (splitPipe (pub ''authorships__institutions__display_name''))"

definition pa_instISO3 :: "row \<Rightarrow> string list" where
  "pa_instISO3 pub =
     map toISO3
       (map (\<lambda>c. toUpperCase (firstFromSemicolon c))
          (splitPipe (pub ''authorships__institutions__country_code'')))"

text \<open>
  \<^verbatim>\<open>
  const n = countries.length;
  return {
    countries,
    ids: pad(ids), names: pad(names),
    isCorresponding: pad(isCorresponding, false), position: pad(pos, ''),
    instRor: pad(instRor), instName: pad(instName), instCountry3: pad(instISO3)
  };
  \<close>
  The copy of the function in \<^verbatim>\<open>src/dashboard.js\<close> is the same without the three
  institution arrays.
\<close>

definition parseAuthorships :: "row \<Rightarrow> authorships" where
  "parseAuthorships pub =
     (let n = length (pa_countries pub) in
      \<lparr> countries = pa_countries pub,
        ids = pad n (pa_ids pub) [],
        names = pad n (pa_names pub) [],
        isCorresponding = pad n (pa_isCorresponding pub) False,
        position = pad n (pa_pos pub) [],
        instRor = pad n (pa_instRor pub) [],
        instName = pad n (pa_instName pub) [],
        instCountry3 = pad n (pa_instISO3 pub) [] \<rparr>)"

section \<open>Rosters, sets and counters\<close>

text \<open>
  \<^verbatim>\<open>String(r.OpenAlexID || '')\<close> and its like: an absent cell reads as the empty string.
\<close>

definition cell :: "row \<Rightarrow> string \<Rightarrow> string" where
  "cell r k = (case r k of None \<Rightarrow> [] | Some v \<Rightarrow> v)"

text \<open>
  \<^verbatim>\<open>
  const cohortIDs = new Set(
    (contributingRoster || []).map(r =>
      String(r.OpenAlexID || '').replace(/^https?:\/\/openalex\.org\/authors\//i,'')
    )
  );
  \<close>
  Only \<^verbatim>\<open>has\<close> and \<^verbatim>\<open>size\<close> are read from this set.
\<close>

definition cohortIDs :: "row list \<Rightarrow> string set" where
  "cohortIDs contributingRoster =
     set (map (\<lambda>r. stripAuthorURL (cell r ''OpenAlexID'')) contributingRoster)"

text \<open>
  A JavaScript \<^verbatim>\<open>Map\<close> iterates in insertion order, and \<^verbatim>\<open>set\<close> on a key that is
  present keeps its place: an association list under \<^const>\<open>AList.update\<close>.
  \<^verbatim>\<open>m.set(k, (m.get(k) || 0) + 1)\<close> is \<open>mapInc\<close>.
\<close>

definition mapGet0 :: "(string \<times> nat) list \<Rightarrow> string \<Rightarrow> nat" where
  "mapGet0 m k = (case map_of m k of None \<Rightarrow> 0 | Some n \<Rightarrow> n)"

definition mapInc :: "(string \<times> nat) list \<Rightarrow> string \<Rightarrow> (string \<times> nat) list" where
  "mapInc m k = AList.update k (mapGet0 m k + 1) m"

text \<open>A JavaScript \<^verbatim>\<open>Set\<close> in insertion order: \<^verbatim>\<open>s.add(x)\<close>.\<close>

definition setAdd :: "'a list \<Rightarrow> 'a \<Rightarrow> 'a list" where
  "setAdd s x = (if x \<in> set s then s else s @ [x])"

section \<open>Home country\<close>

text \<open>
  \<^verbatim>\<open>
  for (const p of (selectedPubs || [])) {
    const a = parseAuthorships(p);
    for (let i = 0; i < a.ids.length; i++) {
      const aid = a.ids[i];
      const cty = a.countries[i];
      if (!aid || !cty) continue;
      if (cohortIDs.has(aid)) {
        tallies.set(cty, (tallies.get(cty) || 0) + 1);
      }
    }
  }
  \<close>
\<close>

definition homeTallyPub :: "string set \<Rightarrow> (string \<times> nat) list \<Rightarrow> row \<Rightarrow> (string \<times> nat) list" where
  "homeTallyPub cohort tallies p =
     (let a = parseAuthorships p in
      fold (\<lambda>i t.
              let aid = ids a ! i; cty = countries a ! i in
              if aid = [] \<or> cty = [] then t
              else if aid \<in> cohort then mapInc t cty else t)
           [0..<length (ids a)] tallies)"

definition homeTallies :: "row list \<Rightarrow> row list \<Rightarrow> (string \<times> nat) list" where
  "homeTallies contributingRoster selectedPubs =
     fold (\<lambda>p t. homeTallyPub (cohortIDs contributingRoster) t p) selectedPubs []"

text \<open>
  \<^verbatim>\<open>
  let best = null, bestN = -1;
  for (const [k, n] of tallies.entries()) {
    if (n > bestN) { best = k; bestN = n; }
  }
  \<close>
\<close>

definition pickStep :: "string \<times> nat \<Rightarrow> string option \<times> int \<Rightarrow> string option \<times> int" where
  "pickStep = (\<lambda>(k, n) (best, bestN). if int n > bestN then (Some k, int n) else (best, bestN))"

definition pickBest :: "(string \<times> nat) list \<Rightarrow> string option \<times> int" where
  "pickBest tallies = fold pickStep tallies (None, - 1)"

text \<open>
  \<^verbatim>\<open>
  if (!tallies.size) return 'CAN';
  ...
  return best || 'CAN';
  \<close>
\<close>

definition computeHomeCountry :: "row list \<Rightarrow> row list \<Rightarrow> string" where
  "computeHomeCountry contributingRoster selectedPubs =
     (let tallies = homeTallies contributingRoster selectedPubs in
      if tallies = [] then ''CAN''
      else (case fst (pickBest tallies) of
              None \<Rightarrow> ''CAN''
            | Some best \<Rightarrow> if best = [] then ''CAN'' else best))"

text \<open>
  The specification's reading of the same: the affiliation countries of the authorships of
  roster members, in the order the selection lists them. An authorship without an author id
  belongs to no roster member, and one without a country has nothing to tally.
\<close>

definition spec_cohortCountriesOfPub :: "string set \<Rightarrow> row \<Rightarrow> string list" where
  "spec_cohortCountriesOfPub cohort p =
     (let a = parseAuthorships p in
      map (\<lambda>i. countries a ! i)
        (filter (\<lambda>i. ids a ! i \<noteq> [] \<and> countries a ! i \<noteq> [] \<and> ids a ! i \<in> cohort)
           [0..<length (ids a)]))"

definition spec_cohortCountries :: "row list \<Rightarrow> row list \<Rightarrow> string list" where
  "spec_cohortCountries contributingRoster selectedPubs =
     concat (map (spec_cohortCountriesOfPub (cohortIDs contributingRoster)) selectedPubs)"

section \<open>International links\<close>

text \<open>
  The per-authorship tests of \<^verbatim>\<open>computeIntlLinks\<close>:
  \<^verbatim>\<open>
  const id  = a.ids[i];
  const pos = String(a.position[i] || '').toLowerCase();
  const cty = a.countries[i];
  const isCohort = id && cohortIDs.has(id);
  const isIntl   = cty && homeISO3 && cty !== homeISO3;
  const isFL     = (pos === 'first' || pos === 'last');
  \<close>
\<close>

definition isCohort :: "string set \<Rightarrow> authorships \<Rightarrow> nat \<Rightarrow> bool" where
  "isCohort cohort a i \<longleftrightarrow> ids a ! i \<noteq> [] \<and> ids a ! i \<in> cohort"

definition isIntl :: "string \<Rightarrow> authorships \<Rightarrow> nat \<Rightarrow> bool" where
  "isIntl homeISO3 a i \<longleftrightarrow>
     countries a ! i \<noteq> [] \<and> homeISO3 \<noteq> [] \<and> countries a ! i \<noteq> homeISO3"

definition posOf :: "authorships \<Rightarrow> nat \<Rightarrow> string" where
  "posOf a i = toLowerCase (position a ! i)"

definition isFL :: "authorships \<Rightarrow> nat \<Rightarrow> bool" where
  "isFL a i \<longleftrightarrow> posOf a i = ''first'' \<or> posOf a i = ''last''"

text \<open>
  The loop pushes each index \<open>i = 0, ..., n - 1\<close> onto the lists whose test it passes, so
  each list is the increasing list of the indices that pass:
  \<^verbatim>\<open>
  if (isCohort && isFL) cohortIdx_FL.push(i);
  else if (isCohort && pos === 'middle') cohortIdx_M.push(i);
  if (isIntl) {
    intlIdx_any.push(i);
    if (isFL) intlIdx_FL.push(i);
  }
  \<close>
\<close>

definition cohortIdx_FL :: "string set \<Rightarrow> authorships \<Rightarrow> nat list" where
  "cohortIdx_FL cohort a = filter (\<lambda>i. isCohort cohort a i \<and> isFL a i) [0..<length (ids a)]"

definition cohortIdx_M :: "string set \<Rightarrow> authorships \<Rightarrow> nat list" where
  "cohortIdx_M cohort a =
     filter (\<lambda>i. \<not> (isCohort cohort a i \<and> isFL a i) \<and> isCohort cohort a i \<and> posOf a i = ''middle'')
       [0..<length (ids a)]"

definition intlIdx_any :: "string \<Rightarrow> authorships \<Rightarrow> nat list" where
  "intlIdx_any homeISO3 a = filter (\<lambda>i. isIntl homeISO3 a i) [0..<length (ids a)]"

definition intlIdx_FL :: "string \<Rightarrow> authorships \<Rightarrow> nat list" where
  "intlIdx_FL homeISO3 a = filter (\<lambda>i. isIntl homeISO3 a i \<and> isFL a i) [0..<length (ids a)]"

text \<open>
  \<^verbatim>\<open>
  for (const j of idx) {
    const iso = a.countries[j];
    if (iso) creditedThisPaper.add(iso);
  }
  \<close>
\<close>

definition creditCountries :: "authorships \<Rightarrow> nat list \<Rightarrow> string list \<Rightarrow> string list" where
  "creditCountries a idx credited =
     fold (\<lambda>j s. let iso = countries a ! j in if iso \<noteq> [] then setAdd s iso else s) idx credited"

text \<open>
  \<^verbatim>\<open>
  const creditedThisPaper = new Set();
  // Rule 1: cohort FL x any international coauthor (any position)
  if (cohortIdx_FL.length && intlIdx_any.length) { ... }
  // Rule 2: cohort M x international FL
  if (cohortIdx_M.length && intlIdx_FL.length) { ... }
  \<close>
\<close>

definition creditedThisPaper :: "string set \<Rightarrow> string \<Rightarrow> authorships \<Rightarrow> string list" where
  "creditedThisPaper cohort homeISO3 a =
     (let s1 = (if cohortIdx_FL cohort a \<noteq> [] \<and> intlIdx_any homeISO3 a \<noteq> []
                then creditCountries a (intlIdx_any homeISO3 a) [] else []);
          s2 = (if cohortIdx_M cohort a \<noteq> [] \<and> intlIdx_FL homeISO3 a \<noteq> []
                then creditCountries a (intlIdx_FL homeISO3 a) s1 else s1)
      in s2)"

text \<open>
  One pass of the loop over the selected publications:
  \<^verbatim>\<open>
  const a = parseAuthorships(p);
  const n = a.ids.length;
  if (!n) continue;
  ...
  for (const iso of creditedThisPaper) {
    counts.set(iso, (counts.get(iso) || 0) + 1);
  }
  \<close>
\<close>

definition intlTallyPub :: "string set \<Rightarrow> string \<Rightarrow> (string \<times> nat) list \<Rightarrow> row \<Rightarrow> (string \<times> nat) list" where
  "intlTallyPub cohort homeISO3 counts p =
     (let a = parseAuthorships p in
      if length (ids a) = 0 then counts
      else fold (\<lambda>iso c. mapInc c iso) (creditedThisPaper cohort homeISO3 a) counts)"

definition intlCounts :: "row list \<Rightarrow> row list \<Rightarrow> string \<Rightarrow> (string \<times> nat) list" where
  "intlCounts selectedPubs contributingRoster homeISO3 =
     fold (\<lambda>p c. intlTallyPub (cohortIDs contributingRoster) homeISO3 c p) selectedPubs []"

text \<open>
  \<^verbatim>\<open>
  const iso3 = Array.from(counts.keys()).sort();
  const values = iso3.map(k => counts.get(k));
  const total = values.reduce((a,b)=>a+b, 0);
  return { iso3, values, total };
  \<close>
  The field \<^verbatim>\<open>values\<close> is named \<open>series_values\<close> here.
\<close>

record intl_series =
  iso3 :: "string list"
  series_values :: "nat list"
  total :: nat

definition computeIntlLinks :: "row list \<Rightarrow> row list \<Rightarrow> string \<Rightarrow> intl_series" where
  "computeIntlLinks selectedPubs contributingRoster homeISO3 =
     (let counts = intlCounts selectedPubs contributingRoster homeISO3;
          keys = sort (map fst counts);
          vals = map (mapGet0 counts) keys
      in \<lparr> iso3 = keys, series_values = vals, total = sum_list vals \<rparr>)"

section \<open>Topic similarity: Jaccard distance and classical MDS\<close>

text \<open>
  JavaScript numbers are modelled as real numbers: sums, products, quotients and square
  roots are exact, and \<^verbatim>\<open>NaN\<close> and the infinities have no counterpart. A JavaScript
  \<^verbatim>\<open>Set\<close> of which only the size and \<^verbatim>\<open>has\<close> are read is a finite set.

  \<^verbatim>\<open>
  function jaccardDistance(A, B) {
    if (!A.size && !B.size) return 0;
    let inter = 0;
    for (const x of A) if (B.has(x)) inter++;
    const union = A.size + B.size - inter;
    return union ? 1 - (inter / union) : 1;
  }
  \<close>
\<close>

definition jaccardDistance :: "'a fset \<Rightarrow> 'a fset \<Rightarrow> real" where
  "jaccardDistance A B =
     (if fcard A = 0 \<and> fcard B = 0 then 0
      else let inter = fcard (ffilter (\<lambda>x. x |\<in>| B) A);
               union = fcard A + fcard B - inter
           in if union \<noteq> 0 then 1 - (real inter / real union) else 1)"

text \<open>\<^verbatim>\<open>const J = (i, j) => (i === j ? 1 - 1/N : -1/N);\<close>\<close>

definition centering :: "nat \<Rightarrow> nat \<Rightarrow> nat \<Rightarrow> real" where
  "centering N i j = (if i = j then 1 - 1 / real N else - 1 / real N)"

text \<open>
  \<^verbatim>\<open>let s = 0; for (let k = 0; k < N; k++) s += f(k);\<close>, the terms added from left to
  right.
\<close>

definition sumLoop :: "nat \<Rightarrow> (nat \<Rightarrow> real) \<Rightarrow> real" where
  "sumLoop N f = fold (\<lambda>k s. s + f k) [0..<N] 0"

text \<open>\<^verbatim>\<open>Array.from({ length: N }, (_, i) => Array.from({ length: N }, (_, j) => f(i, j)))\<close>\<close>

definition matrixFrom :: "nat \<Rightarrow> (nat \<Rightarrow> nat \<Rightarrow> real) \<Rightarrow> real list list" where
  "matrixFrom N f = map (\<lambda>i. map (\<lambda>j. f i j) [0..<N]) [0..<N]"

text \<open>
  \<^verbatim>\<open>
  const DSq = ... D[i][j] * D[i][j] ...;
  // Compute M = DSq * J
  ... for (let k = 0; k < N; k++) s += DSq[i][k] * J(k, j);  M[i][j] = s;
  // B = -0.5 * J * M
  ... for (let k = 0; k < N; k++) s += J(i, k) * M[k][j];  B[i][j] = -0.5 * s;
  \<close>
\<close>

definition doubleCenter :: "real list list \<Rightarrow> real list list" where
  "doubleCenter D =
     (let N = length D;
          DSq = matrixFrom N (\<lambda>i j. D ! i ! j * D ! i ! j);
          M = matrixFrom N (\<lambda>i j. sumLoop N (\<lambda>k. DSq ! i ! k * centering N k j))
      in matrixFrom N (\<lambda>i j. - 0.5 * sumLoop N (\<lambda>k. centering N i k * M ! k ! j)))"

text \<open>\<^verbatim>\<open>const norm = (x) => Math.sqrt(x.reduce((a,b)=>a+b*b,0)) || 1;\<close>\<close>

definition vecNorm :: "real list \<Rightarrow> real" where
  "vecNorm v = (let r = sqrt (fold (\<lambda>b a. a + b * b) v 0) in if r = 0 then 1 else r)"

text \<open>
  The result \<^verbatim>\<open>{ value: lambda, vector: v }\<close> of \<^verbatim>\<open>powerIter\<close>; the field
  \<^verbatim>\<open>value\<close> is named \<open>eig_value\<close> here.
\<close>

record eigenpair =
  eig_value :: real
  eig_vector :: "real list"

text \<open>
  One pass of the loop of \<^verbatim>\<open>powerIter\<close>:
  \<^verbatim>\<open>
  const Av = Array.from({ length: n }, (_, i) => {
    let s = 0; for (let j = 0; j < n; j++) s += A[i][j] * v[j];
    return s;
  });
  lambda = v.reduce((s,vi,i)=> s + vi*Av[i], 0); // Rayleigh
  nv = norm(Av);
  v = Av.map(x => x / (nv || 1));
  \<close>
\<close>

definition powerStep :: "real list list \<Rightarrow> eigenpair \<Rightarrow> eigenpair" where
  "powerStep A e =
     (let n = length A;
          v = eig_vector e;
          Av = map (\<lambda>i. sumLoop n (\<lambda>j. A ! i ! j * v ! j)) [0..<n];
          lambda = fold (\<lambda>i s. s + v ! i * Av ! i) [0..<length v] 0;
          nv = vecNorm Av
      in \<lparr> eig_value = lambda, eig_vector = map (\<lambda>x. x / (if nv = 0 then 1 else nv)) Av \<rparr>)"

text \<open>
  \<^verbatim>\<open>
  function powerIter(A, iters = 150) {
    const n = A.length;
    let v = Array.from({ length: n }, () => Math.random());
    let nv = norm(v); v = v.map(x => x/nv);
    let lambda = 0;
    for (let t = 0; t < iters; t++) { ... }
    return { value: lambda, vector: v };
  }
  \<close>
  The \<open>n\<close> results of \<^verbatim>\<open>Math.random()\<close> are the argument \<open>rnd\<close>.
\<close>

definition powerIter :: "real list list \<Rightarrow> nat \<Rightarrow> (nat \<Rightarrow> real) \<Rightarrow> eigenpair" where
  "powerIter A iters rnd =
     (let n = length A;
          v0 = map rnd [0..<n];
          nv = vecNorm v0
      in (powerStep A ^^ iters) \<lparr> eig_value = 0, eig_vector = map (\<lambda>x. x / nv) v0 \<rparr>)"

text \<open>The result \<^verbatim>\<open>{ x, y, eigenvalues }\<close> of \<^verbatim>\<open>classicalMDS2D\<close>.\<close>

record mds_result =
  mds_x :: "real list"
  mds_y :: "real list"
  eigenvalues :: "real list"

text \<open>
  \<^verbatim>\<open>
  function classicalMDS2D(D) {
    const N = D.length;
    if (N < 2) return { x: [], y: [], eigenvalues: [] };
    ...
    const e1 = powerIter(B);
    const n = B.length;
    const B2 = ... B[i][j] - e1.value * e1.vector[i] * e1.vector[j] ...;
    const e2 = powerIter(B2);
    const lam1 = Math.max(e1.value, 0);
    const lam2 = Math.max(e2.value, 0);
    const x = e1.vector.map(v => Math.sqrt(lam1) * v);
    const y = e2.vector.map(v => Math.sqrt(lam2) * v);
    return { x, y, eigenvalues: [lam1, lam2] };
  }
  \<close>
  The argument \<open>random\<close> is the sequence of results of \<^verbatim>\<open>Math.random()\<close>: the first
  call of \<^verbatim>\<open>powerIter\<close> draws its first \<open>N\<close> members, the second call the next \<open>N\<close>.
  The caller passes a square matrix. The source reads the entries \<^verbatim>\<open>D[i][j]\<close> with
  \<open>i, j < N\<close> only, so of rows longer than \<open>N\<close> it uses the first \<open>N\<close> entries and
  returns a result as for the leading \<open>N \<times> N\<close> block. Of a row shorter than \<open>N\<close> it reads
  entries that do not exist and computes with \<^verbatim>\<open>NaN\<close>; the model returns \<open>None\<close> there.
\<close>

definition classicalMDS2D :: "real list list \<Rightarrow> (nat \<Rightarrow> real) \<Rightarrow> mds_result option" where
  "classicalMDS2D D random =
     (let N = length D in
      if N < 2 then Some \<lparr> mds_x = [], mds_y = [], eigenvalues = [] \<rparr>
      else if \<exists>row \<in> set D. length row < N then None
      else
        let B = doubleCenter D;
            e1 = powerIter B 150 (\<lambda>i. random i);
            n = length B;
            B2 = matrixFrom n
                   (\<lambda>i j. B ! i ! j - eig_value e1 * eig_vector e1 ! i * eig_vector e1 ! j);
            e2 = powerIter B2 150 (\<lambda>i. random (N + i));
            lam1 = max (eig_value e1) 0;
            lam2 = max (eig_value e2) 0
        in Some \<lparr> mds_x = map (\<lambda>v. sqrt lam1 * v) (eig_vector e1),
                  mds_y = map (\<lambda>v. sqrt lam2 * v) (eig_vector e2),
                  eigenvalues = [lam1, lam2] \<rparr>)"

section \<open>Partner institutions\<close>

text \<open>
  The computing part of \<^verbatim>\<open>drawTopRORPartners\<close>; the page elements it writes to and the
  chart it draws are left out.

  The home institution, inferred inside the function:
  \<^verbatim>\<open>
  for (const p of (selectedPubs || [])) {
    const a = parseAuthorships(p);
    const n = a.ids.length;
    for (let i = 0; i < n; i++) {
      const id = a.ids[i];
      const ror = (a.instRor[i] || '').trim();
      if (!id || !ror) continue;
      if (cohortIDs.has(id)) {
        talliesHome.set(ror, (talliesHome.get(ror) || 0) + 1);
      }
    }
  }
  \<close>
\<close>

definition rorAt :: "authorships \<Rightarrow> nat \<Rightarrow> string" where
  "rorAt a i = trim (instRor a ! i)"

definition homeRorTallyPub :: "string set \<Rightarrow> (string \<times> nat) list \<Rightarrow> row \<Rightarrow> (string \<times> nat) list" where
  "homeRorTallyPub cohort tallies p =
     (let a = parseAuthorships p in
      fold (\<lambda>i t.
              if ids a ! i = [] \<or> rorAt a i = [] then t
              else if ids a ! i \<in> cohort then mapInc t (rorAt a i) else t)
           [0..<length (ids a)] tallies)"

text \<open>
  \<^verbatim>\<open>
  let homeROR = '';
  {
    let bestN = 0;
    for (const [k, n] of talliesHome.entries()) {
      if (n > bestN) { homeROR = k; bestN = n; }
    }
  }
  \<close>
\<close>

definition inferHomeROR :: "string set \<Rightarrow> row list \<Rightarrow> string" where
  "inferHomeROR cohort selectedPubs =
     fst (fold (\<lambda>(k, n) (best, bestN). if n > bestN then (k, n) else (best, bestN))
            (fold (\<lambda>p t. homeRorTallyPub cohort t p) selectedPubs [])
            ([], 0 :: nat))"

text \<open>
  The partner institutions reached on one paper:
  \<^verbatim>\<open>
  const creditedThisCohort = new Set();
  for (let i = 0; i < n; i++) {
    const id = a.ids[i];
    if (!cohortIDs.has(id)) continue;
    const ownRor = (a.instRor[i] || '').trim();
    for (let j = 0; j < n; j++) {
      if (j === i) continue; // skip self
      const ror = (a.instRor[j] || '').trim();
      if (!ror) continue;
      if (ownRor && ror === ownRor) continue;
      if (homeROR && ror === homeROR) continue;
      creditedThisCohort.add(ror);
    }
  }
  \<close>
\<close>

definition creditCoauthors :: "string \<Rightarrow> authorships \<Rightarrow> nat \<Rightarrow> string list \<Rightarrow> string list" where
  "creditCoauthors homeROR a i credited =
     (let ownRor = rorAt a i in
      fold (\<lambda>j s.
              if j = i then s
              else if rorAt a j = [] then s
              else if ownRor \<noteq> [] \<and> rorAt a j = ownRor then s
              else if homeROR \<noteq> [] \<and> rorAt a j = homeROR then s
              else setAdd s (rorAt a j))
           [0..<length (ids a)] credited)"

definition creditedThisCohort :: "string set \<Rightarrow> string \<Rightarrow> authorships \<Rightarrow> string list" where
  "creditedThisCohort cohort homeROR a =
     fold (\<lambda>i s. if ids a ! i \<notin> cohort then s else creditCoauthors homeROR a i s)
       [0..<length (ids a)] []"

text \<open>
  The value of a partner in the tally, \<^verbatim>\<open>{ name, country, n }\<close>, with its fields named
  \<open>rec_name\<close>, \<open>rec_country\<close> and \<open>rec_n\<close>.
\<close>

record partner_rec =
  rec_name :: string
  rec_country :: string
  rec_n :: nat

text \<open>\<^verbatim>\<open>arr.findIndex(x => P(x))\<close>, \<open>None\<close> for the result \<open>-1\<close>.\<close>

fun findIndex :: "('a \<Rightarrow> bool) \<Rightarrow> 'a list \<Rightarrow> nat option" where
  "findIndex P [] = None"
| "findIndex P (x # xs) = (if P x then Some 0 else map_option Suc (findIndex P xs))"

text \<open>
  \<^verbatim>\<open>
  const idx = a.instRor.findIndex(x => x === ror);
  const name = (idx >= 0 ? a.instName[idx] : '') || '';
  const country = (idx >= 0 ? a.instCountry3[idx] : '') || '';
  const rec = tally.get(ror) || { name: name || ror, country, n: 0 };
  if (!rec.name && name) rec.name = name;
  if (!rec.country && country) rec.country = country;
  rec.n += 1;
  tally.set(ror, rec);
  \<close>
\<close>

definition creditPartner :: "authorships \<Rightarrow> string \<Rightarrow> (string \<times> partner_rec) list \<Rightarrow> (string \<times> partner_rec) list" where
  "creditPartner a ror tally =
     (let idx = findIndex (\<lambda>x. x = ror) (instRor a);
          name = (case idx of Some k \<Rightarrow> instName a ! k | None \<Rightarrow> []);
          country = (case idx of Some k \<Rightarrow> instCountry3 a ! k | None \<Rightarrow> []);
          rec0 = (case map_of tally ror of
                    Some r \<Rightarrow> r
                  | None \<Rightarrow> \<lparr> rec_name = (if name \<noteq> [] then name else ror),
                              rec_country = country, rec_n = 0 \<rparr>);
          rec1 = (if rec_name rec0 = [] \<and> name \<noteq> [] then rec0 \<lparr> rec_name := name \<rparr> else rec0);
          rec2 = (if rec_country rec1 = [] \<and> country \<noteq> []
                  then rec1 \<lparr> rec_country := country \<rparr> else rec1)
      in AList.update ror (rec2 \<lparr> rec_n := rec_n rec2 + 1 \<rparr>) tally)"

text \<open>
  One pass of the loop over the selected publications; the state is the tally and the
  counter \<^verbatim>\<open>paperCredits\<close>.
  \<^verbatim>\<open>
  const a = parseAuthorships(p);
  const n = a.ids.length;
  if (!n) continue;
  ...
  if (creditedThisCohort.size) {
    paperCredits++;
    for (const ror of creditedThisCohort) { ... }
  }
  \<close>
\<close>

definition partnerTallyPub ::
  "string set \<Rightarrow> string \<Rightarrow> (string \<times> partner_rec) list \<times> nat \<Rightarrow> row
     \<Rightarrow> (string \<times> partner_rec) list \<times> nat" where
  "partnerTallyPub cohort homeROR st p =
     (let a = parseAuthorships p in
      if length (ids a) = 0 then st
      else let credited = creditedThisCohort cohort homeROR a in
           if credited \<noteq> []
           then (fold (creditPartner a) credited (fst st), snd st + 1)
           else st)"

text \<open>
  A row of the ranking, \<^verbatim>\<open>{ ror, name, country, n }\<close>, with its fields named
  \<open>row_ror\<close>, \<open>row_name\<close>, \<open>row_country\<close> and \<open>row_n\<close>.
\<close>

record partner_row =
  row_ror :: string
  row_name :: string
  row_country :: string
  row_n :: nat

text \<open>
  \<^verbatim>\<open>
  let rows = Array.from(tally.entries())
    .filter(([ror]) => !homeROR || ror !== homeROR) // NEW safety filter
    .map(([ror, rec]) => ({ ror, name: rec.name || ror, country: rec.country || '', n: rec.n }))
    .sort((a, b) => b.n - a.n)
    .slice(0, 12);
  \<close>
  \<^verbatim>\<open>Array.prototype.sort\<close> is stable, as \<^const>\<open>sort_key\<close> is.
\<close>

definition partnerRows :: "string \<Rightarrow> (string \<times> partner_rec) list \<Rightarrow> partner_row list" where
  "partnerRows homeROR tally =
     map (\<lambda>(ror, r). \<lparr> row_ror = ror,
                        row_name = (if rec_name r \<noteq> [] then rec_name r else ror),
                        row_country = rec_country r,
                        row_n = rec_n r \<rparr>)
       (filter (\<lambda>(ror, r). homeROR = [] \<or> ror \<noteq> homeROR) tally)"

definition sortByCreditsDesc :: "partner_row list \<Rightarrow> partner_row list" where
  "sortByCreditsDesc rows = sort_key (\<lambda>r. - int (row_n r)) rows"

text \<open>
  The function as a whole. With an empty roster it stops before computing anything
  (\<^verbatim>\<open>if (!cohortIDs.size) { ...; return; }\<close>), which is the result \<open>None\<close>; otherwise the
  result is the list \<^verbatim>\<open>rows\<close> it goes on to draw.
\<close>

definition partnerTally :: "string set \<Rightarrow> string \<Rightarrow> row list \<Rightarrow> (string \<times> partner_rec) list \<times> nat" where
  "partnerTally cohort homeROR selectedPubs =
     fold (\<lambda>p s. partnerTallyPub cohort homeROR s p) selectedPubs ([], 0)"

definition topRORPartners :: "row list \<Rightarrow> row list \<Rightarrow> partner_row list option" where
  "topRORPartners contributingRoster selectedPubs =
     (let cohort = cohortIDs contributingRoster in
      if cohort = {} then None
      else let homeROR = inferHomeROR cohort selectedPubs;
               st = partnerTally cohort homeROR selectedPubs
           in Some (take 12 (sortByCreditsDesc (partnerRows homeROR (fst st)))))"

text \<open>
  The specification's reading of the partners of one roster author on a paper: the first
  institutions of the other authorships, leaving out the empty ones, the author's own and
  the home institution.
\<close>

definition spec_partnersOfAuthor :: "string \<Rightarrow> authorships \<Rightarrow> nat \<Rightarrow> string set" where
  "spec_partnersOfAuthor homeROR a i =
     {rorAt a j | j. j < length (ids a) \<and> j \<noteq> i \<and> rorAt a j \<noteq> [] \<and>
                     \<not> (rorAt a i \<noteq> [] \<and> rorAt a j = rorAt a i) \<and>
                     \<not> (homeROR \<noteq> [] \<and> rorAt a j = homeROR)}"

text \<open>The number of credits a tally holds for an institution (0 when it has no entry).\<close>

definition creditsOf :: "(string \<times> partner_rec) list \<Rightarrow> string \<Rightarrow> nat" where
  "creditsOf tally ror = (case map_of tally ror of None \<Rightarrow> 0 | Some r \<Rightarrow> rec_n r)"

section \<open>Co-authorship graph\<close>

text \<open>\<^verbatim>\<open>a || b\<close> on strings.\<close>

definition orElse :: "string \<Rightarrow> string \<Rightarrow> string" where
  "orElse a b = (if a \<noteq> [] then a else b)"

text \<open>
  \<^verbatim>\<open>
  const idNorm = s => String(s||'').trim()
    .replace(/^https?:\/\/openalex\.org\/authors\//i,'')
    .replace(/^https?:\/\/openalex\.org\//i,'');
  const workNorm = s => String(s||'').trim()
    .replace(/^https?:\/\/openalex\.org\/works\//i,'')
    .replace(/^https?:\/\/openalex\.org\//i,'');
  \<close>
\<close>

definition idNorm :: "string \<Rightarrow> string" where
  "idNorm s = stripURL ''openalex.org/'' (stripURL ''openalex.org/authors/'' (trim s))"

definition workNorm :: "string \<Rightarrow> string" where
  "workNorm s = stripURL ''openalex.org/'' (stripURL ''openalex.org/works/'' (trim s))"

text \<open>\<^verbatim>\<open>workNorm(p.id || p.work_id || '')\<close>, for a publication and for an authorship row.\<close>

definition widOf :: "row \<Rightarrow> string" where
  "widOf p = workNorm (orElse (cell p ''id'') (cell p ''work_id''))"

text \<open>
  \<^verbatim>\<open>
  const nameOf = new Map(contributingRoster.map(r => [idNorm(r.OpenAlexID), r.Name || r.OpenAlexID]));
  \<close>
\<close>

definition nameOf :: "row list \<Rightarrow> (string \<times> string) list" where
  "nameOf contributingRoster =
     fold (\<lambda>r m. AList.update (idNorm (cell r ''OpenAlexID''))
                    (orElse (cell r ''Name'') (cell r ''OpenAlexID'')) m)
       contributingRoster []"

text \<open>
  \<^verbatim>\<open>
  const selectedWorkIDs = new Set(
    selectedPubs.map(p => workNorm(p.id || p.work_id || '')).filter(Boolean)
  );
  \<close>
\<close>

definition selectedWorkIDs :: "row list \<Rightarrow> string set" where
  "selectedWorkIDs selectedPubs = set (filter (\<lambda>w. w \<noteq> []) (map widOf selectedPubs))"

text \<open>
  The preferred path, one authorship row at a time. \<^verbatim>\<open>byWork\<close> maps a work id to the set
  of roster ids on the work.
  \<^verbatim>\<open>
  const wid = workNorm(row.id || row.work_id || '');
  if (!selectedWorkIDs.has(wid)) continue;     // only current selection
  const aid = idNorm(row.author_openalex_id);
  if (!nameOf.has(aid)) continue;              // only cohort authors
  if (!byWork.has(wid)) byWork.set(wid, new Set());
  byWork.get(wid).add(aid);
  \<close>
\<close>

definition byWorkAdd :: "(string \<times> string list) list \<Rightarrow> string \<Rightarrow> string \<Rightarrow> (string \<times> string list) list" where
  "byWorkAdd byWork wid aid =
     AList.update wid (setAdd (case map_of byWork wid of None \<Rightarrow> [] | Some s \<Rightarrow> s) aid) byWork"

definition byWorkPreferred :: "row list \<Rightarrow> row list \<Rightarrow> row list \<Rightarrow> (string \<times> string list) list" where
  "byWorkPreferred authorshipData contributingRoster selectedPubs =
     fold (\<lambda>r byWork.
             if widOf r \<notin> selectedWorkIDs selectedPubs then byWork
             else if idNorm (cell r ''author_openalex_id'') \<notin> fst ` set (nameOf contributingRoster)
             then byWork
             else byWorkAdd byWork (widOf r) (idNorm (cell r ''author_openalex_id'')))
       authorshipData []"

text \<open>
  Replacing every match of a character class that stands under \<^verbatim>\<open>+\<close> by one space, as
  \<^verbatim>\<open>s.replace(/\s+/g, ' ')\<close> does: the first character of a run becomes the space and the
  rest of the run goes. The flag says that the character before was in a run.
\<close>

fun squashRuns :: "(char \<Rightarrow> bool) \<Rightarrow> bool \<Rightarrow> string \<Rightarrow> string" where
  "squashRuns P inRun [] = []"
| "squashRuns P inRun (c # cs) =
     (if P c then (if inRun then squashRuns P True cs else CHR '' '' # squashRuns P True cs)
      else c # squashRuns P False cs)"

definition isLowerAZ :: "char \<Rightarrow> bool" where
  "isLowerAZ c \<longleftrightarrow> c \<in> set ''abcdefghijklmnopqrstuvwxyz''"

text \<open>What can go wrong in the source: reading a property of \<^verbatim>\<open>undefined\<close>.\<close>

datatype js_error = TypeError

text \<open>
  \<^verbatim>\<open>
  function canonName(raw){
    let s = stripDiacritics(raw).toLowerCase().trim();
    const m = s.match(/^([^,]+),\s*(.+)$/); if (m) s = `${m[2]} ${m[1]}`;
    s = s.replace(/[.'\u2019-]/g, ' ').replace(/[^a-z\s]/g,' ').replace(/\s+/g,' ').trim();
    const parts = s.split(' ').filter(Boolean);
    if (parts.length === 1) return parts[0];
    const suff = new Set(['jr','sr','iii','ii']);
    while (parts.length>1 && suff.has(parts.at(-1))) parts.pop();
    const particles = new Set(['de','del','della','der','den','van','von','da','di','dos',
                               'la','le','mac','mc','bin','al','ibn','st','st.']);
    const first = parts[0]; let last = parts.at(-1); const pen = parts.at(-2);
    if (parts.length>=3 && particles.has(pen)) last = `${pen} ${last}`;
    return `${first[0]} ${last}`;
  }
  \<close>
  The match of \<^verbatim>\<open>/^([^,]+),\s*(.+)$/\<close> on a trimmed string: group 1 is the text before
  the first comma and must not be empty; group 2 is what follows the comma and the white
  space after it, and must be non-empty and free of line ends, which \<^verbatim>\<open>.\<close> does not
  match.
\<close>

definition swapAtComma :: "string \<Rightarrow> string" where
  "swapAtComma s =
     (let g1 = takeWhile (\<lambda>c. c \<noteq> CHR '','') s;
          rest = dropWhile (\<lambda>c. c \<noteq> CHR '','') s
      in if g1 = [] \<or> rest = [] then s
         else let g2 = dropWhile isSpace (tl rest)
              in if g2 = [] \<or> CHR 0x0A \<in> set g2 \<or> CHR 0x0D \<in> set g2 then s
                 else g2 @ '' '' @ g1)"

text \<open>\<^verbatim>\<open>while (parts.length>1 && suff.has(parts.at(-1))) parts.pop();\<close>, on the reversed list.\<close>

fun popSuffixes :: "string list \<Rightarrow> string list" where
  "popSuffixes (p # q # ps) =
     (if p \<in> set [''jr'', ''sr'', ''iii'', ''ii''] then popSuffixes (q # ps) else p # q # ps)"
| "popSuffixes ps = ps"

definition particles :: "string list" where
  "particles = [''de'', ''del'', ''della'', ''der'', ''den'', ''van'', ''von'', ''da'', ''di'', ''dos'',
                ''la'', ''le'', ''mac'', ''mc'', ''bin'', ''al'', ''ibn'', ''st'', ''st.'']"

definition canonName :: "string \<Rightarrow> js_error + string" where
  "canonName raw =
     (let s0 = swapAtComma (trim (toLowerCase raw));
          s1 = map (\<lambda>c. if c = CHR ''.'' \<or> c = CHR 0x27 \<or> c = CHR ''-'' then CHR '' '' else c) s0;
          s2 = map (\<lambda>c. if isLowerAZ c \<or> isSpace c then c else CHR '' '') s1;
          s3 = trim (squashRuns isSpace False s2);
          parts0 = filter (\<lambda>w. w \<noteq> []) (split_on CHR '' '' s3)
      in if length parts0 = 1 then Inr (hd parts0)
         else let parts = rev (popSuffixes (rev parts0)) in
              (case parts of
                 [] \<Rightarrow> Inl TypeError
               | first # _ \<Rightarrow>
                   let last0 = last parts;
                       lastName = (if length parts \<ge> 3 \<and> parts ! (length parts - 2) \<in> set particles
                                   then parts ! (length parts - 2) @ '' '' @ last0 else last0)
                   in Inr (hd first # '' '' @ lastName)))"

text \<open>\<^verbatim>\<open>s ? String(s).split(/\s*;\s*/).map(t=>t.trim()).filter(Boolean) : []\<close>\<close>

definition splitAuthorsList :: "string \<Rightarrow> string list" where
  "splitAuthorsList s = filter (\<lambda>t. t \<noteq> []) (map trim (split_on CHR '';'' s))"

text \<open>A loop whose body can throw: the first error ends it.\<close>

fun foldE :: "('a \<Rightarrow> 's \<Rightarrow> js_error + 's) \<Rightarrow> 'a list \<Rightarrow> 's \<Rightarrow> js_error + 's" where
  "foldE f [] s = Inr s"
| "foldE f (x # xs) s = (case f x s of Inl e \<Rightarrow> Inl e | Inr s' \<Rightarrow> foldE f xs s')"

text \<open>
  The fallback path.
  \<^verbatim>\<open>
  const rosterByCanon = new Map(); // canon -> [{id, name}]
  for (const r of contributingRoster) {
    const cid = idNorm(r.OpenAlexID);
    const cname = canonName(r.Name || '');
    if (!rosterByCanon.has(cname)) rosterByCanon.set(cname, []);
    rosterByCanon.get(cname).push({ id: cid, name: r.Name || cid });
  }
  \<close>
  Of the entries \<^verbatim>\<open>{id, name}\<close> only the id is read later, so the lists hold ids.
\<close>

definition rosterByCanon :: "row list \<Rightarrow> js_error + (string \<times> string list) list" where
  "rosterByCanon contributingRoster =
     foldE (\<lambda>r m. case canonName (cell r ''Name'') of
                     Inl e \<Rightarrow> Inl e
                   | Inr cname \<Rightarrow>
                       Inr (AList.update cname
                              ((case map_of m cname of None \<Rightarrow> [] | Some l \<Rightarrow> l)
                               @ [idNorm (cell r ''OpenAlexID'')]) m))
       contributingRoster []"

text \<open>
  \<^verbatim>\<open>
  for (const p of selectedPubs) {
    const wid = workNorm(p.id || p.work_id || '');
    if (!wid) continue;
    const names = splitAuthorsList(p.authors);
    const idsOnWork = new Set();
    for (const n of names) {
      const hits = rosterByCanon.get(canonName(n));
      if (hits) for (const h of hits) idsOnWork.add(h.id);
    }
    if (idsOnWork.size >= 2) byWork.set(wid, idsOnWork);
  }
  \<close>
\<close>

definition idsOnWork :: "(string \<times> string list) list \<Rightarrow> row \<Rightarrow> js_error + string list" where
  "idsOnWork byCanon p =
     foldE (\<lambda>n s. case canonName n of
                     Inl e \<Rightarrow> Inl e
                   | Inr cn \<Rightarrow>
                       (case map_of byCanon cn of
                          None \<Rightarrow> Inr s
                        | Some hits \<Rightarrow> Inr (fold (\<lambda>h s. setAdd s h) hits s)))
       (splitAuthorsList (cell p ''authors'')) []"

definition byWorkFallback :: "row list \<Rightarrow> row list \<Rightarrow> js_error + (string \<times> string list) list" where
  "byWorkFallback contributingRoster selectedPubs =
     (case rosterByCanon contributingRoster of
        Inl e \<Rightarrow> Inl e
      | Inr byCanon \<Rightarrow>
          foldE (\<lambda>p byWork.
                   if widOf p = [] then Inr byWork
                   else (case idsOnWork byCanon p of
                           Inl e \<Rightarrow> Inl e
                         | Inr s \<Rightarrow> Inr (if length s \<ge> 2 then AList.update (widOf p) s byWork
                                          else byWork)))
            selectedPubs [])"

text \<open>
  \<^verbatim>\<open>buildGraphFromPairs\<close>. The representative publication of each work:
  \<^verbatim>\<open>
  for (const p of selectedPubs) { const w = widOf(p); if (w && !widToPub.has(w)) widToPub.set(w, p); }
  \<close>
\<close>

definition widToPub :: "row list \<Rightarrow> (string \<times> row) list" where
  "widToPub selectedPubs =
     fold (\<lambda>p m. if widOf p \<noteq> [] \<and> widOf p \<notin> fst ` set m then m @ [(widOf p, p)] else m)
       selectedPubs []"

text \<open>
  \<^verbatim>\<open>
  for (let i=0;i<ids.length;i++){
    for (let j=i+1;j<ids.length;j++){
      const a=ids[i], b=ids[j], key=`${a}|${b}`;
      ...
  \<close>
\<close>

definition pairsOf :: "string list \<Rightarrow> (string \<times> string) list" where
  "pairsOf xs =
     concat (map (\<lambda>i. map (\<lambda>j. (xs ! i, xs ! j)) [i + 1..<length xs]) [0..<length xs])"

definition pairKey :: "string \<times> string \<Rightarrow> string" where
  "pairKey ab = fst ab @ ''|'' @ snd ab"

text \<open>
  The two maps \<^verbatim>\<open>pairCounts\<close> and \<^verbatim>\<open>pairPubs\<close>, filled together:
  \<^verbatim>\<open>
  for (const [wid, set] of byWork.entries()){
    const ids = Array.from(set).sort();
    ...
        pairCounts.set(key, (pairCounts.get(key)||0) + 1);
        if (!pairPubs.has(key)) pairPubs.set(key, []);
        pairPubs.get(key).push(widToPub.get(wid)); // safe: may hold a row from selectedPubs
  \<close>
  \<^verbatim>\<open>widToPub.get(wid)\<close> is \<^verbatim>\<open>undefined\<close> (\<open>None\<close>) for a work without a representative.
\<close>

record pair_maps =
  pairCounts :: "(string \<times> nat) list"
  pairPubs :: "(string \<times> row option list) list"

definition addPair :: "row option \<Rightarrow> string \<Rightarrow> pair_maps \<Rightarrow> pair_maps" where
  "addPair pub key pm =
     \<lparr> pairCounts = mapInc (pairCounts pm) key,
       pairPubs = AList.update key
                    ((case map_of (pairPubs pm) key of None \<Rightarrow> [] | Some l \<Rightarrow> l) @ [pub])
                    (pairPubs pm) \<rparr>"

definition collectPairs :: "(string \<times> row) list \<Rightarrow> (string \<times> string list) list \<Rightarrow> pair_maps" where
  "collectPairs w2p byWork =
     fold (\<lambda>(wid, s) pm. fold (\<lambda>ab pm. addPair (map_of w2p wid) (pairKey ab) pm)
                              (pairsOf (sort s)) pm)
       byWork \<lparr> pairCounts = [], pairPubs = [] \<rparr>"

text \<open>
  \<^verbatim>\<open>const [a,b] = key.split('|');\<close>: the first two parts of the key. Every key holds a
  \<^verbatim>\<open>|\<close>, so there are at least two parts; the empty string below stands for a missing
  second part and is never reached.
\<close>

definition splitKey :: "string \<Rightarrow> string \<times> string" where
  "splitKey key =
     (case split_on CHR ''|'' key of
        a # b # _ \<Rightarrow> (a, b)
      | [a] \<Rightarrow> (a, [])
      | [] \<Rightarrow> ([], []))"

text \<open>
  \<^verbatim>\<open>
  const nodeIDs = new Set();
  for (const key of pairCounts.keys()){ const [a,b]=key.split('|'); nodeIDs.add(a); nodeIDs.add(b); }
  \<close>
\<close>

definition nodeIDsOf :: "(string \<times> nat) list \<Rightarrow> string list" where
  "nodeIDsOf pc =
     fold (\<lambda>key s. setAdd (setAdd s (fst (splitKey key))) (snd (splitKey key))) (map fst pc) []"

text \<open>
  \<^verbatim>\<open>
  const seen = new Set(); const uniqPubs = [];
  for (const p of (pairPubs.get(key) || [])) {
    const wid = widOf(p); if (wid && !seen.has(wid)) { seen.add(wid); uniqPubs.push(p); }
  }
  \<close>
\<close>

definition uniqPubs :: "row option list \<Rightarrow> row list" where
  "uniqPubs ps =
     snd (fold (\<lambda>p (seen, out).
                  case p of
                    None \<Rightarrow> (seen, out)
                  | Some q \<Rightarrow> if widOf q \<noteq> [] \<and> widOf q \<notin> set seen
                              then (seen @ [widOf q], out @ [q]) else (seen, out))
            ps ([], []))"

text \<open>
  An edge \<^verbatim>\<open>{ a, b, ai, bi, count, pubs }\<close>, its fields prefixed with \<open>edge_\<close>.
  \<^verbatim>\<open>
  const idxOf = new Map(nodes.map((n,i)=>[n.id,i]));
  for (const [key, count] of pairCounts.entries()){
    const [a,b] = key.split('|');
    if (!idxOf.has(a) || !idxOf.has(b)) continue;
    ...
    edges.push({ a, b, ai: idxOf.get(a), bi: idxOf.get(b), count, pubs: uniqPubs });
  }
  \<close>
\<close>

record edge =
  edge_a :: string
  edge_b :: string
  edge_ai :: nat
  edge_bi :: nat
  edge_count :: nat
  edge_pubs :: "row list"

definition edgeOf :: "string list \<Rightarrow> (string \<times> row option list) list \<Rightarrow> string \<times> nat \<Rightarrow> edge list" where
  "edgeOf nodeIDs pp kc =
     (let a = fst (splitKey (fst kc)); b = snd (splitKey (fst kc)) in
      case (findIndex (\<lambda>x. x = a) nodeIDs, findIndex (\<lambda>x. x = b) nodeIDs) of
        (Some ai, Some bi) \<Rightarrow>
          [\<lparr> edge_a = a, edge_b = b, edge_ai = ai, edge_bi = bi, edge_count = snd kc,
             edge_pubs = uniqPubs (case map_of pp (fst kc) of None \<Rightarrow> [] | Some l \<Rightarrow> l) \<rparr>]
      | _ \<Rightarrow> [])"

text \<open>
  The graph \<^verbatim>\<open>{ nodes, edges }\<close>. Of a node only its id is modelled: its name, level,
  position on the circle and degree are computed from the ids and the edges and are read by
  the drawing code only.
\<close>

record graph =
  nodes :: "string list"
  edges :: "edge list"

definition buildGraphFromPairs :: "(string \<times> string list) list \<Rightarrow> row list \<Rightarrow> graph" where
  "buildGraphFromPairs byWork selectedPubs =
     (let pm = collectPairs (widToPub selectedPubs) byWork;
          nodeIDs = nodeIDsOf (pairCounts pm)
      in \<lparr> nodes = nodeIDs,
           edges = concat (map (edgeOf nodeIDs (pairPubs pm)) (pairCounts pm)) \<rparr>)"

text \<open>
  \<^verbatim>\<open>
  function computeCoauthorGraph(contributingRoster, selectedPubs){
    ...
    if (typeof authorshipData !== 'undefined' && Array.isArray(authorshipData) && authorshipData.length) {
      ...
      return buildGraphFromPairs(byWork, nameOf, selectedPubs);
    }
    ...
    return buildGraphFromPairs(byWork, nameOf, selectedPubs);
  }
  \<close>
  The rows of the global \<^verbatim>\<open>authorshipData\<close> are the first argument.
\<close>

definition computeCoauthorGraph :: "row list \<Rightarrow> row list \<Rightarrow> row list \<Rightarrow> js_error + graph" where
  "computeCoauthorGraph authorshipData contributingRoster selectedPubs =
     (if authorshipData \<noteq> []
      then Inr (buildGraphFromPairs
                  (byWorkPreferred authorshipData contributingRoster selectedPubs) selectedPubs)
      else (case byWorkFallback contributingRoster selectedPubs of
              Inl e \<Rightarrow> Inl e
            | Inr byWork \<Rightarrow> Inr (buildGraphFromPairs byWork selectedPubs)))"

text \<open>The ids of the roster, as the graph builder normalises them.\<close>

definition rosterIDs :: "row list \<Rightarrow> string set" where
  "rosterIDs contributingRoster = set (map (\<lambda>r. idNorm (cell r ''OpenAlexID'')) contributingRoster)"

text \<open>The end points of the edges of a graph, in order.\<close>

definition edgeEnds :: "graph \<Rightarrow> (string \<times> string) list" where
  "edgeEnds g = map (\<lambda>e. (edge_a e, edge_b e)) (edges g)"

text \<open>
  Two notions for the proofs about the graph: every set of \<^verbatim>\<open>byWork\<close> holds ids of \<open>R\<close>
  only, and every key is an id of \<open>R\<close>, a \<^verbatim>\<open>|\<close> and an id of \<open>R\<close>.
\<close>

definition idsIn :: "string set \<Rightarrow> (string \<times> string list) list \<Rightarrow> bool" where
  "idsIn R bw \<longleftrightarrow> (\<forall>(w, s) \<in> set bw. set s \<subseteq> R)"

definition keysOver :: "string set \<Rightarrow> string set \<Rightarrow> bool" where
  "keysOver R ks \<longleftrightarrow> (\<forall>key \<in> ks. \<exists>a \<in> R. \<exists>b \<in> R. key = a @ ''|'' @ b)"

section \<open>Topic query\<close>

definition isLowerAlnum :: "char \<Rightarrow> bool" where
  "isLowerAlnum c \<longleftrightarrow> c \<in> set ''abcdefghijklmnopqrstuvwxyz0123456789''"

text \<open>
  \<^verbatim>\<open>
  function normalizeText(t) {
    if (t == null) return "";
    let s = String(t)
      .normalize("NFKD")
      .replace(/[\u0300-\u036f]/g, "")  // remove combining marks
      .toLowerCase()
      .replace(/[^a-z0-9]+/g, " ")      // map non-alphanumerics to spaces
      .replace(/\s+/g, " ")             // collapse spaces
      .trim();
    return s;
  }
  \<close>
\<close>

definition normalizeText :: "string \<Rightarrow> string" where
  "normalizeText t =
     trim (squashRuns isSpace False
             (squashRuns (\<lambda>c. \<not> isLowerAlnum c) False (toLowerCase t)))"

text \<open>
  The maximal runs of characters that satisfy \<open>P\<close>, in order; \<open>w\<close> is the run being
  read. With \<open>P\<close> "is not white space" this is \<^verbatim>\<open>s.split(/\s+/).filter(Boolean)\<close>: the
  non-empty pieces between the runs of white space.
\<close>

fun runsOf :: "(char \<Rightarrow> bool) \<Rightarrow> string \<Rightarrow> string \<Rightarrow> string list" where
  "runsOf P w [] = (if w = [] then [] else [w])"
| "runsOf P w (c # cs) =
     (if P c then runsOf P (w @ [c]) cs
      else (if w = [] then [] else [w]) @ runsOf P [] cs)"

definition wordsOf :: "string \<Rightarrow> string list" where
  "wordsOf s = runsOf (\<lambda>c. \<not> isSpace c) [] s"

text \<open>\<^verbatim>\<open>s.endsWith(suffix)\<close>, \<^verbatim>\<open>s.slice(0, -k)\<close> and the repair of a doubled last letter.\<close>

definition endsWith :: "string \<Rightarrow> string \<Rightarrow> bool" where
  "endsWith s suffix \<longleftrightarrow>
     length suffix \<le> length s \<and> drop (length s - length suffix) s = suffix"

definition dropLast :: "nat \<Rightarrow> string \<Rightarrow> string" where
  "dropLast k s = take (length s - k) s"

definition undouble :: "string \<Rightarrow> string" where
  "undouble s =
     (if length s > 3 \<and> s ! (length s - 1) = s ! (length s - 2) then dropLast 1 s else s)"

text \<open>
  \<^verbatim>\<open>
  function stem(w) {
    if (!w || w.length <= 3) return w;  // don't stem very short tokens
    let s = w;
    // plural -> singular
    if (s.endsWith("sses")) {
      s = s.slice(0, -2);                                // "classes" -> "class"
    } else if (s.endsWith("ies") && s.length > 4) {
      s = s.slice(0, -3) + "y";                          // "studies" -> "study"
    } else if (s.endsWith("s") && !s.endsWith("ss") && s.length > 3) {
      s = s.slice(0, -1);                                // "dogs" -> "dog"
    }
    // past/gerund
    if (s.endsWith("ing") && s.length > 5) {
      s = s.slice(0, -3);                                // "running" -> "runn"
      if (s.length > 3 && s[s.length - 1] === s[s.length - 2]) {
        s = s.slice(0, -1);                              // "runn" -> "run"
      }
    } else if (s.endsWith("ed") && s.length > 4) {
      s = s.slice(0, -2);                                // "jogged" -> "jogg"
      if (s.length > 3 && s[s.length - 1] === s[s.length - 2]) {
        s = s.slice(0, -1);                              // "jogg" -> "jog"
      }
    }
    return s;
  }
  \<close>
\<close>

definition stemPlural :: "string \<Rightarrow> string" where
  "stemPlural s =
     (if endsWith s ''sses'' then dropLast 2 s
      else if endsWith s ''ies'' \<and> length s > 4 then dropLast 3 s @ ''y''
      else if endsWith s ''s'' \<and> \<not> endsWith s ''ss'' \<and> length s > 3 then dropLast 1 s
      else s)"

definition stemVerb :: "string \<Rightarrow> string" where
  "stemVerb s =
     (if endsWith s ''ing'' \<and> length s > 5 then undouble (dropLast 3 s)
      else if endsWith s ''ed'' \<and> length s > 4 then undouble (dropLast 2 s)
      else s)"

definition stem :: "string \<Rightarrow> string" where
  "stem w = (if length w \<le> 3 then w else stemVerb (stemPlural w))"

text \<open>
  \<^verbatim>\<open>
  function tokenize(text) {
    const base = normalizeText(text).split(/\s+/).filter(Boolean).map(stem);
    return Array.from(new Set(base));
  }
  \<close>
\<close>

definition tokenize :: "string \<Rightarrow> string list" where
  "tokenize text = fold (\<lambda>x s. setAdd s x) (map stem (wordsOf (normalizeText text))) []"

text \<open>
  \<^verbatim>\<open>
  function strongTokenMatch(qt, tt) { return tt === qt; }
  function fuzzyQueryMatch(query, text) {
    const qTokens = tokenize(query);
    if (!qTokens.length) return true;
    const tTokens = tokenize(text);
    return qTokens.every(qt => tTokens.some(tt => strongTokenMatch(qt, tt)));
  }
  \<close>
\<close>

definition strongTokenMatch :: "string \<Rightarrow> string \<Rightarrow> bool" where
  "strongTokenMatch qt tt \<longleftrightarrow> tt = qt"

definition fuzzyQueryMatch :: "string \<Rightarrow> string \<Rightarrow> bool" where
  "fuzzyQueryMatch query text =
     (let qTokens = tokenize query in
      if qTokens = [] then True
      else let tTokens = tokenize text in
           list_all (\<lambda>qt. list_ex (\<lambda>tt. strongTokenMatch qt tt) tTokens) qTokens)"

text \<open>
  The source declares \<^verbatim>\<open>normalizeID\<close> twice in one function scope. Both declarations
  are hoisted and the later one is the one every call reaches, the calls written above it
  too; it trims before it strips the prefixes as well as after:
  \<^verbatim>\<open>
  function normalizeID(x){
    return String(x||'').trim()
      .replace(/^https?:\/\/openalex\.org\/authors\//i,'')
      .replace(/^https?:\/\/openalex\.org\//i,'')
      .trim();
  }
  \<close>
  The earlier declaration is the same without the first \<^verbatim>\<open>trim()\<close>.
\<close>

definition normalizeID :: "string \<Rightarrow> string" where
  "normalizeID x =
     trim (stripURL ''openalex.org/'' (stripURL ''openalex.org/authors/'' (trim x)))"

text \<open>\<^verbatim>\<open>parts.join(sep)\<close>\<close>

fun joinWith :: "string \<Rightarrow> string list \<Rightarrow> string" where
  "joinWith sep [] = []"
| "joinWith sep [x] = x"
| "joinWith sep (x # y # ys) = x @ sep @ joinWith sep (y # ys)"

text \<open>
  The search text of a publication, as \<^verbatim>\<open>normalizePubsFor\<close> builds it at load time from
  the whole roster \<^verbatim>\<open>rosterData\<close>.
  \<^verbatim>\<open>
  const cohortTokensByID = new Map(
    (rosterData || []).map(r => {
      const id = normalizeID(r.OpenAlexID);
      const toks = normalizeText(r.Name || '').split(/\s+/).filter(Boolean);
      return [id, toks];
    })
  );
  \<close>
\<close>

definition cohortTokensByID :: "row list \<Rightarrow> (string \<times> string list) list" where
  "cohortTokensByID rosterData =
     fold (\<lambda>r m. AList.update (normalizeID (cell r ''OpenAlexID''))
                    (wordsOf (normalizeText (cell r ''Name''))) m)
       rosterData []"

text \<open>
  \<^verbatim>\<open>
  const union = String(p.cohort_union_author_ids || '').trim();
  let ids = union ? union.split('|').map(normalizeID).filter(Boolean) : [];
  if (!ids.length) {
    ids = splitPipe(p['authorships__author__id']).map(normalizeID).filter(Boolean);
  }
  \<close>
\<close>

definition idsOnPub :: "row \<Rightarrow> string list" where
  "idsOnPub p =
     (let union = trim (cell p ''cohort_union_author_ids'');
          ids0 = (if union \<noteq> []
                  then filter (\<lambda>i. i \<noteq> []) (map normalizeID (split_on CHR ''|'' union))
                  else [])
      in if ids0 = []
         then filter (\<lambda>i. i \<noteq> []) (map normalizeID (splitPipe (p ''authorships__author__id'')))
         else ids0)"

text \<open>
  \<^verbatim>\<open>
  const nameTokens = [];
  for (const aid of ids) {
    const toks = cohortTokensByID.get(aid);
    if (toks && toks.length) nameTokens.push(...toks);
  }
  \<close>
\<close>

definition nameTokensOf :: "row list \<Rightarrow> row \<Rightarrow> string list" where
  "nameTokensOf rosterData p =
     concat (map (\<lambda>aid. case map_of (cohortTokensByID rosterData) aid of
                            None \<Rightarrow> [] | Some toks \<Rightarrow> toks)
               (idsOnPub p))"

text \<open>
  \<^verbatim>\<open>
  const cParts = [
    p.concepts_list || '',
    p.primary_topic__subfield__display_name || '',
    p.primary_topic__display_name || '',
    p.display_name || ''
  ];
  ...
  if (nameTokens.length) cParts.push(nameTokens.join(' '));
  p._topic_haystack = normalizeText(cParts.join(' ').toLowerCase());
  \<close>
\<close>

definition topicFields :: "row \<Rightarrow> string list" where
  "topicFields p =
     [cell p ''concepts_list'',
      cell p ''primary_topic__subfield__display_name'',
      cell p ''primary_topic__display_name'',
      cell p ''display_name'']"

definition topicHaystack :: "row list \<Rightarrow> row \<Rightarrow> string" where
  "topicHaystack rosterData p =
     (let nameTokens = nameTokensOf rosterData p;
          cParts = topicFields p @ (if nameTokens \<noteq> [] then [joinWith '' '' nameTokens] else [])
      in normalizeText (toLowerCase (joinWith '' '' cParts)))"

text \<open>
  The copy of \<^verbatim>\<open>normalizePubsFor\<close> in \<^verbatim>\<open>src/dashboard.js\<close> is an earlier one that
  builds the search text from the four fields alone:
  \<^verbatim>\<open>
  const c = [ p.concepts_list || '', p.primary_topic__subfield__display_name || '',
              p.primary_topic__display_name || '', p.display_name || '' ].join(' ').toLowerCase();
  p._topic_haystack = normalizeText(c);
  \<close>
\<close>

definition topicHaystack_fieldsOnly :: "row \<Rightarrow> string" where
  "topicHaystack_fieldsOnly p = normalizeText (toLowerCase (joinWith '' '' (topicFields p)))"

text \<open>
  The topic test of \<^verbatim>\<open>applyFilters\<close>, for the text \<open>q\<close> of the search box:
  \<^verbatim>\<open>
  const topicQ = (qEl && qEl.value) ? qEl.value.trim().toLowerCase() : '';
  ...
  if (topicQ) pubs = pubs.filter(p => fuzzyQueryMatch(topicQ, p._topic_haystack));
  \<close>
\<close>

definition passesTopicFilter :: "string \<Rightarrow> string \<Rightarrow> bool" where
  "passesTopicFilter q haystack =
     (let topicQ = toLowerCase (trim q) in
      if topicQ \<noteq> [] then fuzzyQueryMatch topicQ haystack else True)"

text \<open>
  The specification's reading of "the name tokens of the cohort authors appearing on the
  work": the words of the normalised names of the roster members whose id the work lists
  (in its union-of-ids field, or else among its authorship ids).
\<close>

definition spec_cohortNameTokens :: "row list \<Rightarrow> row \<Rightarrow> string set" where
  "spec_cohortNameTokens rosterData p =
     (\<Union>aid \<in> set (idsOnPub p).
        case map_of (cohortTokensByID rosterData) aid of None \<Rightarrow> {} | Some toks \<Rightarrow> set toks)"

section \<open>Concrete inputs\<close>

text \<open>Rows used to run the functions above on concrete data.\<close>

definition ex_roster :: "row list" where
  "ex_roster =
     [[''OpenAlexID'' \<mapsto> ''https://openalex.org/authors/A1'', ''Name'' \<mapsto> ''Ada Smith'']]"

definition ex_pub_longer_ids :: row where
  "ex_pub_longer_ids =
     [''authorships__countries'' \<mapsto> ''CA'',
      ''authorships__author__id'' \<mapsto> ''A1|A2'']"

definition ex_pub_shorter_ids :: row where
  "ex_pub_shorter_ids =
     [''authorships__countries'' \<mapsto> ''CA|FR'',
      ''authorships__author__id'' \<mapsto> ''A1'',
      ''authorships__is_corresponding'' \<mapsto> ''true'']"

definition ex_roster2 :: "row list" where
  "ex_roster2 =
     [[''OpenAlexID'' \<mapsto> ''A1'', ''Name'' \<mapsto> ''Ada Smith''],
      [''OpenAlexID'' \<mapsto> ''https://openalex.org/authors/A2'', ''Name'' \<mapsto> ''Bo Chen'']]"

definition ex_pubs_usa :: "row list" where
  "ex_pubs_usa =
     [[''authorships__countries'' \<mapsto> ''US|GB|FR'',
       ''authorships__author__id'' \<mapsto> ''A1|A2|X5''],
      [''authorships__countries'' \<mapsto> ''US|US'',
       ''authorships__author__id'' \<mapsto> ''A2|A1'']]"

definition ex_pubs_tie :: "row list" where
  "ex_pubs_tie =
     [[''authorships__countries'' \<mapsto> ''FR|GB|US'',
       ''authorships__author__id'' \<mapsto> ''X5|A1|A2'']]"

definition ex_pub_partners :: row where
  "ex_pub_partners =
     [''authorships__countries'' \<mapsto> ''CA|CA|FR'',
      ''authorships__author__id'' \<mapsto> ''A1|A2|X5'',
      ''authorships__institutions__ror'' \<mapsto>
         ''https://ror.org/r1|https://ror.org/r2|https://ror.org/r9;https://ror.org/r8'',
      ''authorships__institutions__display_name'' \<mapsto> ''Univ One|Univ Two|Univ Nine;Univ Eight'',
      ''authorships__institutions__country_code'' \<mapsto> ''CA|CA|FR;DE'']"

definition ex_pub_13_partners :: row where
  "ex_pub_13_partners =
     [''authorships__countries'' \<mapsto> ''CA|FR|FR|FR|FR|FR|FR|FR|FR|FR|FR|FR|FR|FR'',
      ''authorships__author__id'' \<mapsto> ''A1|X1|X2|X3|X4|X5|X6|X7|X8|X9|Y1|Y2|Y3|Y4'',
      ''authorships__institutions__ror'' \<mapsto> ''r0|r1|r2|r3|r4|r5|r6|r7|r8|r9|s1|s2|s3|s4'']"

definition ex_pub_2_partners :: row where
  "ex_pub_2_partners =
     [''authorships__countries'' \<mapsto> ''CA|FR|FR'',
      ''authorships__author__id'' \<mapsto> ''A1|Y3|Y4'',
      ''authorships__institutions__ror'' \<mapsto> ''r0|s3|s4'']"

definition ex_pub_topic :: row where
  "ex_pub_topic =
     [''display_name'' \<mapsto> ''Soil Studies'',
      ''primary_topic__display_name'' \<mapsto> ''Carbon cycling'',
      ''concepts_list'' \<mapsto> ''Ecology|Biology'',
      ''authorships__author__id'' \<mapsto> ''https://openalex.org/A1|X5'']"

definition ex_pub_fra :: row where
  "ex_pub_fra =
     [''authorships__countries'' \<mapsto> ''CA|FR'',
      ''authorships__author__id'' \<mapsto> ''https://openalex.org/authors/A1|A9'',
      ''authorships__author_position'' \<mapsto> ''first|middle'']"

definition ex_pub_rule2 :: row where
  "ex_pub_rule2 =
     [''authorships__countries'' \<mapsto> ''CA|FR|DE'',
      ''authorships__author__id'' \<mapsto> ''A1|B7|C8'',
      ''authorships__author_position'' \<mapsto> ''middle|first|middle'']"

definition ex_roster_pipe :: "row list" where
  "ex_roster_pipe =
     [[''OpenAlexID'' \<mapsto> ''A1|A2'', ''Name'' \<mapsto> ''Ada Smith''],
      [''OpenAlexID'' \<mapsto> ''A3'', ''Name'' \<mapsto> ''Bo Chen'']]"

definition ex_authorships_pipe :: "row list" where
  "ex_authorships_pipe =
     [[''id'' \<mapsto> ''W1'', ''author_openalex_id'' \<mapsto> ''A1|A2''],
      [''id'' \<mapsto> ''W1'', ''author_openalex_id'' \<mapsto> ''A3'']]"

definition ex_pub_w1 :: row where
  "ex_pub_w1 =
     [''id'' \<mapsto> ''https://openalex.org/W1'',
      ''authors'' \<mapsto> ''Smith, Ada; Bo Chen; Zed Other Jr'']"

definition ex_pub_w2 :: row where
  "ex_pub_w2 = [''id'' \<mapsto> ''W2'', ''authors'' \<mapsto> ''Ada Smith'']"

definition ex_authorships :: "row list" where
  "ex_authorships =
     [[''id'' \<mapsto> ''https://openalex.org/W1'',
       ''author_openalex_id'' \<mapsto> ''https://openalex.org/A2''],
      [''work_id'' \<mapsto> ''W1'', ''author_openalex_id'' \<mapsto> ''A1''],
      [''id'' \<mapsto> ''W2'', ''author_openalex_id'' \<mapsto> ''A1''],
      [''id'' \<mapsto> ''W1'', ''author_openalex_id'' \<mapsto> ''X5'']]"

chapter \<open>Properties\<close>

section \<open>Properties of the aligned arrays\<close>

lemma length_pad: "length (pad n arr fill) = n"
  by (simp add: pad_def)

lemma pad_take_replicate: "pad n arr fill = take n arr @ replicate (n - length arr) fill"
proof (cases "length arr = n")
  case True
  then show ?thesis by (simp add: pad_def)
next
  case False
  have "map (\<lambda>i. if i < length arr then arr ! i else fill) [0..<n]
        = take n arr @ replicate (n - length arr) fill"
    by (rule nth_equalityI) (auto simp: nth_append min_def)
  with False show ?thesis by (simp add: pad_def)
qed

lemma parseAuthorships_lengths:
  "length (ids (parseAuthorships pub)) = length (countries (parseAuthorships pub))"
  "length (names (parseAuthorships pub)) = length (countries (parseAuthorships pub))"
  "length (isCorresponding (parseAuthorships pub)) = length (countries (parseAuthorships pub))"
  "length (position (parseAuthorships pub)) = length (countries (parseAuthorships pub))"
  "length (instRor (parseAuthorships pub)) = length (countries (parseAuthorships pub))"
  "length (instName (parseAuthorships pub)) = length (countries (parseAuthorships pub))"
  "length (instCountry3 (parseAuthorships pub)) = length (countries (parseAuthorships pub))"
  by (simp_all add: parseAuthorships_def Let_def length_pad)

text \<open>
  Claim C4, as the code has it. Every array returned by \<^verbatim>\<open>parseAuthorships\<close> has the
  length of the countries array. Each is the array parsed from its column cut to that
  length: one that is shorter is filled on the right with the empty string (\<open>False\<close> for
  the corresponding-author flags), and one that is longer loses its elements beyond that
  length.
\<close>

theorem parseAuthorships_aligned_to_countries:
  "countries (parseAuthorships pub) = pa_countries pub \<and>
   ids (parseAuthorships pub)
     = take (length (pa_countries pub)) (pa_ids pub)
       @ replicate (length (pa_countries pub) - length (pa_ids pub)) [] \<and>
   names (parseAuthorships pub)
     = take (length (pa_countries pub)) (pa_names pub)
       @ replicate (length (pa_countries pub) - length (pa_names pub)) [] \<and>
   isCorresponding (parseAuthorships pub)
     = take (length (pa_countries pub)) (pa_isCorresponding pub)
       @ replicate (length (pa_countries pub) - length (pa_isCorresponding pub)) False \<and>
   position (parseAuthorships pub)
     = take (length (pa_countries pub)) (pa_pos pub)
       @ replicate (length (pa_countries pub) - length (pa_pos pub)) [] \<and>
   instRor (parseAuthorships pub)
     = take (length (pa_countries pub)) (pa_instRor pub)
       @ replicate (length (pa_countries pub) - length (pa_instRor pub)) [] \<and>
   instName (parseAuthorships pub)
     = take (length (pa_countries pub)) (pa_instName pub)
       @ replicate (length (pa_countries pub) - length (pa_instName pub)) [] \<and>
   instCountry3 (parseAuthorships pub)
     = take (length (pa_countries pub)) (pa_instISO3 pub)
       @ replicate (length (pa_countries pub) - length (pa_instISO3 pub)) [] \<and>
   length (ids (parseAuthorships pub)) = length (countries (parseAuthorships pub)) \<and>
   length (names (parseAuthorships pub)) = length (countries (parseAuthorships pub)) \<and>
   length (isCorresponding (parseAuthorships pub)) = length (countries (parseAuthorships pub)) \<and>
   length (position (parseAuthorships pub)) = length (countries (parseAuthorships pub)) \<and>
   length (instRor (parseAuthorships pub)) = length (countries (parseAuthorships pub)) \<and>
   length (instName (parseAuthorships pub)) = length (countries (parseAuthorships pub)) \<and>
   length (instCountry3 (parseAuthorships pub)) = length (countries (parseAuthorships pub))"
  by (simp add: parseAuthorships_def Let_def pad_take_replicate [symmetric] length_pad)

theorem parseAuthorships_aligned_witness:
  "pa_ids ex_pub_shorter_ids = [''A1''] \<and>
   pa_isCorresponding ex_pub_shorter_ids = [True] \<and>
   pa_pos ex_pub_shorter_ids = [] \<and>
   countries (parseAuthorships ex_pub_shorter_ids) = [''CAN'', ''FRA''] \<and>
   ids (parseAuthorships ex_pub_shorter_ids) = [''A1'', []] \<and>
   isCorresponding (parseAuthorships ex_pub_shorter_ids) = [True, False] \<and>
   position (parseAuthorships ex_pub_shorter_ids) = [[], []]"
proof -
  have e: "pa_countries ex_pub_shorter_ids = [''CAN'', ''FRA'']"
    "pa_ids ex_pub_shorter_ids = [''A1'']"
    "pa_isCorresponding ex_pub_shorter_ids = [True]"
    "pa_pos ex_pub_shorter_ids = []"
    by code_simp+
  show ?thesis
    using parseAuthorships_aligned_to_countries [of ex_pub_shorter_ids]
    by (simp add: e)
qed

theorem parseAuthorships_truncates_counterexample:
  "pa_countries ex_pub_longer_ids = [''CAN''] \<and>
   pa_ids ex_pub_longer_ids = [''A1'', ''A2''] \<and>
   ids (parseAuthorships ex_pub_longer_ids) = [''A1''] \<and>
   \<not> length (pa_ids ex_pub_longer_ids) \<le> length (ids (parseAuthorships ex_pub_longer_ids))"
  by code_simp

section \<open>International links\<close>

lemma mapGet0_mapInc: "mapGet0 (mapInc m x) k = (if k = x then mapGet0 m x + 1 else mapGet0 m k)"
  by (simp add: mapGet0_def mapInc_def update_conv')

lemma mapGet0_fold_mapInc:
  "distinct xs \<Longrightarrow>
   mapGet0 (fold (\<lambda>iso c. mapInc c iso) xs m) k = mapGet0 m k + (if k \<in> set xs then 1 else 0)"
  by (induction xs arbitrary: m) (auto simp: mapGet0_mapInc)

lemma set_creditCountries:
  "set (creditCountries a idx s) = set s \<union> {c. \<exists>j\<in>set idx. c = countries a ! j \<and> c \<noteq> []}"
  unfolding creditCountries_def
  by (induction idx arbitrary: s) (auto simp: Let_def setAdd_def)

lemma distinct_creditCountries:
  "distinct s \<Longrightarrow> distinct (creditCountries a idx s)"
  unfolding creditCountries_def
  by (induction idx arbitrary: s) (auto simp: Let_def setAdd_def)

lemma distinct_creditedThisPaper: "distinct (creditedThisPaper cohort home a)"
  by (simp add: creditedThisPaper_def Let_def distinct_creditCountries)

lemma set_creditedThisPaper_subset:
  "set (creditedThisPaper cohort home a)
     \<subseteq> {c. \<exists>j<length (ids a). c = countries a ! j \<and> isIntl home a j}"
  by (auto simp: creditedThisPaper_def Let_def set_creditCountries intlIdx_any_def intlIdx_FL_def
      split: if_splits)

lemma set_creditedThisPaper_rule1:
  assumes "cohortIdx_FL cohort a \<noteq> []" and "intlIdx_any home a \<noteq> []"
  shows "set (creditedThisPaper cohort home a)
     = {c. \<exists>j<length (ids a). c = countries a ! j \<and> isIntl home a j}"
proof
  show "set (creditedThisPaper cohort home a)
     \<subseteq> {c. \<exists>j<length (ids a). c = countries a ! j \<and> isIntl home a j}"
    by (rule set_creditedThisPaper_subset)
  have "{c. \<exists>j<length (ids a). c = countries a ! j \<and> isIntl home a j}
        \<subseteq> set (creditCountries a (intlIdx_any home a) [])"
    by (auto simp: set_creditCountries intlIdx_any_def isIntl_def)
  also have "\<dots> \<subseteq> set (creditedThisPaper cohort home a)"
    using assms by (auto simp: creditedThisPaper_def Let_def set_creditCountries)
  finally show "{c. \<exists>j<length (ids a). c = countries a ! j \<and> isIntl home a j}
        \<subseteq> set (creditedThisPaper cohort home a)" .
qed

lemma intl_countries_parsed:
  "{c. \<exists>j<length (ids (parseAuthorships p)).
         c = countries (parseAuthorships p) ! j \<and> isIntl home (parseAuthorships p) j}
   = {c \<in> set (countries (parseAuthorships p)). c \<noteq> [] \<and> home \<noteq> [] \<and> c \<noteq> home}"
  by (auto simp: isIntl_def parseAuthorships_lengths in_set_conv_nth)

lemma computeHomeCountry_nonempty: "computeHomeCountry roster pubs \<noteq> []"
  by (simp add: computeHomeCountry_def Let_def split: option.splits)

lemma toLowerCase_first_last:
  "toLowerCase ''first'' = ''first''" "toLowerCase ''last'' = ''last''"
  by (simp_all add: toLowerCase_def toLowerChar_def)

lemma cohortIdx_FL_nonempty:
  assumes "i < length (ids a)" "ids a ! i \<noteq> []" "ids a ! i \<in> cohort"
    "position a ! i = ''first'' \<or> position a ! i = ''last''"
  shows "cohortIdx_FL cohort a \<noteq> []"
proof -
  have "i \<in> set (cohortIdx_FL cohort a)"
    using assms by (auto simp: cohortIdx_FL_def isCohort_def isFL_def posOf_def toLowerCase_first_last)
  then show ?thesis by auto
qed

lemma intlIdx_any_nonempty:
  assumes "j < length (ids a)" "countries a ! j \<noteq> []" "countries a ! j \<noteq> home" "home \<noteq> []"
  shows "intlIdx_any home a \<noteq> []"
proof -
  have "j \<in> set (intlIdx_any home a)"
    using assms by (auto simp: intlIdx_any_def isIntl_def)
  then show ?thesis by auto
qed

lemma intlTallyPub_count:
  "mapGet0 (intlTallyPub cohort home counts p) c
   = mapGet0 counts c + (if c \<in> set (creditedThisPaper cohort home (parseAuthorships p)) then 1 else 0)"
proof (cases "length (ids (parseAuthorships p)) = 0")
  case True
  then have "creditedThisPaper cohort home (parseAuthorships p) = []"
    by (simp add: creditedThisPaper_def Let_def cohortIdx_FL_def cohortIdx_M_def)
  with True show ?thesis by (simp add: intlTallyPub_def Let_def)
next
  case False
  then show ?thesis
    by (simp add: intlTallyPub_def Let_def mapGet0_fold_mapInc distinct_creditedThisPaper)
qed

text \<open>
  Claim C2. For every publication, roster and home country, the list of countries credited
  to the publication (rules 1 and 2 together) has no repetition and is no longer than the
  number of distinct affiliation countries of the publication that are present and differ
  from the home country.
\<close>

theorem credited_bounded_by_international:
  "distinct (creditedThisPaper cohort home (parseAuthorships p)) \<and>
   length (creditedThisPaper cohort home (parseAuthorships p))
     \<le> card {c \<in> set (countries (parseAuthorships p)). c \<noteq> [] \<and> c \<noteq> home}"
proof -
  let ?a = "parseAuthorships p"
  let ?cr = "creditedThisPaper cohort home ?a"
  have d: "distinct ?cr" by (rule distinct_creditedThisPaper)
  have "set ?cr \<subseteq> {c \<in> set (countries ?a). c \<noteq> [] \<and> c \<noteq> home}"
    using set_creditedThisPaper_subset [of cohort home ?a] intl_countries_parsed [of p home]
    by auto
  then have "card (set ?cr) \<le> card {c \<in> set (countries ?a). c \<noteq> [] \<and> c \<noteq> home}"
    by (intro card_mono) auto
  with d show ?thesis by (simp add: distinct_card)
qed


theorem credited_bounded_witness:
  "creditedThisPaper (cohortIDs ex_roster) ''CAN'' (parseAuthorships ex_pub_rule2) = [''FRA''] \<and>
   {c \<in> set (countries (parseAuthorships ex_pub_rule2)). c \<noteq> [] \<and> c \<noteq> ''CAN''} = {''FRA'', ''DEU''} \<and>
   length (creditedThisPaper (cohortIDs ex_roster) ''CAN'' (parseAuthorships ex_pub_rule2))
     \<le> card {c \<in> set (countries (parseAuthorships ex_pub_rule2)). c \<noteq> [] \<and> c \<noteq> ''CAN''}"
proof -
  have e: "creditedThisPaper (cohortIDs ex_roster) ''CAN'' (parseAuthorships ex_pub_rule2) = [''FRA'']"
    by code_simp
  have c: "countries (parseAuthorships ex_pub_rule2) = [''CAN'', ''FRA'', ''DEU'']"
    by code_simp
  have s: "{c \<in> set (countries (parseAuthorships ex_pub_rule2)). c \<noteq> [] \<and> c \<noteq> ''CAN''} = {''FRA'', ''DEU''}"
    unfolding c by auto
  show ?thesis
    using credited_bounded_by_international [of "cohortIDs ex_roster" "''CAN''" ex_pub_rule2] e s
    by simp
qed

text \<open>
  Claim C1. Take the home country inferred for the selection and any publication. If one of
  its authorships has the (non-empty) author id of a roster member in position "first" or
  "last", and one of its authorships has an affiliation country that is present and differs
  from the home country, then the countries credited for the publication are exactly the
  distinct international countries among its authorships, the credited list has no
  repetition, and the pass over the publication raises the count of each of these countries
  by one and of no other country. In particular, when a roster member is first author in the
  home country, a middle author is affiliated with FRA and FRA is not the home country, FRA
  is credited.
\<close>

theorem rule1_credits_every_international_country:
  "((\<exists>i<length (ids (parseAuthorships p)).
       ids (parseAuthorships p) ! i \<noteq> [] \<and>
       ids (parseAuthorships p) ! i \<in> cohortIDs roster \<and>
       (position (parseAuthorships p) ! i = ''first'' \<or> position (parseAuthorships p) ! i = ''last'')) \<and>
    (\<exists>j<length (ids (parseAuthorships p)).
       countries (parseAuthorships p) ! j \<noteq> [] \<and>
       countries (parseAuthorships p) ! j \<noteq> computeHomeCountry roster pubs)
    \<longrightarrow>
      set (creditedThisPaper (cohortIDs roster) (computeHomeCountry roster pubs) (parseAuthorships p))
        = {c \<in> set (countries (parseAuthorships p)). c \<noteq> [] \<and> c \<noteq> computeHomeCountry roster pubs} \<and>
      distinct (creditedThisPaper (cohortIDs roster) (computeHomeCountry roster pubs) (parseAuthorships p)) \<and>
      (\<forall>counts c.
         mapGet0 (intlTallyPub (cohortIDs roster) (computeHomeCountry roster pubs) counts p) c
           = mapGet0 counts c +
             (if c \<in> set (countries (parseAuthorships p)) \<and> c \<noteq> [] \<and> c \<noteq> computeHomeCountry roster pubs
              then 1 else 0))) \<and>
   ((\<exists>i<length (ids (parseAuthorships p)).
       ids (parseAuthorships p) ! i \<noteq> [] \<and>
       ids (parseAuthorships p) ! i \<in> cohortIDs roster \<and>
       position (parseAuthorships p) ! i = ''first'' \<and>
       countries (parseAuthorships p) ! i = computeHomeCountry roster pubs) \<and>
    (\<exists>j<length (ids (parseAuthorships p)).
       position (parseAuthorships p) ! j = ''middle'' \<and>
       countries (parseAuthorships p) ! j = ''FRA'') \<and>
    computeHomeCountry roster pubs \<noteq> ''FRA''
    \<longrightarrow>
      ''FRA'' \<in> set (creditedThisPaper (cohortIDs roster) (computeHomeCountry roster pubs)
                       (parseAuthorships p)))"
proof -
  let ?a = "parseAuthorships p"
  let ?home = "computeHomeCountry roster pubs"
  let ?cohort = "cohortIDs roster"
  let ?cr = "creditedThisPaper ?cohort ?home ?a"
  have home: "?home \<noteq> []" by (rule computeHomeCountry_nonempty)
  have main: "set ?cr = {c \<in> set (countries ?a). c \<noteq> [] \<and> c \<noteq> ?home}"
    if fl: "\<exists>i<length (ids ?a). ids ?a ! i \<noteq> [] \<and> ids ?a ! i \<in> ?cohort \<and>
              (position ?a ! i = ''first'' \<or> position ?a ! i = ''last'')"
      and intl: "\<exists>j<length (ids ?a). countries ?a ! j \<noteq> [] \<and> countries ?a ! j \<noteq> ?home"
  proof -
    from fl have 1: "cohortIdx_FL ?cohort ?a \<noteq> []"
      using cohortIdx_FL_nonempty [of _ ?a ?cohort] by blast
    from intl home have 2: "intlIdx_any ?home ?a \<noteq> []"
      using intlIdx_any_nonempty [of _ ?a ?home] by blast
    show ?thesis
      using set_creditedThisPaper_rule1 [OF 1 2] intl_countries_parsed [of p ?home] home
      by simp
  qed
  have part1: "set ?cr = {c \<in> set (countries ?a). c \<noteq> [] \<and> c \<noteq> ?home} \<and> distinct ?cr \<and>
      (\<forall>counts c. mapGet0 (intlTallyPub ?cohort ?home counts p) c
           = mapGet0 counts c +
             (if c \<in> set (countries ?a) \<and> c \<noteq> [] \<and> c \<noteq> ?home then 1 else 0))"
    if fl: "\<exists>i<length (ids ?a). ids ?a ! i \<noteq> [] \<and> ids ?a ! i \<in> ?cohort \<and>
              (position ?a ! i = ''first'' \<or> position ?a ! i = ''last'')"
      and intl: "\<exists>j<length (ids ?a). countries ?a ! j \<noteq> [] \<and> countries ?a ! j \<noteq> ?home"
  proof -
    note m = main [OF fl intl]
    have "mapGet0 (intlTallyPub ?cohort ?home counts p) c
           = mapGet0 counts c +
             (if c \<in> set (countries ?a) \<and> c \<noteq> [] \<and> c \<noteq> ?home then 1 else 0)" for counts c
      unfolding intlTallyPub_count m by simp
    with m show ?thesis by (simp add: distinct_creditedThisPaper)
  qed
  have part2: "''FRA'' \<in> set ?cr"
    if fl: "\<exists>i<length (ids ?a). ids ?a ! i \<noteq> [] \<and> ids ?a ! i \<in> ?cohort \<and>
              position ?a ! i = ''first'' \<and> countries ?a ! i = ?home"
      and fr: "\<exists>j<length (ids ?a). position ?a ! j = ''middle'' \<and> countries ?a ! j = ''FRA''"
      and ne: "?home \<noteq> ''FRA''"
  proof -
    from fl have fl': "\<exists>i<length (ids ?a). ids ?a ! i \<noteq> [] \<and> ids ?a ! i \<in> ?cohort \<and>
              (position ?a ! i = ''first'' \<or> position ?a ! i = ''last'')" by blast
    from fr ne obtain j where j: "j < length (ids ?a)" "countries ?a ! j = ''FRA''"
      by blast
    with ne have intl: "\<exists>j<length (ids ?a). countries ?a ! j \<noteq> [] \<and> countries ?a ! j \<noteq> ?home"
      by (intro exI [of _ j]) auto
    have "''FRA'' \<in> set (countries ?a)"
      using j by (metis nth_mem parseAuthorships_lengths(1))
    with main [OF fl' intl] ne show ?thesis by auto
  qed
  from part1 part2 show ?thesis by blast
qed

theorem rule1_witness:
  "ids (parseAuthorships ex_pub_fra) = [''A1'', ''A9''] \<and>
   position (parseAuthorships ex_pub_fra) = [''first'', ''middle''] \<and>
   countries (parseAuthorships ex_pub_fra) = [''CAN'', ''FRA''] \<and>
   ''A1'' \<in> cohortIDs ex_roster \<and>
   computeHomeCountry ex_roster [ex_pub_fra] = ''CAN'' \<and>
   set (creditedThisPaper (cohortIDs ex_roster) ''CAN'' (parseAuthorships ex_pub_fra)) = {''FRA''} \<and>
   mapGet0 (intlTallyPub (cohortIDs ex_roster) ''CAN'' [] ex_pub_fra) ''FRA'' = 1 \<and>
   iso3 (computeIntlLinks [ex_pub_fra] ex_roster ''CAN'') = [''FRA''] \<and>
   series_values (computeIntlLinks [ex_pub_fra] ex_roster ''CAN'') = [1]"
proof -
  have e: "ids (parseAuthorships ex_pub_fra) = [''A1'', ''A9'']"
    "position (parseAuthorships ex_pub_fra) = [''first'', ''middle'']"
    "countries (parseAuthorships ex_pub_fra) = [''CAN'', ''FRA'']"
    "''A1'' \<in> cohortIDs ex_roster"
    "computeHomeCountry ex_roster [ex_pub_fra] = ''CAN''"
    by code_simp+
  have r: "iso3 (computeIntlLinks [ex_pub_fra] ex_roster ''CAN'') = [''FRA'']"
    "series_values (computeIntlLinks [ex_pub_fra] ex_roster ''CAN'') = [1]"
    by code_simp+
  have h1: "\<exists>i<length (ids (parseAuthorships ex_pub_fra)).
       ids (parseAuthorships ex_pub_fra) ! i \<noteq> [] \<and>
       ids (parseAuthorships ex_pub_fra) ! i \<in> cohortIDs ex_roster \<and>
       (position (parseAuthorships ex_pub_fra) ! i = ''first'' \<or>
        position (parseAuthorships ex_pub_fra) ! i = ''last'')"
    by (rule exI [of _ 0]) (simp add: e)
  have h2: "\<exists>j<length (ids (parseAuthorships ex_pub_fra)).
       countries (parseAuthorships ex_pub_fra) ! j \<noteq> [] \<and>
       countries (parseAuthorships ex_pub_fra) ! j \<noteq> computeHomeCountry ex_roster [ex_pub_fra]"
    by (rule exI [of _ 1]) (simp add: e)
  from rule1_credits_every_international_country [of ex_pub_fra ex_roster "[ex_pub_fra]"] h1 h2
  have c: "set (creditedThisPaper (cohortIDs ex_roster) ''CAN'' (parseAuthorships ex_pub_fra))
             = {c \<in> set [''CAN'', ''FRA'']. c \<noteq> [] \<and> c \<noteq> ''CAN''}"
    and t: "mapGet0 (intlTallyPub (cohortIDs ex_roster) ''CAN'' [] ex_pub_fra) ''FRA''
             = mapGet0 [] ''FRA'' + (if ''FRA'' \<in> set [''CAN'', ''FRA''] \<and> ''FRA'' \<noteq> [] \<and> ''FRA'' \<noteq> ''CAN'' then 1 else 0)"
    unfolding e by blast+
  have "{c \<in> set [''CAN'', ''FRA'']. c \<noteq> [] \<and> c \<noteq> ''CAN''} = {''FRA''}" by auto
  with c t e r show ?thesis by (simp add: mapGet0_def)
qed

section \<open>Home country\<close>

lemma fold_cond_map_filter:
  "fold (\<lambda>i t. if P i then f (g i) t else t) xs t = fold f (map g (filter P xs)) t"
  by (induction xs arbitrary: t) auto

lemma fold_fold_concat:
  "fold (\<lambda>p t. fold f (g p) t) ps t = fold f (concat (map g ps)) t"
  by (induction ps arbitrary: t) auto

lemma homeTallyPub_spec:
  "homeTallyPub cohort t p = fold (\<lambda>c t. mapInc t c) (spec_cohortCountriesOfPub cohort p) t"
proof -
  let ?a = "parseAuthorships p"
  have "homeTallyPub cohort t p
        = fold (\<lambda>i t. if ids ?a ! i \<noteq> [] \<and> countries ?a ! i \<noteq> [] \<and> ids ?a ! i \<in> cohort
                       then (\<lambda>c t. mapInc t c) (countries ?a ! i) t else t)
            [0..<length (ids ?a)] t"
    unfolding homeTallyPub_def Let_def
    by (rule arg_cong [where f = "\<lambda>f. fold f _ _"]) (auto simp: fun_eq_iff)
  also have "\<dots> = fold (\<lambda>c t. mapInc t c) (spec_cohortCountriesOfPub cohort p) t"
    unfolding spec_cohortCountriesOfPub_def Let_def
    by (rule fold_cond_map_filter)
  finally show ?thesis .
qed

lemma homeTallies_spec:
  "homeTallies roster pubs = fold (\<lambda>c t. mapInc t c) (spec_cohortCountries roster pubs) []"
  unfolding homeTallies_def spec_cohortCountries_def homeTallyPub_spec
  by (rule fold_fold_concat)

lemma tally_distinct:
  "distinct (map fst t) \<Longrightarrow> distinct (map fst (fold (\<lambda>c t. mapInc t c) cs t))"
  by (induction cs arbitrary: t) (auto simp: mapInc_def distinct_update)

lemma tally_count:
  "mapGet0 (fold (\<lambda>c t. mapInc t c) cs t) k = mapGet0 t k + count_list cs k"
  by (induction cs arbitrary: t) (auto simp: mapGet0_mapInc)

lemma tally_keys:
  "fst ` set (fold (\<lambda>c t. mapInc t c) cs t) = fst ` set t \<union> set cs"
  by (induction cs arbitrary: t) (simp_all add: mapInc_def dom_update Un_ac)

lemma tally_keys_prefix:
  "\<exists>more. map fst (fold (\<lambda>c t. mapInc t c) cs t) = map fst t @ more"
proof (induction cs arbitrary: t)
  case Nil
  then show ?case by simp
next
  case (Cons c cs)
  obtain more where "map fst (fold (\<lambda>c t. mapInc t c) cs (mapInc t c)) = map fst (mapInc t c) @ more"
    using Cons.IH by blast
  then show ?case by (auto simp: mapInc_def update_keys)
qed

lemma tally_keys_before:
  assumes "d \<in> set (takeWhile (\<lambda>x. x \<noteq> h) cs)" and "h \<notin> set (map fst t)"
  shows "d \<in> set (takeWhile (\<lambda>x. x \<noteq> h) (map fst (fold (\<lambda>c t. mapInc t c) cs t)))"
  using assms
proof (induction cs arbitrary: t)
  case Nil
  then show ?case by simp
next
  case (Cons c cs)
  from Cons.prems(1) have ch: "c \<noteq> h" by (auto split: if_splits)
  with Cons.prems(2) have h1: "h \<notin> set (map fst (mapInc t c))"
    by (auto simp: mapInc_def update_keys)
  from Cons.prems(1) ch consider "d = c" | "d \<in> set (takeWhile (\<lambda>x. x \<noteq> h) cs)"
    by auto
  then show ?case
  proof cases
    case 1
    obtain more where m: "map fst (fold (\<lambda>c t. mapInc t c) cs (mapInc t c)) = map fst (mapInc t c) @ more"
      using tally_keys_prefix by blast
    have "d \<in> set (map fst (mapInc t c))"
      using 1 by (auto simp: mapInc_def update_keys)
    moreover have "takeWhile (\<lambda>x. x \<noteq> h) (map fst (mapInc t c) @ more)
        = map fst (mapInc t c) @ takeWhile (\<lambda>x. x \<noteq> h) more"
      using h1 by (intro takeWhile_append2) auto
    ultimately show ?thesis by (simp add: m)
  next
    case 2
    then show ?thesis using Cons.IH [OF 2 h1] by simp
  qed
qed


lemma pick_fold:
  assumes "fold pickStep ts (b, bn) = (b', bn')"
  shows "(\<forall>(k, n) \<in> set ts. int n \<le> bn') \<and> bn \<le> bn' \<and>
         ((b', bn') = (b, bn) \<or>
          (\<exists>pre k n post. ts = pre @ (k, n) # post \<and> b' = Some k \<and> bn' = int n \<and> bn < int n \<and>
               (\<forall>(k', n') \<in> set pre. n' < n)))"
  using assms
proof (induction ts arbitrary: b bn)
  case Nil
  then show ?case by simp
next
  case (Cons x ts)
  obtain k0 n0 where x: "x = (k0, n0)" by (cases x)
  show ?case
  proof (cases "int n0 > bn")
    case True
    with Cons.prems x have f: "fold pickStep ts (Some k0, int n0) = (b', bn')"
      by (simp add: pickStep_def)
    note ih = Cons.IH [OF f]
    from ih have le: "int n0 \<le> bn'" by blast
    from ih consider "(b', bn') = (Some k0, int n0)"
      | pre k n post where "ts = pre @ (k, n) # post" "b' = Some k" "bn' = int n" "int n0 < int n"
          "\<forall>(k', n') \<in> set pre. n' < n"
      by blast
    then have "\<exists>pre k n post. x # ts = pre @ (k, n) # post \<and> b' = Some k \<and> bn' = int n \<and> bn < int n \<and>
               (\<forall>(k', n') \<in> set pre. n' < n)"
    proof cases
      case 1
      then show ?thesis
        using True x by (intro exI [of _ "[]"] exI [of _ k0] exI [of _ n0] exI [of _ ts]) simp
    next
      case 2
      then show ?thesis
        using True x
        by (intro exI [of _ "x # pre"] exI [of _ k] exI [of _ n] exI [of _ post]) auto
    qed
    with ih le True x show ?thesis by auto
  next
    case False
    with Cons.prems x have f: "fold pickStep ts (b, bn) = (b', bn')"
      by (simp add: pickStep_def)
    note ih = Cons.IH [OF f]
    from ih consider "(b', bn') = (b, bn)"
      | pre k n post where "ts = pre @ (k, n) # post" "b' = Some k" "bn' = int n" "bn < int n"
          "\<forall>(k', n') \<in> set pre. n' < n"
      by blast
    then have "(b', bn') = (b, bn) \<or> (\<exists>pre k n post. x # ts = pre @ (k, n) # post \<and> b' = Some k \<and> bn' = int n \<and> bn < int n \<and>
               (\<forall>(k', n') \<in> set pre. n' < n))"
    proof cases
      case 1
      then show ?thesis by simp
    next
      case 2
      then show ?thesis
        using False x
        by (intro disjI2 exI [of _ "x # pre"] exI [of _ k] exI [of _ n] exI [of _ post]) auto
    qed
    with ih False x show ?thesis by auto
  qed
qed


lemma spec_cohortCountries_nonempty_elems:
  "c \<in> set (spec_cohortCountries roster pubs) \<Longrightarrow> c \<noteq> []"
  by (auto simp: spec_cohortCountries_def spec_cohortCountriesOfPub_def Let_def)

lemma homeTallies_facts:
  shows "distinct (map fst (homeTallies roster pubs))"
    and "fst ` set (homeTallies roster pubs) = set (spec_cohortCountries roster pubs)"
    and "(k, m) \<in> set (homeTallies roster pubs) \<Longrightarrow> m = count_list (spec_cohortCountries roster pubs) k"
proof -
  let ?cs = "spec_cohortCountries roster pubs"
  let ?ts = "homeTallies roster pubs"
  have ts: "?ts = fold (\<lambda>c t. mapInc t c) ?cs []"
    by (rule homeTallies_spec)
  show d: "distinct (map fst ?ts)"
    unfolding ts by (rule tally_distinct) simp
  show "fst ` set ?ts = set ?cs"
    unfolding ts by (simp add: tally_keys)
  assume "(k, m) \<in> set ?ts"
  with d have "map_of ?ts k = Some m" by (rule map_of_is_SomeI)
  then have "mapGet0 ?ts k = m" by (simp add: mapGet0_def)
  moreover have "mapGet0 ?ts k = count_list ?cs k"
    unfolding ts tally_count by (simp add: mapGet0_def)
  ultimately show "m = count_list ?cs k" by simp
qed

lemma computeHomeCountry_first_max:
  fixes roster pubs
  defines "cs \<equiv> spec_cohortCountries roster pubs"
  defines "h \<equiv> computeHomeCountry roster pubs"
  assumes ne: "cs \<noteq> []"
  shows "h \<in> set cs"
    and "count_list cs d \<le> count_list cs h"
    and "d \<in> set (takeWhile (\<lambda>x. x \<noteq> h) cs) \<Longrightarrow> count_list cs d < count_list cs h"
proof -
  define ts where "ts = homeTallies roster pubs"
  note facts = homeTallies_facts [where roster = roster and pubs = pubs, folded ts_def cs_def]
  have tsne: "ts \<noteq> []" using facts(2) ne by auto
  obtain b bn where pb: "fold pickStep ts (None, - 1) = (b, bn)"
    by (cases "fold pickStep ts (None, - 1)")
  note pf = pick_fold [OF pb]
  have "(b, bn) \<noteq> (None, - 1)"
  proof
    assume "(b, bn) = (None, - 1)"
    then have "bn = - 1" by simp
    moreover obtain k0 n0 where "(k0, n0) \<in> set ts" using tsne by (cases ts) auto
    ultimately show False using pf by auto
  qed
  with pf obtain pre k n post where dec: "ts = pre @ (k, n) # post" and b: "b = Some k"
    and bn: "bn = int n" and pre: "\<forall>(k', n') \<in> set pre. n' < n"
    by blast
  from pf bn have mx: "\<And>k' n'. (k', n') \<in> set ts \<Longrightarrow> n' \<le> n" by auto
  have kin: "k \<in> set cs" using facts(2) dec by force
  then have "k \<noteq> []" unfolding cs_def by (rule spec_cohortCountries_nonempty_elems)
  with tsne pb b have hk: "h = k"
    by (simp add: h_def computeHomeCountry_def Let_def pickBest_def ts_def [symmetric])
  have n: "n = count_list cs k" using facts(3) [of k n] dec by simp
  show "h \<in> set cs" using kin hk by simp
  show "count_list cs d \<le> count_list cs h"
  proof (cases "d \<in> set cs")
    case True
    then obtain m where m: "(d, m) \<in> set ts" using facts(2) by force
    then have "m = count_list cs d" by (rule facts(3))
    with mx [OF m] n hk show ?thesis by simp
  next
    case False
    then show ?thesis by (simp add: count_list_0_iff)
  qed
  assume "d \<in> set (takeWhile (\<lambda>x. x \<noteq> h) cs)"
  then have "d \<in> set (takeWhile (\<lambda>x. x \<noteq> h) (map fst (fold (\<lambda>c t. mapInc t c) cs [])))"
    by (rule tally_keys_before) simp
  then have 1: "d \<in> set (takeWhile (\<lambda>x. x \<noteq> h) (map fst ts))"
    unfolding ts_def cs_def homeTallies_spec .
  have "k \<notin> set (map fst pre)" using facts(1) dec by auto
  then have "takeWhile (\<lambda>x. x \<noteq> k) (map fst pre @ k # map fst post) = map fst pre"
    by (subst takeWhile_append2) auto
  then have "takeWhile (\<lambda>x. x \<noteq> h) (map fst ts) = map fst pre"
    unfolding dec hk by simp
  with 1 obtain m where m: "(d, m) \<in> set pre" by auto
  then have "m < n" using pre by auto
  moreover have "m = count_list cs d" using facts(3) [of d m] m dec by simp
  ultimately show "count_list cs d < count_list cs h" using n hk by simp
qed

lemma computeHomeCountry_fallback:
  assumes "spec_cohortCountries roster pubs = []"
  shows "computeHomeCountry roster pubs = ''CAN''"
proof -
  have "fst ` set (homeTallies roster pubs) = {}"
    using homeTallies_facts(2) [where roster = roster and pubs = pubs] assms by simp
  then have "homeTallies roster pubs = []" by simp
  then show ?thesis by (simp add: computeHomeCountry_def)
qed

text \<open>
  Claim C3. Let \<open>cs\<close> be the affiliation countries of the authorships of roster members
  over the selected publications, in order. If \<open>cs\<close> is empty the home country is the
  fallback "CAN". Otherwise the home country is a country of \<open>cs\<close>, no country occurs in
  \<open>cs\<close> more often, and every country that occurs in \<open>cs\<close> before the home country's
  first occurrence occurs strictly less often (a tie goes to the country seen first). In
  particular, when \<open>cs\<close> holds "USA" three times, "GBR" once and nothing else, the home
  country is "USA".
\<close>

theorem home_country_is_first_most_frequent:
  "(spec_cohortCountries roster pubs = [] \<longrightarrow> computeHomeCountry roster pubs = ''CAN'') \<and>
   (spec_cohortCountries roster pubs \<noteq> [] \<longrightarrow>
      computeHomeCountry roster pubs \<in> set (spec_cohortCountries roster pubs) \<and>
      (\<forall>d. count_list (spec_cohortCountries roster pubs) d
              \<le> count_list (spec_cohortCountries roster pubs) (computeHomeCountry roster pubs)) \<and>
      (\<forall>d \<in> set (takeWhile (\<lambda>x. x \<noteq> computeHomeCountry roster pubs)
                      (spec_cohortCountries roster pubs)).
          count_list (spec_cohortCountries roster pubs) d
            < count_list (spec_cohortCountries roster pubs) (computeHomeCountry roster pubs))) \<and>
   (count_list (spec_cohortCountries roster pubs) ''USA'' = 3 \<and>
    count_list (spec_cohortCountries roster pubs) ''GBR'' = 1 \<and>
    set (spec_cohortCountries roster pubs) \<subseteq> {''USA'', ''GBR''}
      \<longrightarrow> computeHomeCountry roster pubs = ''USA'')"
proof (intro conjI impI)
  assume "spec_cohortCountries roster pubs = []"
  then show "computeHomeCountry roster pubs = ''CAN''" by (rule computeHomeCountry_fallback)
next
  assume ne: "spec_cohortCountries roster pubs \<noteq> []"
  show "computeHomeCountry roster pubs \<in> set (spec_cohortCountries roster pubs)"
    by (rule computeHomeCountry_first_max(1) [OF ne])
  show "\<forall>d. count_list (spec_cohortCountries roster pubs) d
              \<le> count_list (spec_cohortCountries roster pubs) (computeHomeCountry roster pubs)"
    using computeHomeCountry_first_max(2) [OF ne] by blast
  show "\<forall>d \<in> set (takeWhile (\<lambda>x. x \<noteq> computeHomeCountry roster pubs)
                      (spec_cohortCountries roster pubs)).
          count_list (spec_cohortCountries roster pubs) d
            < count_list (spec_cohortCountries roster pubs) (computeHomeCountry roster pubs)"
    using computeHomeCountry_first_max(3) [OF ne] by blast
next
  let ?cs = "spec_cohortCountries roster pubs"
  let ?h = "computeHomeCountry roster pubs"
  assume a: "count_list ?cs ''USA'' = 3 \<and> count_list ?cs ''GBR'' = 1 \<and> set ?cs \<subseteq> {''USA'', ''GBR''}"
  then have ne: "?cs \<noteq> []" by auto
  from computeHomeCountry_first_max(1) [OF ne] a have "?h = ''USA'' \<or> ?h = ''GBR''" by auto
  moreover have "count_list ?cs ''USA'' \<le> count_list ?cs ?h"
    by (rule computeHomeCountry_first_max(2) [OF ne])
  ultimately show "?h = ''USA''" using a by auto
qed

theorem home_country_witness:
  "spec_cohortCountries ex_roster2 ex_pubs_usa = [''USA'', ''GBR'', ''USA'', ''USA''] \<and>
   computeHomeCountry ex_roster2 ex_pubs_usa = ''USA'' \<and>
   spec_cohortCountries ex_roster2 ex_pubs_tie = [''GBR'', ''USA''] \<and>
   computeHomeCountry ex_roster2 ex_pubs_tie = ''GBR'' \<and>
   spec_cohortCountries ex_roster2 [] = [] \<and>
   computeHomeCountry ex_roster2 [] = ''CAN''"
proof -
  have e: "spec_cohortCountries ex_roster2 ex_pubs_usa = [''USA'', ''GBR'', ''USA'', ''USA'']"
    by code_simp
  have t: "spec_cohortCountries ex_roster2 ex_pubs_tie = [''GBR'', ''USA'']"
    "computeHomeCountry ex_roster2 ex_pubs_tie = ''GBR''"
    by code_simp+
  have n: "spec_cohortCountries ex_roster2 [] = []"
    by code_simp
  have "computeHomeCountry ex_roster2 ex_pubs_usa = ''USA''"
    using home_country_is_first_most_frequent [of ex_roster2 ex_pubs_usa] unfolding e by simp
  moreover have "computeHomeCountry ex_roster2 [] = ''CAN''"
    using home_country_is_first_most_frequent [of ex_roster2 "[]"] n by simp
  ultimately show ?thesis using e t n by simp
qed

section \<open>Jaccard distance and classical MDS\<close>

lemma jaccard_inter: "fcard (ffilter (\<lambda>x. x |\<in>| B) A) = fcard (A |\<inter>| B)"
proof -
  have "ffilter (\<lambda>x. x |\<in>| B) A = A |\<inter>| B" by auto
  then show ?thesis by simp
qed

lemma jaccard_inter_le: "fcard (A |\<inter>| B) \<le> fcard A" "fcard (A |\<inter>| B) \<le> fcard B"
  by (simp_all add: fcard_mono)

lemma jaccardDistance_alt:
  "jaccardDistance A B =
     (if A = {||} \<and> B = {||} then 0
      else 1 - real (fcard (A |\<inter>| B)) / real (fcard A + fcard B - fcard (A |\<inter>| B)))"
proof (cases "A = {||} \<and> B = {||}")
  case True
  then show ?thesis by (simp add: jaccardDistance_def)
next
  case False
  then have "fcard A \<noteq> 0 \<or> fcard B \<noteq> 0" by (auto simp: fcard_0_eq)
  moreover from this have "fcard A + fcard B - fcard (A |\<inter>| B) \<noteq> 0"
    using jaccard_inter_le [of A B] by linarith
  ultimately show ?thesis using False
    by (auto simp: jaccardDistance_def Let_def jaccard_inter)
qed

lemma frac_le_1: "(i::nat) \<le> u \<Longrightarrow> real i / real u \<le> 1"
  by (cases "u = 0") (simp_all add: divide_le_eq_1)

text \<open>
  Claim C6. The Jaccard distance of two finite sets is symmetric, lies between 0 and 1, and
  is 0 for a set and itself, the empty set included.
\<close>

theorem jaccardDistance_symmetric_bounded_zero:
  "jaccardDistance A B = jaccardDistance B A \<and>
   0 \<le> jaccardDistance A B \<and> jaccardDistance A B \<le> 1 \<and>
   jaccardDistance A A = 0 \<and>
   jaccardDistance {||} ({||} :: 'a fset) = 0"
proof -
  have sym: "jaccardDistance A B = jaccardDistance B A"
    by (simp add: jaccardDistance_alt inf_commute add.commute conj_commute)
  have le: "real (fcard (A |\<inter>| B)) \<le> real (fcard A + fcard B - fcard (A |\<inter>| B))"
    using jaccard_inter_le [of A B] by linarith
  have nonneg: "0 \<le> jaccardDistance A B"
  proof (cases "A = {||} \<and> B = {||}")
    case True
    then show ?thesis by (simp add: jaccardDistance_alt)
  next
    case False
    have "real (fcard (A |\<inter>| B)) / real (fcard A + fcard B - fcard (A |\<inter>| B)) \<le> 1"
      using jaccard_inter_le [of A B] by (intro frac_le_1) linarith
    with False show ?thesis by (simp only: jaccardDistance_alt if_False) simp
  qed
  have le1: "jaccardDistance A B \<le> 1"
    by (simp add: jaccardDistance_alt)
  have self: "jaccardDistance A A = 0"
    by (auto simp: jaccardDistance_alt fcard_0_eq)
  have empty: "jaccardDistance {||} ({||} :: 'a fset) = 0"
    by (simp add: jaccardDistance_alt)
  from sym nonneg le1 self empty show ?thesis by blast
qed

theorem jaccardDistance_witness:
  "jaccardDistance {|''ecology'', ''genetics''|} {|''genetics'', ''botany''|} = 2 / 3 \<and>
   jaccardDistance {|''genetics'', ''botany''|} {|''ecology'', ''genetics''|} = 2 / 3 \<and>
   jaccardDistance {|''ecology''|} {|''ecology''|} = 0 \<and>
   jaccardDistance {||} ({||} :: string fset) = 0 \<and>
   jaccardDistance {|''ecology''|} {|''botany''|} = 1"
proof -
  have a: "jaccardDistance {|''ecology'', ''genetics''|} {|''genetics'', ''botany''|} = 2 / 3"
    by code_simp
  have b: "jaccardDistance {|''ecology''|} {|''botany''|} = 1"
    by code_simp
  from jaccardDistance_symmetric_bounded_zero [of "{|''ecology'', ''genetics''|}" "{|''genetics'', ''botany''|}"]
  have s: "jaccardDistance {|''ecology'', ''genetics''|} {|''genetics'', ''botany''|}
           = jaccardDistance {|''genetics'', ''botany''|} {|''ecology'', ''genetics''|}"
    and z: "jaccardDistance {||} ({||} :: string fset) = 0"
    by blast+
  from jaccardDistance_symmetric_bounded_zero [of "{|''ecology''|}" "{|''ecology''|}"]
  have d: "jaccardDistance {|''ecology''|} {|''ecology''|} = 0"
    by blast
  have c: "jaccardDistance {|''genetics'', ''botany''|} {|''ecology'', ''genetics''|} = 2 / 3"
    by (rule trans [OF s [symmetric] a])
  from a c d z b show ?thesis by blast
qed


lemma fold_add_zero:
  "(\<And>k. k \<in> set ks \<Longrightarrow> f k = (0::real)) \<Longrightarrow> fold (\<lambda>k s. s + f k) ks s0 = s0"
  by (induction ks arbitrary: s0) simp_all

lemma sumLoop_zero: "(\<And>k. k < N \<Longrightarrow> f k = 0) \<Longrightarrow> sumLoop N f = 0"
  unfolding sumLoop_def by (rule fold_add_zero) simp

lemma matrixFrom_cong:
  "(\<And>i j. i < N \<Longrightarrow> j < N \<Longrightarrow> f i j = g i j) \<Longrightarrow> matrixFrom N f = matrixFrom N g"
  by (simp add: matrixFrom_def)

lemma matrixFrom_zero: "matrixFrom N (\<lambda>i j. 0) = replicate N (replicate N 0)"
  by (simp add: matrixFrom_def map_replicate_const)

lemma map_upt_const: "(\<And>i. i < n \<Longrightarrow> f i = c) \<Longrightarrow> map f [0..<n] = replicate n c"
  by (rule nth_equalityI) simp_all

lemma matrixFrom_zero_entries:
  "(\<And>i j. i < N \<Longrightarrow> j < N \<Longrightarrow> f i j = 0) \<Longrightarrow> matrixFrom N f = replicate N (replicate N 0)"
  unfolding matrixFrom_def by (intro map_upt_const) simp

lemma doubleCenter_zero:
  "doubleCenter (replicate N (replicate N 0)) = replicate N (replicate N 0)"
proof -
  let ?Z = "replicate N (replicate N (0::real))"
  have dsq: "matrixFrom N (\<lambda>i j. ?Z ! i ! j * ?Z ! i ! j) = ?Z"
    by (rule matrixFrom_zero_entries) simp
  have m: "matrixFrom N (\<lambda>i j. sumLoop N (\<lambda>k. ?Z ! i ! k * centering N k j)) = ?Z"
    by (rule matrixFrom_zero_entries) (simp add: sumLoop_zero)
  have b: "matrixFrom N (\<lambda>i j. - 0.5 * sumLoop N (\<lambda>k. centering N i k * ?Z ! k ! j)) = ?Z"
    by (rule matrixFrom_zero_entries) (simp add: sumLoop_zero)
  show ?thesis
    by (simp only: doubleCenter_def Let_def length_replicate dsq m b)
qed

lemma vecNorm_zero: "vecNorm (replicate n 0) = 1"
proof -
  have "fold (\<lambda>b a. a + b * b) (replicate n (0::real)) 0 = 0"
    by (induction n) simp_all
  then show ?thesis by (simp add: vecNorm_def)
qed

lemma powerStep_zero:
  assumes "length (eig_vector e) = n"
  shows "powerStep (replicate n (replicate n 0)) e = \<lparr> eig_value = 0, eig_vector = replicate n 0 \<rparr>"
proof -
  let ?Z = "replicate n (replicate n (0::real))"
  let ?v = "eig_vector e"
  have av: "map (\<lambda>i. sumLoop n (\<lambda>j. ?Z ! i ! j * ?v ! j)) [0..<n] = replicate n 0"
    by (rule map_upt_const) (simp add: sumLoop_zero)
  have lam: "fold (\<lambda>i s. s + ?v ! i * replicate n 0 ! i) [0..<length ?v] 0 = 0"
    by (rule fold_add_zero) (simp add: assms)
  show ?thesis
    unfolding powerStep_def Let_def length_replicate av lam vecNorm_zero by simp
qed

lemma powerStep_funpow_zero:
  assumes "length (eig_vector e) = n" and "0 < iters"
  shows "(powerStep (replicate n (replicate n 0)) ^^ iters) e
         = \<lparr> eig_value = 0, eig_vector = replicate n 0 \<rparr>"
proof -
  let ?Z = "replicate n (replicate n (0::real))"
  let ?z = "\<lparr> eig_value = 0, eig_vector = replicate n (0::real) \<rparr>"
  have stay: "(powerStep ?Z ^^ k) ?z = ?z" for k
    by (induction k) (simp_all add: powerStep_zero)
  from assms(2) obtain k where k: "iters = Suc k" by (cases iters) auto
  have "(powerStep ?Z ^^ Suc k) e = (powerStep ?Z ^^ k) (powerStep ?Z e)"
    by (simp only: funpow_Suc_right o_apply)
  also have "\<dots> = ?z" by (simp only: powerStep_zero [OF assms(1)] stay)
  finally show ?thesis by (simp only: k)
qed

lemma powerIter_zero:
  "0 < iters \<Longrightarrow>
   powerIter (replicate n (replicate n 0)) iters rnd = \<lparr> eig_value = 0, eig_vector = replicate n 0 \<rparr>"
  unfolding powerIter_def Let_def
  by (rule powerStep_funpow_zero) simp_all

text \<open>
  Claim C7. For every \<open>N \<ge> 2\<close> and every sequence of random numbers, classical MDS of the
  \<open>N \<times> N\<close> matrix of zeros returns the coordinates \<open>x\<close> and \<open>y\<close> all zero and both
  eigenvalues zero.
\<close>

theorem classicalMDS2D_zero_matrix:
  "2 \<le> N \<Longrightarrow>
   classicalMDS2D (replicate N (replicate N 0)) random
     = Some \<lparr> mds_x = replicate N 0, mds_y = replicate N 0, eigenvalues = [0, 0] \<rparr>"
proof -
  assume N: "2 \<le> N"
  let ?Z = "replicate N (replicate N (0::real))"
  let ?z = "\<lparr> eig_value = 0, eig_vector = replicate N (0::real) \<rparr>"
  have e: "powerIter ?Z 150 rnd = ?z" for rnd
    by (rule powerIter_zero) simp
  have b2: "matrixFrom N (\<lambda>i j. ?Z ! i ! j - eig_value ?z * eig_vector ?z ! i * eig_vector ?z ! j) = ?Z"
    by (rule matrixFrom_zero_entries) simp
  have sq: "(\<exists>row \<in> set ?Z. length row < N) = False" by simp
  have n2: "(N < 2) = False" using N by simp
  have fin: "map (\<lambda>v. sqrt (max (eig_value ?z) 0) * v) (eig_vector ?z) = replicate N 0"
    "max (eig_value ?z) 0 = 0"
    by simp_all
  show ?thesis
    unfolding classicalMDS2D_def Let_def doubleCenter_zero length_replicate n2 sq if_False e b2
    by simp
qed

theorem classicalMDS2D_zero_witness:
  "classicalMDS2D [[0, 0, 0], [0, 0, 0], [0, 0, 0]] (\<lambda>i. 1 / (2 + real i))
     = Some \<lparr> mds_x = [0, 0, 0], mds_y = [0, 0, 0], eigenvalues = [0, 0] \<rparr>"
proof -
  have h: "(2::nat) \<le> 3" by simp
  show ?thesis
    using classicalMDS2D_zero_matrix [OF h, of "\<lambda>i. 1 / (2 + real i)"]
    by (simp add: numeral_3_eq_3)
qed

section \<open>Partner institutions\<close>

lemma distinct_setAdd: "distinct s \<Longrightarrow> distinct (setAdd s x)"
  by (simp add: setAdd_def)

lemma set_setAdd: "set (setAdd s x) = insert x (set s)"
  by (auto simp: setAdd_def)

lemma distinct_creditCoauthors:
  "distinct s \<Longrightarrow> distinct (creditCoauthors homeROR a i s)"
proof -
  have "distinct s \<Longrightarrow> distinct (fold (\<lambda>j s.
              if j = i then s
              else if rorAt a j = [] then s
              else if rorAt a i \<noteq> [] \<and> rorAt a j = rorAt a i then s
              else if homeROR \<noteq> [] \<and> rorAt a j = homeROR then s
              else setAdd s (rorAt a j)) js s)" for js
    by (induction js arbitrary: s) (simp_all add: distinct_setAdd)
  then show "distinct s \<Longrightarrow> distinct (creditCoauthors homeROR a i s)"
    by (simp add: creditCoauthors_def Let_def)
qed

lemma set_creditCoauthors:
  "set (creditCoauthors homeROR a i s) = set s \<union> spec_partnersOfAuthor homeROR a i"
proof -
  have "set (fold (\<lambda>j s.
              if j = i then s
              else if rorAt a j = [] then s
              else if rorAt a i \<noteq> [] \<and> rorAt a j = rorAt a i then s
              else if homeROR \<noteq> [] \<and> rorAt a j = homeROR then s
              else setAdd s (rorAt a j)) js s)
        = set s \<union> {rorAt a j | j. j \<in> set js \<and> j \<noteq> i \<and> rorAt a j \<noteq> [] \<and>
                     \<not> (rorAt a i \<noteq> [] \<and> rorAt a j = rorAt a i) \<and>
                     \<not> (homeROR \<noteq> [] \<and> rorAt a j = homeROR)}" for js
    by (induction js arbitrary: s) (auto simp: set_setAdd)
  from this [of "[0..<length (ids a)]"] show ?thesis
    by (simp add: creditCoauthors_def Let_def spec_partnersOfAuthor_def)
qed

lemma distinct_creditedThisCohort: "distinct (creditedThisCohort cohort homeROR a)"
proof -
  have "distinct s \<Longrightarrow> distinct (fold (\<lambda>i s. if ids a ! i \<notin> cohort then s
          else creditCoauthors homeROR a i s) js s)" for js s
    by (induction js arbitrary: s) (simp_all add: distinct_creditCoauthors)
  then show ?thesis by (simp add: creditedThisCohort_def)
qed

lemma set_creditedThisCohort:
  "set (creditedThisCohort cohort homeROR a)
   = (\<Union>i \<in> {i. i < length (ids a) \<and> ids a ! i \<in> cohort}. spec_partnersOfAuthor homeROR a i)"
proof -
  have "set (fold (\<lambda>i s. if ids a ! i \<notin> cohort then s
          else creditCoauthors homeROR a i s) js s)
        = set s \<union> (\<Union>i \<in> {i. i \<in> set js \<and> ids a ! i \<in> cohort}. spec_partnersOfAuthor homeROR a i)"
    for js s
    by (induction js arbitrary: s) (auto simp: set_creditCoauthors)
  from this [of "[0..<length (ids a)]" "[]"] show ?thesis
    by (simp add: creditedThisCohort_def)
qed

lemma creditsOf_creditPartner:
  "creditsOf (creditPartner a ror t) k = (if k = ror then creditsOf t ror + 1 else creditsOf t k)"
  by (simp add: creditsOf_def creditPartner_def Let_def update_conv' split: option.splits)

lemma creditsOf_fold_creditPartner:
  "distinct rs \<Longrightarrow>
   creditsOf (fold (creditPartner a) rs t) k = creditsOf t k + (if k \<in> set rs then 1 else 0)"
  by (induction rs arbitrary: t) (auto simp: creditsOf_creditPartner)

lemma creditsOf_partnerTallyPub:
  "creditsOf (fst (partnerTallyPub cohort homeROR st p)) k
   = creditsOf (fst st) k
     + (if k \<in> set (creditedThisCohort cohort homeROR (parseAuthorships p)) then 1 else 0)"
proof (cases "length (ids (parseAuthorships p)) = 0")
  case True
  then have "creditedThisCohort cohort homeROR (parseAuthorships p) = []"
    by (simp add: creditedThisCohort_def)
  with True show ?thesis by (simp add: partnerTallyPub_def Let_def)
next
  case False
  then show ?thesis
    by (simp add: partnerTallyPub_def Let_def creditsOf_fold_creditPartner
        distinct_creditedThisCohort)
qed

text \<open>
  Claim C8. One pass of the partner loop over a publication raises the credit count of an
  institution by one when it is among the partners of some roster author on that
  publication, and leaves it unchanged otherwise, however many roster authors reach it: the
  credited set of the publication is the union of the roster authors' partner sets.
\<close>

theorem partner_credited_at_most_once_per_paper:
  "creditsOf (fst (partnerTallyPub cohort homeROR st p)) ror \<le> creditsOf (fst st) ror + 1 \<and>
   creditsOf (fst (partnerTallyPub cohort homeROR st p)) ror
     = creditsOf (fst st) ror
       + (if ror \<in> (\<Union>i \<in> {i. i < length (ids (parseAuthorships p)) \<and>
                                  ids (parseAuthorships p) ! i \<in> cohort}.
                       spec_partnersOfAuthor homeROR (parseAuthorships p) i)
          then 1 else 0)"
  by (simp add: creditsOf_partnerTallyPub set_creditedThisCohort)

lemma ex_partners_parsed:
  "parseAuthorships ex_pub_partners
   = \<lparr> countries = [''CAN'', ''CAN'', ''FRA''], ids = [''A1'', ''A2'', ''X5''],
       names = [[], [], []], isCorresponding = [False, False, False], position = [[], [], []],
       instRor = [''r1'', ''r2'', ''r9''], instName = [''Univ One'', ''Univ Two'', ''Univ Nine''],
       instCountry3 = [''CAN'', ''CAN'', ''FRA''] \<rparr>"
  by code_simp

lemma ex_roster2_ids: "cohortIDs ex_roster2 = {''A1'', ''A2''}"
  by code_simp

lemma ex_partners_home: "inferHomeROR {''A1'', ''A2''} [ex_pub_partners] = ''r1''"
  by (simp add: inferHomeROR_def homeRorTallyPub_def rorAt_def ex_partners_parsed Let_def mapInc_def
      mapGet0_def trim_def isSpace_def)

lemma ex_partners_coauthors:
  "creditCoauthors ''r1'' (parseAuthorships ex_pub_partners) 0 [] = [''r2'', ''r9'']"
  "creditCoauthors ''r1'' (parseAuthorships ex_pub_partners) (Suc 0) [''r2'', ''r9''] = [''r2'', ''r9'']"
  by (simp_all add: creditCoauthors_def rorAt_def ex_partners_parsed Let_def setAdd_def trim_def isSpace_def)

lemma ex_partners_credited: "creditedThisCohort {''A1'', ''A2''} ''r1'' (parseAuthorships ex_pub_partners) = [''r2'', ''r9'']"
  by (simp add: creditedThisCohort_def ex_partners_parsed ex_partners_coauthors [unfolded ex_partners_parsed])



theorem partner_credited_once_witness:
  "''r9'' \<in> spec_partnersOfAuthor ''r1'' (parseAuthorships ex_pub_partners) 0 \<and>
   ''r9'' \<in> spec_partnersOfAuthor ''r1'' (parseAuthorships ex_pub_partners) 1 \<and>
   ids (parseAuthorships ex_pub_partners) ! 0 \<in> cohortIDs ex_roster2 \<and>
   ids (parseAuthorships ex_pub_partners) ! 1 \<in> cohortIDs ex_roster2 \<and>
   creditedThisCohort (cohortIDs ex_roster2) ''r1'' (parseAuthorships ex_pub_partners) = [''r2'', ''r9''] \<and>
   creditsOf (fst (partnerTallyPub (cohortIDs ex_roster2) ''r1'' ([], 0) ex_pub_partners)) ''r9'' = 1"
proof -
  let ?a = "parseAuthorships ex_pub_partners"
  have r: "rorAt ?a 0 = ''r1''" "rorAt ?a 1 = ''r2''" "rorAt ?a 2 = ''r9''"
    by (simp_all add: rorAt_def ex_partners_parsed trim_def isSpace_def)
  have n: "length (ids ?a) = 3"
    by (simp add: ex_partners_parsed)
  have m: "ids ?a ! 0 \<in> cohortIDs ex_roster2" "ids ?a ! 1 \<in> cohortIDs ex_roster2"
    by (simp_all add: ex_partners_parsed ex_roster2_ids)
  have c: "creditedThisCohort (cohortIDs ex_roster2) ''r1'' ?a = [''r2'', ''r9'']"
    by (simp only: ex_roster2_ids ex_partners_credited)
  have p0: "''r9'' \<in> spec_partnersOfAuthor ''r1'' ?a 0"
    unfolding spec_partnersOfAuthor_def using r n
    by (auto intro!: exI [of _ 2])
  have p1: "''r9'' \<in> spec_partnersOfAuthor ''r1'' ?a 1"
    unfolding spec_partnersOfAuthor_def using r n
    by (auto intro!: exI [of _ 2])
  have u: "''r9'' \<in> (\<Union>i \<in> {i. i < length (ids ?a) \<and> ids ?a ! i \<in> cohortIDs ex_roster2}.
                       spec_partnersOfAuthor ''r1'' ?a i)"
    using p0 m(1) n by (intro UN_I [of 0]) auto
  have "creditsOf (fst (partnerTallyPub (cohortIDs ex_roster2) ''r1'' ([], 0) ex_pub_partners)) ''r9'' = 1"
    using partner_credited_at_most_once_per_paper
            [of "cohortIDs ex_roster2" "''r1''" "([], 0)" ex_pub_partners "''r9''"] u
    by (simp add: creditsOf_def)
  with p0 p1 m c show ?thesis by blast
qed

lemma sortByCreditsDesc_sorted:
  "sorted_wrt (\<lambda>r s. row_n s \<le> row_n r) (sortByCreditsDesc rows)"
proof -
  have "sorted (map (\<lambda>r. - int (row_n r)) (sortByCreditsDesc rows))"
    unfolding sortByCreditsDesc_def by (rule sorted_sort_key)
  then show ?thesis by (simp add: sorted_map)
qed

lemma partnerRows_not_home:
  "r \<in> set (partnerRows homeROR tally) \<Longrightarrow> homeROR = [] \<or> row_ror r \<noteq> homeROR"
  by (auto simp: partnerRows_def)

text \<open>
  Claim C10. The ranking handed on for output has at most 12 rows: it is the first 12 rows
  (all of them when there are fewer) of the partner institutions other than the home
  institution, ordered by falling credit count.
\<close>

theorem partner_ranking_at_most_12:
  "topRORPartners roster pubs = Some rows \<Longrightarrow>
     length rows \<le> 12 \<and>
     length rows
       = min 12 (length (partnerRows (inferHomeROR (cohortIDs roster) pubs)
                   (fst (partnerTally (cohortIDs roster) (inferHomeROR (cohortIDs roster) pubs) pubs)))) \<and>
     rows = take 12 (sortByCreditsDesc
                   (partnerRows (inferHomeROR (cohortIDs roster) pubs)
                   (fst (partnerTally (cohortIDs roster) (inferHomeROR (cohortIDs roster) pubs) pubs)))) \<and>
     sorted_wrt (\<lambda>r s. row_n s \<le> row_n r) rows \<and>
     (\<forall>r \<in> set rows. inferHomeROR (cohortIDs roster) pubs = [] \<or>
                       row_ror r \<noteq> inferHomeROR (cohortIDs roster) pubs)"
proof -
  let ?home = "inferHomeROR (cohortIDs roster) pubs"
  let ?cands = "partnerRows ?home (fst (partnerTally (cohortIDs roster) ?home pubs))"
  assume "topRORPartners roster pubs = Some rows"
  then have rows: "rows = take 12 (sortByCreditsDesc ?cands)"
    by (simp add: topRORPartners_def Let_def split: if_splits)
  have len: "length rows = min 12 (length ?cands)"
    unfolding rows by (simp add: sortByCreditsDesc_def min.commute)
  have srt: "sorted_wrt (\<lambda>r s. row_n s \<le> row_n r) rows"
    unfolding rows by (intro sorted_wrt_take sortByCreditsDesc_sorted)
  have "set rows \<subseteq> set ?cands"
    unfolding rows using set_take_subset [of 12 "sortByCreditsDesc ?cands"]
    by (simp add: sortByCreditsDesc_def)
  then have nh: "\<forall>r \<in> set rows. ?home = [] \<or> row_ror r \<noteq> ?home"
    using partnerRows_not_home by blast
  from rows len srt nh show ?thesis by simp
qed

text \<open>
  A run with more candidates than rows. The roster member \<open>A1\<close>, whose institution is
  \<open>r0\<close> on both publications, has co-authors of thirteen other institutions on the first
  publication and meets two of them, \<open>s3\<close> and \<open>s4\<close>, again on the second. All thirteen
  are candidates; the two with two credits come first, the others keep their order, and the
  thirteenth row, \<open>s2\<close>, is cut.
\<close>

lemma update_fresh: "map_of t k = None \<Longrightarrow> AList.update k v t = t @ [(k, v)]"
  by (induction t) (auto split: if_splits)

lemma findIndex_less: "findIndex P xs = Some k \<Longrightarrow> k < length xs"
  by (induction xs arbitrary: k) (auto split: if_splits)

lemma creditPartner_unnamed:
  assumes "instName a = replicate (length (instRor a)) []"
      and "instCountry3 a = replicate (length (instRor a)) []"
  shows "creditPartner a ror tally
         = (case map_of tally ror of
              None \<Rightarrow> tally @ [(ror, \<lparr> rec_name = ror, rec_country = [], rec_n = 1 \<rparr>)]
            | Some r \<Rightarrow> AList.update ror (r \<lparr> rec_n := rec_n r + 1 \<rparr>) tally)"
proof -
  have n: "(case findIndex (\<lambda>x. x = ror) (instRor a) of Some k \<Rightarrow> instName a ! k | None \<Rightarrow> []) = []"
    using assms(1) findIndex_less [of "\<lambda>x. x = ror" "instRor a"]
    by (auto split: option.splits)
  have c: "(case findIndex (\<lambda>x. x = ror) (instRor a) of Some k \<Rightarrow> instCountry3 a ! k | None \<Rightarrow> []) = []"
    using assms(2) findIndex_less [of "\<lambda>x. x = ror" "instRor a"]
    by (auto split: option.splits)
  show ?thesis
    unfolding creditPartner_def Let_def n c
    by (simp add: update_fresh split: option.splits)
qed

lemma ex_13_parsed:
  "ids (parseAuthorships ex_pub_13_partners)
   = [''A1'', ''X1'', ''X2'', ''X3'', ''X4'', ''X5'', ''X6'', ''X7'', ''X8'', ''X9'',
      ''Y1'', ''Y2'', ''Y3'', ''Y4'']"
  "instRor (parseAuthorships ex_pub_13_partners)
   = [''r0'', ''r1'', ''r2'', ''r3'', ''r4'', ''r5'', ''r6'', ''r7'', ''r8'', ''r9'',
      ''s1'', ''s2'', ''s3'', ''s4'']"
  "instName (parseAuthorships ex_pub_13_partners) = replicate 14 []"
  "instCountry3 (parseAuthorships ex_pub_13_partners) = replicate 14 []"
  by code_simp+

lemma ex_2_parsed:
  "ids (parseAuthorships ex_pub_2_partners) = [''A1'', ''Y3'', ''Y4'']"
  "instRor (parseAuthorships ex_pub_2_partners) = [''r0'', ''s3'', ''s4'']"
  "instName (parseAuthorships ex_pub_2_partners) = replicate 3 []"
  "instCountry3 (parseAuthorships ex_pub_2_partners) = replicate 3 []"
  by code_simp+

lemma ex_roster_ids: "cohortIDs ex_roster = {''A1''}"
  by code_simp

lemma upt_14: "[0..<14] = [0, Suc 0, 2, 3, 4, 5, 6, 7, 8, 9, 10, 11, 12, 13]"
  by code_simp

lemma upt_3: "[0..<3] = [0, Suc 0, 2]"
  by code_simp

lemma ex_13_rorAt:
  "rorAt (parseAuthorships ex_pub_13_partners) 0 = ''r0''"
  "rorAt (parseAuthorships ex_pub_13_partners) (Suc 0) = ''r1''"
  "rorAt (parseAuthorships ex_pub_13_partners) 2 = ''r2''"
  "rorAt (parseAuthorships ex_pub_13_partners) 3 = ''r3''"
  "rorAt (parseAuthorships ex_pub_13_partners) 4 = ''r4''"
  "rorAt (parseAuthorships ex_pub_13_partners) 5 = ''r5''"
  "rorAt (parseAuthorships ex_pub_13_partners) 6 = ''r6''"
  "rorAt (parseAuthorships ex_pub_13_partners) 7 = ''r7''"
  "rorAt (parseAuthorships ex_pub_13_partners) 8 = ''r8''"
  "rorAt (parseAuthorships ex_pub_13_partners) 9 = ''r9''"
  "rorAt (parseAuthorships ex_pub_13_partners) 10 = ''s1''"
  "rorAt (parseAuthorships ex_pub_13_partners) 11 = ''s2''"
  "rorAt (parseAuthorships ex_pub_13_partners) 12 = ''s3''"
  "rorAt (parseAuthorships ex_pub_13_partners) 13 = ''s4''"
  by (simp_all add: rorAt_def ex_13_parsed trim_def isSpace_def)

lemma ex_2_rorAt:
  "rorAt (parseAuthorships ex_pub_2_partners) 0 = ''r0''"
  "rorAt (parseAuthorships ex_pub_2_partners) (Suc 0) = ''s3''"
  "rorAt (parseAuthorships ex_pub_2_partners) 2 = ''s4''"
  by (simp_all add: rorAt_def ex_2_parsed trim_def isSpace_def)

lemma ex_13_nonempty: "ids (parseAuthorships ex_pub_13_partners) \<noteq> []"
  by (simp add: ex_13_parsed)

lemma ex_2_nonempty: "ids (parseAuthorships ex_pub_2_partners) \<noteq> []"
  by (simp add: ex_2_parsed)

lemma ex_13_length: "length (ids (parseAuthorships ex_pub_13_partners)) = 14"
  by (simp add: ex_13_parsed)

lemma ex_2_length: "length (ids (parseAuthorships ex_pub_2_partners)) = 3"
  by (simp add: ex_2_parsed)

lemma ex_13_idAt:
  "ids (parseAuthorships ex_pub_13_partners) ! 0 = ''A1''"
  "ids (parseAuthorships ex_pub_13_partners) ! (Suc 0) = ''X1''"
  "ids (parseAuthorships ex_pub_13_partners) ! 2 = ''X2''"
  "ids (parseAuthorships ex_pub_13_partners) ! 3 = ''X3''"
  "ids (parseAuthorships ex_pub_13_partners) ! 4 = ''X4''"
  "ids (parseAuthorships ex_pub_13_partners) ! 5 = ''X5''"
  "ids (parseAuthorships ex_pub_13_partners) ! 6 = ''X6''"
  "ids (parseAuthorships ex_pub_13_partners) ! 7 = ''X7''"
  "ids (parseAuthorships ex_pub_13_partners) ! 8 = ''X8''"
  "ids (parseAuthorships ex_pub_13_partners) ! 9 = ''X9''"
  "ids (parseAuthorships ex_pub_13_partners) ! 10 = ''Y1''"
  "ids (parseAuthorships ex_pub_13_partners) ! 11 = ''Y2''"
  "ids (parseAuthorships ex_pub_13_partners) ! 12 = ''Y3''"
  "ids (parseAuthorships ex_pub_13_partners) ! 13 = ''Y4''"
  by (simp_all add: ex_13_parsed)

lemma ex_2_idAt:
  "ids (parseAuthorships ex_pub_2_partners) ! 0 = ''A1''"
  "ids (parseAuthorships ex_pub_2_partners) ! (Suc 0) = ''Y3''"
  "ids (parseAuthorships ex_pub_2_partners) ! 2 = ''Y4''"
  by (simp_all add: ex_2_parsed)

lemma ex_13_homeTally:
  "homeRorTallyPub {''A1''} [] ex_pub_13_partners = [(''r0'', 1)]"
  by (simp add: homeRorTallyPub_def Let_def ex_13_length upt_14 ex_13_rorAt ex_13_idAt
      mapInc_def mapGet0_def)

lemma ex_2_homeTally:
  "homeRorTallyPub {''A1''} [(''r0'', Suc 0)] ex_pub_2_partners = [(''r0'', 2)]"
  by (simp add: homeRorTallyPub_def Let_def ex_2_length upt_3 ex_2_rorAt ex_2_idAt
      mapInc_def mapGet0_def)

lemma ex_13_home: "inferHomeROR {''A1''} [ex_pub_13_partners, ex_pub_2_partners] = ''r0''"
  by (simp add: inferHomeROR_def ex_13_homeTally [simplified] ex_2_homeTally)

lemma setAdd_Nil: "setAdd [] x = [x]"
  by (simp add: setAdd_def)

lemma setAdd_Cons: "setAdd (y # s) x = (if x = y then y # s else y # setAdd s x)"
  by (simp add: setAdd_def)

lemma ex_13_coauthors:
  "creditCoauthors ''r0'' (parseAuthorships ex_pub_13_partners) 0 []
   = [''r1'', ''r2'', ''r3'', ''r4'', ''r5'', ''r6'', ''r7'', ''r8'', ''r9'',
      ''s1'', ''s2'', ''s3'', ''s4'']"
  by (simp add: creditCoauthors_def ex_13_length upt_14 ex_13_rorAt Let_def setAdd_Nil setAdd_Cons)

lemma ex_2_coauthors:
  "creditCoauthors ''r0'' (parseAuthorships ex_pub_2_partners) 0 [] = [''s3'', ''s4'']"
  by (simp add: creditCoauthors_def ex_2_length upt_3 ex_2_rorAt Let_def setAdd_Nil setAdd_Cons)

lemma ex_13_credited:
  "creditedThisCohort {''A1''} ''r0'' (parseAuthorships ex_pub_13_partners)
   = [''r1'', ''r2'', ''r3'', ''r4'', ''r5'', ''r6'', ''r7'', ''r8'', ''r9'',
      ''s1'', ''s2'', ''s3'', ''s4'']"
  by (simp add: creditedThisCohort_def ex_13_length upt_14 ex_13_idAt ex_13_coauthors)

lemma ex_2_credited:
  "creditedThisCohort {''A1''} ''r0'' (parseAuthorships ex_pub_2_partners) = [''s3'', ''s4'']"
  by (simp add: creditedThisCohort_def ex_2_length upt_3 ex_2_idAt ex_2_coauthors)

lemma ex_13_creditPartner:
  "creditPartner (parseAuthorships ex_pub_13_partners) ror tally
   = (case map_of tally ror of
        None \<Rightarrow> tally @ [(ror, \<lparr> rec_name = ror, rec_country = [], rec_n = 1 \<rparr>)]
      | Some r \<Rightarrow> AList.update ror (r \<lparr> rec_n := rec_n r + 1 \<rparr>) tally)"
  by (rule creditPartner_unnamed) (simp_all add: ex_13_parsed eval_nat_numeral)

lemma ex_2_creditPartner:
  "creditPartner (parseAuthorships ex_pub_2_partners) ror tally
   = (case map_of tally ror of
        None \<Rightarrow> tally @ [(ror, \<lparr> rec_name = ror, rec_country = [], rec_n = 1 \<rparr>)]
      | Some r \<Rightarrow> AList.update ror (r \<lparr> rec_n := rec_n r + 1 \<rparr>) tally)"
  by (rule creditPartner_unnamed) (simp_all add: ex_2_parsed eval_nat_numeral)

lemma ex_13_tally_1:
  "partnerTallyPub {''A1''} ''r0'' ([], 0) ex_pub_13_partners
   = ([(''r1'', \<lparr> rec_name = ''r1'', rec_country = [], rec_n = 1 \<rparr>),
       (''r2'', \<lparr> rec_name = ''r2'', rec_country = [], rec_n = 1 \<rparr>),
       (''r3'', \<lparr> rec_name = ''r3'', rec_country = [], rec_n = 1 \<rparr>),
       (''r4'', \<lparr> rec_name = ''r4'', rec_country = [], rec_n = 1 \<rparr>),
       (''r5'', \<lparr> rec_name = ''r5'', rec_country = [], rec_n = 1 \<rparr>),
       (''r6'', \<lparr> rec_name = ''r6'', rec_country = [], rec_n = 1 \<rparr>),
       (''r7'', \<lparr> rec_name = ''r7'', rec_country = [], rec_n = 1 \<rparr>),
       (''r8'', \<lparr> rec_name = ''r8'', rec_country = [], rec_n = 1 \<rparr>),
       (''r9'', \<lparr> rec_name = ''r9'', rec_country = [], rec_n = 1 \<rparr>),
       (''s1'', \<lparr> rec_name = ''s1'', rec_country = [], rec_n = 1 \<rparr>),
       (''s2'', \<lparr> rec_name = ''s2'', rec_country = [], rec_n = 1 \<rparr>),
       (''s3'', \<lparr> rec_name = ''s3'', rec_country = [], rec_n = 1 \<rparr>),
       (''s4'', \<lparr> rec_name = ''s4'', rec_country = [], rec_n = 1 \<rparr>)], 1)"
  by (simp add: partnerTallyPub_def Let_def ex_13_nonempty ex_13_credited ex_13_creditPartner)

lemma ex_2_tally_step:
  "partnerTallyPub {''A1''} ''r0''
      ([(''r1'', \<lparr> rec_name = ''r1'', rec_country = [], rec_n = 1 \<rparr>),
       (''r2'', \<lparr> rec_name = ''r2'', rec_country = [], rec_n = 1 \<rparr>),
       (''r3'', \<lparr> rec_name = ''r3'', rec_country = [], rec_n = 1 \<rparr>),
       (''r4'', \<lparr> rec_name = ''r4'', rec_country = [], rec_n = 1 \<rparr>),
       (''r5'', \<lparr> rec_name = ''r5'', rec_country = [], rec_n = 1 \<rparr>),
       (''r6'', \<lparr> rec_name = ''r6'', rec_country = [], rec_n = 1 \<rparr>),
       (''r7'', \<lparr> rec_name = ''r7'', rec_country = [], rec_n = 1 \<rparr>),
       (''r8'', \<lparr> rec_name = ''r8'', rec_country = [], rec_n = 1 \<rparr>),
       (''r9'', \<lparr> rec_name = ''r9'', rec_country = [], rec_n = 1 \<rparr>),
       (''s1'', \<lparr> rec_name = ''s1'', rec_country = [], rec_n = 1 \<rparr>),
       (''s2'', \<lparr> rec_name = ''s2'', rec_country = [], rec_n = 1 \<rparr>),
       (''s3'', \<lparr> rec_name = ''s3'', rec_country = [], rec_n = 1 \<rparr>),
       (''s4'', \<lparr> rec_name = ''s4'', rec_country = [], rec_n = 1 \<rparr>)], Suc 0) ex_pub_2_partners
   = ([(''r1'', \<lparr> rec_name = ''r1'', rec_country = [], rec_n = 1 \<rparr>),
       (''r2'', \<lparr> rec_name = ''r2'', rec_country = [], rec_n = 1 \<rparr>),
       (''r3'', \<lparr> rec_name = ''r3'', rec_country = [], rec_n = 1 \<rparr>),
       (''r4'', \<lparr> rec_name = ''r4'', rec_country = [], rec_n = 1 \<rparr>),
       (''r5'', \<lparr> rec_name = ''r5'', rec_country = [], rec_n = 1 \<rparr>),
       (''r6'', \<lparr> rec_name = ''r6'', rec_country = [], rec_n = 1 \<rparr>),
       (''r7'', \<lparr> rec_name = ''r7'', rec_country = [], rec_n = 1 \<rparr>),
       (''r8'', \<lparr> rec_name = ''r8'', rec_country = [], rec_n = 1 \<rparr>),
       (''r9'', \<lparr> rec_name = ''r9'', rec_country = [], rec_n = 1 \<rparr>),
       (''s1'', \<lparr> rec_name = ''s1'', rec_country = [], rec_n = 1 \<rparr>),
       (''s2'', \<lparr> rec_name = ''s2'', rec_country = [], rec_n = 1 \<rparr>),
       (''s3'', \<lparr> rec_name = ''s3'', rec_country = [], rec_n = 2 \<rparr>),
       (''s4'', \<lparr> rec_name = ''s4'', rec_country = [], rec_n = 2 \<rparr>)], 2)"
  by (simp add: partnerTallyPub_def Let_def ex_2_nonempty ex_2_credited ex_2_creditPartner)

lemma ex_13_tally:
  "partnerTally {''A1''} ''r0'' [ex_pub_13_partners, ex_pub_2_partners]
   = ([(''r1'', \<lparr> rec_name = ''r1'', rec_country = [], rec_n = 1 \<rparr>),
       (''r2'', \<lparr> rec_name = ''r2'', rec_country = [], rec_n = 1 \<rparr>),
       (''r3'', \<lparr> rec_name = ''r3'', rec_country = [], rec_n = 1 \<rparr>),
       (''r4'', \<lparr> rec_name = ''r4'', rec_country = [], rec_n = 1 \<rparr>),
       (''r5'', \<lparr> rec_name = ''r5'', rec_country = [], rec_n = 1 \<rparr>),
       (''r6'', \<lparr> rec_name = ''r6'', rec_country = [], rec_n = 1 \<rparr>),
       (''r7'', \<lparr> rec_name = ''r7'', rec_country = [], rec_n = 1 \<rparr>),
       (''r8'', \<lparr> rec_name = ''r8'', rec_country = [], rec_n = 1 \<rparr>),
       (''r9'', \<lparr> rec_name = ''r9'', rec_country = [], rec_n = 1 \<rparr>),
       (''s1'', \<lparr> rec_name = ''s1'', rec_country = [], rec_n = 1 \<rparr>),
       (''s2'', \<lparr> rec_name = ''s2'', rec_country = [], rec_n = 1 \<rparr>),
       (''s3'', \<lparr> rec_name = ''s3'', rec_country = [], rec_n = 2 \<rparr>),
       (''s4'', \<lparr> rec_name = ''s4'', rec_country = [], rec_n = 2 \<rparr>)], 2)"
  by (simp add: partnerTally_def ex_13_tally_1 [simplified] ex_2_tally_step [simplified])

lemma ex_13_candidates:
  "partnerRows ''r0'' (fst (partnerTally {''A1''} ''r0'' [ex_pub_13_partners, ex_pub_2_partners]))
   = [\<lparr> row_ror = ''r1'', row_name = ''r1'', row_country = [], row_n = 1 \<rparr>,
       \<lparr> row_ror = ''r2'', row_name = ''r2'', row_country = [], row_n = 1 \<rparr>,
       \<lparr> row_ror = ''r3'', row_name = ''r3'', row_country = [], row_n = 1 \<rparr>,
       \<lparr> row_ror = ''r4'', row_name = ''r4'', row_country = [], row_n = 1 \<rparr>,
       \<lparr> row_ror = ''r5'', row_name = ''r5'', row_country = [], row_n = 1 \<rparr>,
       \<lparr> row_ror = ''r6'', row_name = ''r6'', row_country = [], row_n = 1 \<rparr>,
       \<lparr> row_ror = ''r7'', row_name = ''r7'', row_country = [], row_n = 1 \<rparr>,
       \<lparr> row_ror = ''r8'', row_name = ''r8'', row_country = [], row_n = 1 \<rparr>,
       \<lparr> row_ror = ''r9'', row_name = ''r9'', row_country = [], row_n = 1 \<rparr>,
       \<lparr> row_ror = ''s1'', row_name = ''s1'', row_country = [], row_n = 1 \<rparr>,
       \<lparr> row_ror = ''s2'', row_name = ''s2'', row_country = [], row_n = 1 \<rparr>,
       \<lparr> row_ror = ''s3'', row_name = ''s3'', row_country = [], row_n = 2 \<rparr>,
       \<lparr> row_ror = ''s4'', row_name = ''s4'', row_country = [], row_n = 2 \<rparr>]"
  by (simp add: ex_13_tally partnerRows_def)

lemma ex_13_sorted:
  "sortByCreditsDesc
     [\<lparr> row_ror = ''r1'', row_name = ''r1'', row_country = [], row_n = 1 \<rparr>,
       \<lparr> row_ror = ''r2'', row_name = ''r2'', row_country = [], row_n = 1 \<rparr>,
       \<lparr> row_ror = ''r3'', row_name = ''r3'', row_country = [], row_n = 1 \<rparr>,
       \<lparr> row_ror = ''r4'', row_name = ''r4'', row_country = [], row_n = 1 \<rparr>,
       \<lparr> row_ror = ''r5'', row_name = ''r5'', row_country = [], row_n = 1 \<rparr>,
       \<lparr> row_ror = ''r6'', row_name = ''r6'', row_country = [], row_n = 1 \<rparr>,
       \<lparr> row_ror = ''r7'', row_name = ''r7'', row_country = [], row_n = 1 \<rparr>,
       \<lparr> row_ror = ''r8'', row_name = ''r8'', row_country = [], row_n = 1 \<rparr>,
       \<lparr> row_ror = ''r9'', row_name = ''r9'', row_country = [], row_n = 1 \<rparr>,
       \<lparr> row_ror = ''s1'', row_name = ''s1'', row_country = [], row_n = 1 \<rparr>,
       \<lparr> row_ror = ''s2'', row_name = ''s2'', row_country = [], row_n = 1 \<rparr>,
       \<lparr> row_ror = ''s3'', row_name = ''s3'', row_country = [], row_n = 2 \<rparr>,
       \<lparr> row_ror = ''s4'', row_name = ''s4'', row_country = [], row_n = 2 \<rparr>]
   = [\<lparr> row_ror = ''s3'', row_name = ''s3'', row_country = [], row_n = 2 \<rparr>,
       \<lparr> row_ror = ''s4'', row_name = ''s4'', row_country = [], row_n = 2 \<rparr>,
       \<lparr> row_ror = ''r1'', row_name = ''r1'', row_country = [], row_n = 1 \<rparr>,
       \<lparr> row_ror = ''r2'', row_name = ''r2'', row_country = [], row_n = 1 \<rparr>,
       \<lparr> row_ror = ''r3'', row_name = ''r3'', row_country = [], row_n = 1 \<rparr>,
       \<lparr> row_ror = ''r4'', row_name = ''r4'', row_country = [], row_n = 1 \<rparr>,
       \<lparr> row_ror = ''r5'', row_name = ''r5'', row_country = [], row_n = 1 \<rparr>,
       \<lparr> row_ror = ''r6'', row_name = ''r6'', row_country = [], row_n = 1 \<rparr>,
       \<lparr> row_ror = ''r7'', row_name = ''r7'', row_country = [], row_n = 1 \<rparr>,
       \<lparr> row_ror = ''r8'', row_name = ''r8'', row_country = [], row_n = 1 \<rparr>,
       \<lparr> row_ror = ''r9'', row_name = ''r9'', row_country = [], row_n = 1 \<rparr>,
       \<lparr> row_ror = ''s1'', row_name = ''s1'', row_country = [], row_n = 1 \<rparr>,
       \<lparr> row_ror = ''s2'', row_name = ''s2'', row_country = [], row_n = 1 \<rparr>]"
  by (simp add: sortByCreditsDesc_def)

theorem partner_ranking_witness:
  "topRORPartners ex_roster [ex_pub_13_partners, ex_pub_2_partners]
     = Some [\<lparr> row_ror = ''s3'', row_name = ''s3'', row_country = [], row_n = 2 \<rparr>,
       \<lparr> row_ror = ''s4'', row_name = ''s4'', row_country = [], row_n = 2 \<rparr>,
       \<lparr> row_ror = ''r1'', row_name = ''r1'', row_country = [], row_n = 1 \<rparr>,
       \<lparr> row_ror = ''r2'', row_name = ''r2'', row_country = [], row_n = 1 \<rparr>,
       \<lparr> row_ror = ''r3'', row_name = ''r3'', row_country = [], row_n = 1 \<rparr>,
       \<lparr> row_ror = ''r4'', row_name = ''r4'', row_country = [], row_n = 1 \<rparr>,
       \<lparr> row_ror = ''r5'', row_name = ''r5'', row_country = [], row_n = 1 \<rparr>,
       \<lparr> row_ror = ''r6'', row_name = ''r6'', row_country = [], row_n = 1 \<rparr>,
       \<lparr> row_ror = ''r7'', row_name = ''r7'', row_country = [], row_n = 1 \<rparr>,
       \<lparr> row_ror = ''r8'', row_name = ''r8'', row_country = [], row_n = 1 \<rparr>,
       \<lparr> row_ror = ''r9'', row_name = ''r9'', row_country = [], row_n = 1 \<rparr>,
       \<lparr> row_ror = ''s1'', row_name = ''s1'', row_country = [], row_n = 1 \<rparr>] \<and>
   inferHomeROR (cohortIDs ex_roster) [ex_pub_13_partners, ex_pub_2_partners] = ''r0'' \<and>
   length (partnerRows ''r0''
             (fst (partnerTally (cohortIDs ex_roster) ''r0'' [ex_pub_13_partners, ex_pub_2_partners])))
     = 13 \<and>
   length (the (topRORPartners ex_roster [ex_pub_13_partners, ex_pub_2_partners])) = 12 \<and>
   ''s2'' \<notin> row_ror ` set (the (topRORPartners ex_roster [ex_pub_13_partners, ex_pub_2_partners]))"
proof -
  let ?pubs = "[ex_pub_13_partners, ex_pub_2_partners]"
  let ?rows = "[\<lparr> row_ror = ''s3'', row_name = ''s3'', row_country = [], row_n = 2 \<rparr>,
       \<lparr> row_ror = ''s4'', row_name = ''s4'', row_country = [], row_n = 2 \<rparr>,
       \<lparr> row_ror = ''r1'', row_name = ''r1'', row_country = [], row_n = 1 \<rparr>,
       \<lparr> row_ror = ''r2'', row_name = ''r2'', row_country = [], row_n = 1 \<rparr>,
       \<lparr> row_ror = ''r3'', row_name = ''r3'', row_country = [], row_n = 1 \<rparr>,
       \<lparr> row_ror = ''r4'', row_name = ''r4'', row_country = [], row_n = 1 \<rparr>,
       \<lparr> row_ror = ''r5'', row_name = ''r5'', row_country = [], row_n = 1 \<rparr>,
       \<lparr> row_ror = ''r6'', row_name = ''r6'', row_country = [], row_n = 1 \<rparr>,
       \<lparr> row_ror = ''r7'', row_name = ''r7'', row_country = [], row_n = 1 \<rparr>,
       \<lparr> row_ror = ''r8'', row_name = ''r8'', row_country = [], row_n = 1 \<rparr>,
       \<lparr> row_ror = ''r9'', row_name = ''r9'', row_country = [], row_n = 1 \<rparr>,
       \<lparr> row_ror = ''s1'', row_name = ''s1'', row_country = [], row_n = 1 \<rparr>]"
  have h: "inferHomeROR (cohortIDs ex_roster) ?pubs = ''r0''"
    by (simp only: ex_roster_ids ex_13_home)
  have c: "length (partnerRows ''r0'' (fst (partnerTally (cohortIDs ex_roster) ''r0'' ?pubs))) = 13"
    by (simp only: ex_roster_ids ex_13_candidates) simp
  have e: "topRORPartners ex_roster ?pubs = Some ?rows"
    by (simp add: topRORPartners_def ex_roster_ids ex_13_home ex_13_candidates [simplified]
        ex_13_sorted [simplified] Let_def)
  from partner_ranking_at_most_12 [OF e] have "length ?rows = min 12 (length (partnerRows (inferHomeROR (cohortIDs ex_roster) ?pubs)
                   (fst (partnerTally (cohortIDs ex_roster) (inferHomeROR (cohortIDs ex_roster) ?pubs) ?pubs))))"
    by blast
  then have "length ?rows = 12"
    unfolding h c by simp
  with e h c show ?thesis by simp
qed

section \<open>Co-authorship graph\<close>

lemma nameOf_keys: "fst ` set (nameOf roster) = rosterIDs roster"
proof -
  have "fst ` set (fold (\<lambda>r m. AList.update (idNorm (cell r ''OpenAlexID''))
                    (orElse (cell r ''Name'') (cell r ''OpenAlexID'')) m) roster m)
        = fst ` set m \<union> set (map (\<lambda>r. idNorm (cell r ''OpenAlexID'')) roster)" for m
    by (induction roster arbitrary: m) (auto simp: dom_update)
  then show ?thesis by (simp add: nameOf_def rosterIDs_def)
qed

lemma set_update_subset: "set (AList.update k v al) \<subseteq> insert (k, v) (set al)"
  by (induction al) auto

lemma idsIn_update: "idsIn R bw \<Longrightarrow> set s \<subseteq> R \<Longrightarrow> idsIn R (AList.update k s bw)"
  unfolding idsIn_def using set_update_subset [of k s bw] by fastforce

lemma idsIn_lookup: "idsIn R bw \<Longrightarrow> map_of bw k = Some s \<Longrightarrow> x \<in> set s \<Longrightarrow> x \<in> R"
  unfolding idsIn_def by (auto dest: map_of_SomeD)

lemma idsIn_Nil: "idsIn R []"
  by (simp add: idsIn_def)

lemma idsIn_lookup_or_empty:
  "idsIn R bw \<Longrightarrow> set (case map_of bw k of None \<Rightarrow> [] | Some s \<Rightarrow> s) \<subseteq> R"
  by (cases "map_of bw k") (auto dest: idsIn_lookup)

lemma idsIn_byWorkAdd: "idsIn R bw \<Longrightarrow> aid \<in> R \<Longrightarrow> idsIn R (byWorkAdd bw wid aid)"
  unfolding byWorkAdd_def
  using idsIn_lookup_or_empty [of R bw wid]
  by (intro idsIn_update) (auto simp: setAdd_def)

lemma idsIn_byWorkPreferred:
  "idsIn (rosterIDs roster) (byWorkPreferred authorshipData roster pubs)"
proof -
  have "idsIn (rosterIDs roster) bw \<Longrightarrow>
        idsIn (rosterIDs roster)
          (fold (\<lambda>r byWork.
             if widOf r \<notin> selectedWorkIDs pubs then byWork
             else if idNorm (cell r ''author_openalex_id'') \<notin> fst ` set (nameOf roster)
             then byWork
             else byWorkAdd byWork (widOf r) (idNorm (cell r ''author_openalex_id'')))
          rows bw)" for rows bw
    by (induction rows arbitrary: bw) (auto simp: nameOf_keys intro: idsIn_byWorkAdd)
  from this [OF idsIn_Nil] show ?thesis by (simp add: byWorkPreferred_def)
qed

lemma foldE_invariant:
  assumes "foldE f xs s0 = Inr s" and "I s0"
    and "\<And>x t t'. I t \<Longrightarrow> f x t = Inr t' \<Longrightarrow> I t'"
  shows "I s"
  using assms(1,2)
proof (induction xs arbitrary: s0)
  case Nil
  then show ?case by simp
next
  case (Cons x xs)
  then obtain t where t: "f x s0 = Inr t" "foldE f xs t = Inr s"
    by (auto split: sum.splits)
  from assms(3) [OF Cons.prems(2) t(1)] have "I t" .
  with Cons.IH t(2) show ?case by blast
qed

lemma idsIn_rosterByCanon:
  assumes "rosterByCanon roster = Inr m"
  shows "idsIn (rosterIDs roster) m"
proof -
  let ?R = "rosterIDs roster"
  have step: "idsIn ?R t'" if t: "idsIn ?R t" and r: "r \<in> set roster" and
     eq: "(case canonName (cell r ''Name'') of
                     Inl e \<Rightarrow> Inl e
                   | Inr cname \<Rightarrow>
                       Inr (AList.update cname
                              ((case map_of t cname of None \<Rightarrow> [] | Some l \<Rightarrow> l)
                               @ [idNorm (cell r ''OpenAlexID'')]) t)) = Inr t'" for t t' r
  proof -
    from eq obtain cn where t': "t' = AList.update cn
                              ((case map_of t cn of None \<Rightarrow> [] | Some l \<Rightarrow> l)
                               @ [idNorm (cell r ''OpenAlexID'')]) t"
      by (auto split: sum.splits)
    have "idNorm (cell r ''OpenAlexID'') \<in> ?R" using r by (auto simp: rosterIDs_def)
    with idsIn_lookup_or_empty [OF t, of cn]
    have "set ((case map_of t cn of None \<Rightarrow> [] | Some l \<Rightarrow> l) @ [idNorm (cell r ''OpenAlexID'')]) \<subseteq> ?R"
      by simp
    with t show ?thesis unfolding t' by (rule idsIn_update)
  qed
  have "foldE (\<lambda>r m. case canonName (cell r ''Name'') of
                     Inl e \<Rightarrow> Inl e
                   | Inr cname \<Rightarrow>
                       Inr (AList.update cname
                              ((case map_of m cname of None \<Rightarrow> [] | Some l \<Rightarrow> l)
                               @ [idNorm (cell r ''OpenAlexID'')]) m)) rs t = Inr t'
        \<Longrightarrow> set rs \<subseteq> set roster \<Longrightarrow> idsIn ?R t \<Longrightarrow> idsIn ?R t'" for rs t t'
  proof (induction rs arbitrary: t)
    case Nil
    then show ?case by simp
  next
    case (Cons r rs)
    from Cons.prems(1) obtain u where u: "(case canonName (cell r ''Name'') of
                     Inl e \<Rightarrow> Inl e
                   | Inr cname \<Rightarrow>
                       Inr (AList.update cname
                              ((case map_of t cname of None \<Rightarrow> [] | Some l \<Rightarrow> l)
                               @ [idNorm (cell r ''OpenAlexID'')]) t)) = Inr u"
      and rest: "foldE (\<lambda>r m. case canonName (cell r ''Name'') of
                     Inl e \<Rightarrow> Inl e
                   | Inr cname \<Rightarrow>
                       Inr (AList.update cname
                              ((case map_of m cname of None \<Rightarrow> [] | Some l \<Rightarrow> l)
                               @ [idNorm (cell r ''OpenAlexID'')]) m)) rs u = Inr t'"
      by (auto split: sum.splits)
    have "idsIn ?R u" using step [OF Cons.prems(3) _ u] Cons.prems(2) by simp
    with Cons.IH [OF rest] Cons.prems(2) show ?case by simp
  qed
  from this [of roster "[]" m] assms idsIn_Nil show ?thesis
    by (simp add: rosterByCanon_def)
qed

lemma set_fold_setAdd: "set (fold (\<lambda>h s. setAdd s h) hs s) = set s \<union> set hs"
  by (induction hs arbitrary: s) (auto simp: setAdd_def)

lemma idsOnWork_subset:
  assumes "idsOnWork byCanon p = Inr s" and "idsIn R byCanon"
  shows "set s \<subseteq> R"
proof -
  have "set s \<subseteq> R"
  proof (rule foldE_invariant [where I = "\<lambda>s. set s \<subseteq> R", OF assms(1) [unfolded idsOnWork_def]])
    show "set [] \<subseteq> R" by simp
  next
    fix x t t'
    assume "set t \<subseteq> R"
      and "(case canonName x of Inl e \<Rightarrow> Inl e
            | Inr cn \<Rightarrow> (case map_of byCanon cn of None \<Rightarrow> Inr t
                          | Some hits \<Rightarrow> Inr (fold (\<lambda>h s. setAdd s h) hits t))) = Inr t'"
    then show "set t' \<subseteq> R"
      using assms(2)
      by (auto simp: set_fold_setAdd split: sum.splits option.splits
          dest: idsIn_lookup [of R byCanon])
  qed
  then show ?thesis .
qed

lemma idsIn_byWorkFallback:
  assumes "byWorkFallback roster pubs = Inr bw"
  shows "idsIn (rosterIDs roster) bw"
proof -
  from assms obtain byCanon where bc: "rosterByCanon roster = Inr byCanon"
    and f: "foldE (\<lambda>p byWork.
                   if widOf p = [] then Inr byWork
                   else (case idsOnWork byCanon p of
                           Inl e \<Rightarrow> Inl e
                         | Inr s \<Rightarrow> Inr (if length s \<ge> 2 then AList.update (widOf p) s byWork
                                          else byWork)))
            pubs [] = Inr bw"
    by (auto simp: byWorkFallback_def split: sum.splits)
  note inv = idsIn_rosterByCanon [OF bc]
  show ?thesis
  proof (rule foldE_invariant [where I = "idsIn (rosterIDs roster)", OF f])
    show "idsIn (rosterIDs roster) []" by (rule idsIn_Nil)
  next
    fix x t t'
    assume "idsIn (rosterIDs roster) t"
      and "(if widOf x = [] then Inr t
            else (case idsOnWork byCanon x of Inl e \<Rightarrow> Inl e
                  | Inr s \<Rightarrow> Inr (if length s \<ge> 2 then AList.update (widOf x) s t else t))) = Inr t'"
    then show "idsIn (rosterIDs roster) t'"
      using inv
      by (auto split: if_splits sum.splits intro!: idsIn_update dest: idsOnWork_subset)
  qed
qed


lemma pairsOf_members: "(a, b) \<in> set (pairsOf xs) \<Longrightarrow> a \<in> set xs \<and> b \<in> set xs"
  by (auto simp: pairsOf_def)

lemma addPair_keys: "fst ` set (pairCounts (addPair pub key pm)) = insert key (fst ` set (pairCounts pm))"
  by (simp add: addPair_def mapInc_def dom_update)

lemma keysOver_pairs:
  assumes "keysOver R (fst ` set (pairCounts pm))" and "\<forall>(a, b) \<in> set ps. a \<in> R \<and> b \<in> R"
  shows "keysOver R (fst ` set (pairCounts (fold (\<lambda>ab pm. addPair pub (pairKey ab) pm) ps pm)))"
  using assms
proof (induction ps arbitrary: pm)
  case Nil
  then show ?case by simp
next
  case (Cons p ps)
  obtain a b where p: "p = (a, b)" by (cases p)
  with Cons.prems(2) have ab: "a \<in> R" "b \<in> R" by auto
  have "keysOver R (fst ` set (pairCounts (addPair pub (pairKey p) pm)))"
    using Cons.prems(1) ab unfolding addPair_keys keysOver_def p pairKey_def
    by auto
  with Cons.IH [of "addPair pub (pairKey p) pm"] Cons.prems(2) show ?case by simp
qed

lemma keysOver_collectPairs:
  assumes "idsIn R bw"
  shows "keysOver R (fst ` set (pairCounts (collectPairs w2p bw)))"
proof -
  have "keysOver R (fst ` set (pairCounts pm)) \<Longrightarrow> idsIn R ws \<Longrightarrow>
        keysOver R (fst ` set (pairCounts
          (fold (\<lambda>(wid, s) pm. fold (\<lambda>ab pm. addPair (map_of w2p wid) (pairKey ab) pm)
                              (pairsOf (sort s)) pm) ws pm)))" for ws pm
  proof (induction ws arbitrary: pm)
    case Nil
    then show ?case by simp
  next
    case (Cons w ws)
    obtain wid s where w: "w = (wid, s)" by (cases w)
    from Cons.prems(2) w have s: "set s \<subseteq> R" and ws: "idsIn R ws"
      by (auto simp: idsIn_def)
    from s have "\<forall>(a, b) \<in> set (pairsOf (sort s)). a \<in> R \<and> b \<in> R"
      by (auto dest!: pairsOf_members)
    from keysOver_pairs [OF Cons.prems(1) this]
    have "keysOver R (fst ` set (pairCounts
            (fold (\<lambda>ab pm. addPair (map_of w2p wid) (pairKey ab) pm) (pairsOf (sort s)) pm)))" .
    from Cons.IH [OF this ws] show ?case by (simp add: w)
  qed
  from this [of "\<lparr> pairCounts = [], pairPubs = [] \<rparr>" bw] assms show ?thesis
    by (simp add: collectPairs_def keysOver_def)
qed

lemma split_on_no_sep: "d \<notin> set b \<Longrightarrow> split_on d b = [b]"
  by (induction b) auto

lemma split_on_append_sep: "d \<notin> set a \<Longrightarrow> split_on d (a @ d # b) = a # split_on d b"
  by (induction a) auto

lemma splitKey_pair:
  "CHR ''|'' \<notin> set a \<Longrightarrow> CHR ''|'' \<notin> set b \<Longrightarrow> splitKey (a @ ''|'' @ b) = (a, b)"
  by (simp add: splitKey_def split_on_append_sep split_on_no_sep)

lemma edgeOf_ends:
  "e \<in> set (edgeOf nodeIDs pp kc) \<Longrightarrow>
     edge_a e = fst (splitKey (fst kc)) \<and> edge_b e = snd (splitKey (fst kc))"
  by (auto simp: edgeOf_def Let_def split: option.splits)

lemma buildGraphFromPairs_edges:
  assumes "idsIn R bw" and "\<forall>i \<in> R. CHR ''|'' \<notin> set i"
    and "e \<in> set (edges (buildGraphFromPairs bw pubs))"
  shows "edge_a e \<in> R \<and> edge_b e \<in> R"
proof -
  let ?pm = "collectPairs (widToPub pubs) bw"
  from assms(3) obtain kc where kc: "kc \<in> set (pairCounts ?pm)"
    and e: "e \<in> set (edgeOf (nodeIDsOf (pairCounts ?pm)) (pairPubs ?pm) kc)"
    by (auto simp: buildGraphFromPairs_def Let_def)
  from kc have "fst kc \<in> fst ` set (pairCounts ?pm)" by simp
  with keysOver_collectPairs [OF assms(1), of "widToPub pubs"]
  obtain a b where ab: "a \<in> R" "b \<in> R" "fst kc = a @ ''|'' @ b"
    unfolding keysOver_def by blast
  with assms(2) have "splitKey (fst kc) = (a, b)"
    by (simp only: ab(3)) (rule splitKey_pair, auto)
  with edgeOf_ends [OF e] ab show ?thesis by simp
qed

text \<open>
  Claim C5, as the code has it. Provided no id of the contributing roster holds the
  character \<^verbatim>\<open>|\<close>, which joins the two ids of a pair into its key, every edge of the
  graph, on the path through the authorship rows and on the path through the author names
  alike, has both its end points among the ids of the contributing roster. (When the
  name-matching path throws on a name without letters there is no graph.)
\<close>

theorem coauthor_edges_within_roster:
  "computeCoauthorGraph authorshipData roster pubs = Inr g \<Longrightarrow>
   \<forall>i \<in> rosterIDs roster. CHR ''|'' \<notin> set i \<Longrightarrow>
   \<forall>e \<in> set (edges g). edge_a e \<in> rosterIDs roster \<and> edge_b e \<in> rosterIDs roster"
proof -
  assume g: "computeCoauthorGraph authorshipData roster pubs = Inr g"
    and np: "\<forall>i \<in> rosterIDs roster. CHR ''|'' \<notin> set i"
  show ?thesis
  proof (cases "authorshipData \<noteq> []")
    case True
    with g have "g = buildGraphFromPairs (byWorkPreferred authorshipData roster pubs) pubs"
      by (simp add: computeCoauthorGraph_def)
    with buildGraphFromPairs_edges [OF idsIn_byWorkPreferred np] show ?thesis by blast
  next
    case False
    with g obtain bw where bw: "byWorkFallback roster pubs = Inr bw"
      and "g = buildGraphFromPairs bw pubs"
      by (auto simp: computeCoauthorGraph_def split: sum.splits)
    with buildGraphFromPairs_edges [OF idsIn_byWorkFallback [OF bw] np] show ?thesis by blast
  qed
qed

theorem coauthor_edges_witness:
  "\<not> isl (computeCoauthorGraph ex_authorships ex_roster2 [ex_pub_w1, ex_pub_w2]) \<and>
   edgeEnds (projr (computeCoauthorGraph ex_authorships ex_roster2 [ex_pub_w1, ex_pub_w2]))
     = [(''A1'', ''A2'')] \<and>
   \<not> isl (computeCoauthorGraph [] ex_roster2 [ex_pub_w1, ex_pub_w2]) \<and>
   edgeEnds (projr (computeCoauthorGraph [] ex_roster2 [ex_pub_w1, ex_pub_w2]))
     = [(''A1'', ''A2'')] \<and>
   rosterIDs ex_roster2 = {''A1'', ''A2''} \<and>
   edge_a (hd (edges (projr (computeCoauthorGraph ex_authorships ex_roster2 [ex_pub_w1, ex_pub_w2]))))
     \<in> rosterIDs ex_roster2 \<and>
   edge_b (hd (edges (projr (computeCoauthorGraph [] ex_roster2 [ex_pub_w1, ex_pub_w2]))))
     \<in> rosterIDs ex_roster2"
proof -
  let ?G = "computeCoauthorGraph ex_authorships ex_roster2 [ex_pub_w1, ex_pub_w2]"
  let ?F = "computeCoauthorGraph [] ex_roster2 [ex_pub_w1, ex_pub_w2]"
  have g: "\<not> isl ?G" "edgeEnds (projr ?G) = [(''A1'', ''A2'')]"
    by code_simp+
  have f: "\<not> isl ?F" "edgeEnds (projr ?F) = [(''A1'', ''A2'')]"
    by code_simp+
  have r: "rosterIDs ex_roster2 = {''A1'', ''A2''}"
    by code_simp
  have np: "\<forall>i \<in> rosterIDs ex_roster2. CHR ''|'' \<notin> set i"
    unfolding r by simp
  from g(1) have G: "?G = Inr (projr ?G)" by (cases ?G) simp_all
  from f(1) have F: "?F = Inr (projr ?F)" by (cases ?F) simp_all
  from g(2) have "hd (edges (projr ?G)) \<in> set (edges (projr ?G))"
    by (cases "edges (projr ?G)") (simp_all add: edgeEnds_def)
  with coauthor_edges_within_roster [OF G np]
  have 1: "edge_a (hd (edges (projr ?G))) \<in> rosterIDs ex_roster2" by blast
  from f(2) have "hd (edges (projr ?F)) \<in> set (edges (projr ?F))"
    by (cases "edges (projr ?F)") (simp_all add: edgeEnds_def)
  with coauthor_edges_within_roster [OF F np]
  have 2: "edge_b (hd (edges (projr ?F))) \<in> rosterIDs ex_roster2" by blast
  from g f r 1 2 show ?thesis by blast
qed

theorem coauthor_edge_outside_roster_counterexample:
  "\<not> isl (computeCoauthorGraph ex_authorships_pipe ex_roster_pipe [ex_pub_w1]) \<and>
   nodes (projr (computeCoauthorGraph ex_authorships_pipe ex_roster_pipe [ex_pub_w1]))
     = [''A1'', ''A2''] \<and>
   edgeEnds (projr (computeCoauthorGraph ex_authorships_pipe ex_roster_pipe [ex_pub_w1]))
     = [(''A1'', ''A2'')] \<and>
   rosterIDs ex_roster_pipe = {''A1|A2'', ''A3''} \<and>
   ''A1'' \<notin> rosterIDs ex_roster_pipe \<and>
   ''A2'' \<notin> rosterIDs ex_roster_pipe"
  by code_simp

section \<open>Topic query\<close>

text \<open>
  The words of a normalised text are the maximal runs of lower-case letters and digits of
  the lower-cased text; normalising twice, lower-casing or trimming first, and joining
  parts with a space all respect that.
\<close>

lemma isSpace_not_alnum: "isSpace c \<Longrightarrow> \<not> isLowerAlnum c"
  by (auto simp: isSpace_def isLowerAlnum_def)

lemma space_not_alnum: "\<not> isLowerAlnum (CHR '' '')"
  by (simp add: isLowerAlnum_def)

lemma isSpace_space: "isSpace (CHR '' '')"
  by (simp add: isSpace_def)

lemma toLowerChar_cases:
  "toLowerChar c = c \<or>
   (c \<in> set ''ABCDEFGHIJKLMNOPQRSTUVWXYZ'' \<and> toLowerChar c \<in> set ''abcdefghijklmnopqrstuvwxyz'')"
proof (cases "map_of (zip ''ABCDEFGHIJKLMNOPQRSTUVWXYZ'' ''abcdefghijklmnopqrstuvwxyz'') c")
  case None
  then have "toLowerChar c = c" by (simp only: toLowerChar_def option.case)
  then show ?thesis ..
next
  case (Some d)
  then have "(c, d) \<in> set (zip ''ABCDEFGHIJKLMNOPQRSTUVWXYZ'' ''abcdefghijklmnopqrstuvwxyz'')"
    by (rule map_of_SomeD)
  then have "c \<in> set ''ABCDEFGHIJKLMNOPQRSTUVWXYZ''" "d \<in> set ''abcdefghijklmnopqrstuvwxyz''"
    by (rule set_zip_leftD, rule set_zip_rightD)
  moreover from Some have "toLowerChar c = d" by (simp only: toLowerChar_def option.case)
  ultimately show ?thesis by (simp only: simp_thms)
qed


lemma upper_facts:
  "c \<in> set ''ABCDEFGHIJKLMNOPQRSTUVWXYZ'' \<Longrightarrow> \<not> isLowerAlnum c \<and> \<not> isSpace c"
  by (auto simp: isLowerAlnum_def isSpace_def)

lemma lower_facts:
  "c \<in> set ''abcdefghijklmnopqrstuvwxyz'' \<Longrightarrow> isLowerAlnum c \<and> \<not> isSpace c"
  by (auto simp: isLowerAlnum_def isSpace_def)

lemma alnum_lower_fixed: "isLowerAlnum c \<Longrightarrow> toLowerChar c = c"
  using toLowerChar_cases [of c] upper_facts [of c] by blast

lemma isSpace_toLowerChar: "isSpace (toLowerChar c) = isSpace c"
  using toLowerChar_cases [of c] upper_facts [of c] lower_facts [of "toLowerChar c"] by metis

lemma toLowerChar_idem: "toLowerChar (toLowerChar c) = toLowerChar c"
  using toLowerChar_cases [of c] lower_facts [of "toLowerChar c"] alnum_lower_fixed [of "toLowerChar c"]
  by metis

lemma toLowerCase_idem: "toLowerCase (toLowerCase s) = toLowerCase s"
  by (simp add: toLowerCase_def toLowerChar_idem)

lemma runsOf_no_P:
  "\<forall>c \<in> set s. \<not> P c \<Longrightarrow> runsOf P w s = (if w = [] then [] else [w])"
  by (induction s arbitrary: w) auto

lemma runsOf_all_P:
  "\<forall>c \<in> set s. P c \<Longrightarrow> runsOf P w s = (if w @ s = [] then [] else [w @ s])"
  by (induction s arbitrary: w) auto

lemma runsOf_append_sep:
  "\<not> P sep \<Longrightarrow> runsOf P w (x @ sep # y) = runsOf P w x @ runsOf P [] y"
  by (induction x arbitrary: w) auto

lemma runsOf_trailing:
  "\<forall>c \<in> set y. \<not> P c \<Longrightarrow> runsOf P w (x @ y) = runsOf P w x"
  by (induction x arbitrary: w) (auto simp: runsOf_no_P)

lemma runsOf_leading:
  "\<forall>c. Q c \<longrightarrow> \<not> P c \<Longrightarrow> runsOf P [] (dropWhile Q s) = runsOf P [] s"
  by (induction s) auto

lemma runsOf_trim:
  assumes "\<forall>c. isSpace c \<longrightarrow> \<not> P c"
  shows "runsOf P [] (trim s) = runsOf P [] s"
proof -
  let ?d = "dropWhile isSpace s"
  have "?d = rev (dropWhile isSpace (rev ?d)) @ rev (takeWhile isSpace (rev ?d))"
    by (metis rev_append rev_rev_ident takeWhile_dropWhile_id)
  moreover have "\<forall>c \<in> set (rev (takeWhile isSpace (rev ?d))). \<not> P c"
    using assms by (auto dest: set_takeWhileD)
  ultimately have "runsOf P [] ?d = runsOf P [] (rev (dropWhile isSpace (rev ?d)))"
    by (metis runsOf_trailing)
  then show ?thesis
    using runsOf_leading [OF assms, of s] by (simp add: trim_def)
qed

lemma runsOf_squash_same:
  assumes "\<not> R (CHR '' '')" and "\<forall>c. Q c \<longrightarrow> \<not> R c"
  shows "(f \<longrightarrow> w = []) \<Longrightarrow> runsOf R w (squashRuns Q f s) = runsOf R w s"
  using assms by (induction s arbitrary: w f) auto

lemma runsOf_squash_switch:
  assumes "\<forall>c. isSpace c \<longrightarrow> \<not> P c"
  shows "(f \<longrightarrow> w = []) \<Longrightarrow>
         runsOf (\<lambda>c. \<not> isSpace c) w (squashRuns (\<lambda>c. \<not> P c) f s) = runsOf P w s"
  using assms by (induction s arbitrary: w f) (auto simp: isSpace_space)

lemma wordsOf_normalizeText:
  "wordsOf (normalizeText x) = runsOf isLowerAlnum [] (toLowerCase x)"
proof -
  let ?s1 = "squashRuns (\<lambda>c. \<not> isLowerAlnum c) False (toLowerCase x)"
  have "wordsOf (normalizeText x) = runsOf (\<lambda>c. \<not> isSpace c) [] (squashRuns isSpace False ?s1)"
    unfolding wordsOf_def normalizeText_def by (rule runsOf_trim) simp
  also have "\<dots> = runsOf (\<lambda>c. \<not> isSpace c) [] ?s1"
    by (rule runsOf_squash_same) (simp_all add: isSpace_space)
  also have "\<dots> = runsOf isLowerAlnum [] (toLowerCase x)"
    by (rule runsOf_squash_switch) (simp_all add: isSpace_not_alnum)
  finally show ?thesis .
qed

lemma runsOf_tokens:
  "t \<in> set (runsOf P w s) \<Longrightarrow> \<forall>c \<in> set w. P c \<Longrightarrow> t \<noteq> [] \<and> (\<forall>c \<in> set t. P c)"
proof (induction s arbitrary: w)
  case Nil
  then show ?case by (cases "w = []") simp_all
next
  case (Cons c cs)
  show ?case
  proof (cases "P c")
    case True
    with Cons.prems have "t \<in> set (runsOf P (w @ [c]) cs)" "\<forall>x \<in> set (w @ [c]). P x"
      by simp_all
    then show ?thesis by (rule Cons.IH)
  next
    case False
    with Cons.prems(1) have "t \<in> set (if w = [] then [] else [w]) \<or> t \<in> set (runsOf P [] cs)"
      by simp
    then show ?thesis
    proof
      assume "t \<in> set (if w = [] then [] else [w])"
      then have "t = w" "w \<noteq> []" by (simp_all split: if_splits)
      with Cons.prems(2) show ?thesis by simp
    next
      assume "t \<in> set (runsOf P [] cs)"
      then show ?thesis by (rule Cons.IH) simp
    qed
  qed
qed

lemma set_squashRuns:
  "c \<in> set (squashRuns Q f s) \<Longrightarrow> c = CHR '' '' \<or> (c \<in> set s \<and> \<not> Q c)"
proof (induction s arbitrary: f)
  case Nil
  then show ?case by simp
next
  case (Cons x xs)
  show ?case
  proof (cases "Q x")
    case True
    with Cons.prems have "c = CHR '' '' \<or> c \<in> set (squashRuns Q True xs)"
      by (cases f) simp_all
    with Cons.IH [of True] show ?thesis by auto
  next
    case False
    with Cons.prems have "c = x \<or> c \<in> set (squashRuns Q False xs)" by simp
    with Cons.IH [of False] False show ?thesis by auto
  qed
qed

lemma set_trim: "c \<in> set (trim s) \<Longrightarrow> c \<in> set s"
proof -
  assume "c \<in> set (trim s)"
  then have "c \<in> set (dropWhile isSpace (rev (dropWhile isSpace s)))"
    by (simp add: trim_def)
  then have "c \<in> set (rev (dropWhile isSpace s))" by (rule set_dropWhileD)
  then have "c \<in> set (dropWhile isSpace s)" by simp
  then show ?thesis by (rule set_dropWhileD)
qed

lemma normalizeText_chars:
  assumes "c \<in> set (normalizeText x)"
  shows "c = CHR '' '' \<or> isLowerAlnum c"
proof -
  from assms have "c \<in> set (squashRuns isSpace False
             (squashRuns (\<lambda>c. \<not> isLowerAlnum c) False (toLowerCase x)))"
    unfolding normalizeText_def by (rule set_trim)
  then have "c = CHR '' '' \<or> c \<in> set (squashRuns (\<lambda>c. \<not> isLowerAlnum c) False (toLowerCase x))"
    by (blast dest: set_squashRuns)
  then show ?thesis by (blast dest: set_squashRuns)
qed

lemma toLowerChar_space: "toLowerChar (CHR '' '') = CHR '' ''"
  by (simp add: toLowerChar_def)

lemma toLowerCase_normalizeText: "toLowerCase (normalizeText x) = normalizeText x"
  unfolding toLowerCase_def
proof (rule map_idI)
  fix c assume "c \<in> set (normalizeText x)"
  then have "c = CHR '' '' \<or> isLowerAlnum c" by (rule normalizeText_chars)
  then show "toLowerChar c = c"
    using toLowerChar_space alnum_lower_fixed by blast
qed

lemma runsOf_normalizeText:
  "runsOf isLowerAlnum [] (normalizeText x) = runsOf isLowerAlnum [] (toLowerCase x)"
proof -
  let ?s1 = "squashRuns (\<lambda>c. \<not> isLowerAlnum c) False (toLowerCase x)"
  have "runsOf isLowerAlnum [] (normalizeText x) = runsOf isLowerAlnum [] (squashRuns isSpace False ?s1)"
    unfolding normalizeText_def by (rule runsOf_trim) (simp add: isSpace_not_alnum)
  also have "\<dots> = runsOf isLowerAlnum [] ?s1"
    by (rule runsOf_squash_same) (simp_all add: space_not_alnum isSpace_not_alnum)
  also have "\<dots> = runsOf isLowerAlnum [] (toLowerCase x)"
    by (rule runsOf_squash_same) (simp_all add: space_not_alnum)
  finally show ?thesis .
qed

lemma words_normalizeText_twice:
  "wordsOf (normalizeText (normalizeText x)) = wordsOf (normalizeText x)"
  by (simp add: wordsOf_normalizeText toLowerCase_normalizeText runsOf_normalizeText)

lemma words_toLowerCase:
  "wordsOf (normalizeText (toLowerCase x)) = wordsOf (normalizeText x)"
  by (simp add: wordsOf_normalizeText toLowerCase_idem)

lemma map_dropWhile_space:
  "map toLowerChar (dropWhile isSpace s) = dropWhile isSpace (map toLowerChar s)"
  by (induction s) (auto simp: isSpace_toLowerChar)

lemma toLowerCase_trim: "toLowerCase (trim s) = trim (toLowerCase s)"
  by (simp add: toLowerCase_def trim_def rev_map [symmetric] map_dropWhile_space)

lemma words_trim:
  "wordsOf (normalizeText (trim x)) = wordsOf (normalizeText x)"
  by (simp add: wordsOf_normalizeText toLowerCase_trim runsOf_trim isSpace_not_alnum)

lemma toLowerCase_joinWith:
  "toLowerCase (joinWith '' '' xs) = joinWith '' '' (map toLowerCase xs)"
  by (induction "'' ''" xs rule: joinWith.induct) (simp_all add: toLowerCase_def toLowerChar_space)

lemma runsOf_joinWith:
  "\<not> P (CHR '' '') \<Longrightarrow> runsOf P [] (joinWith '' '' xs) = concat (map (runsOf P []) xs)"
  by (induction "'' ''" xs rule: joinWith.induct) (simp_all add: runsOf_append_sep)

lemma words_joinWith:
  "wordsOf (normalizeText (joinWith '' '' xs)) = concat (map (\<lambda>x. wordsOf (normalizeText x)) xs)"
  by (simp add: wordsOf_normalizeText toLowerCase_joinWith runsOf_joinWith space_not_alnum
      map_map comp_def)

lemma words_of_word:
  assumes "t \<in> set (wordsOf (normalizeText x))"
  shows "wordsOf (normalizeText t) = [t]"
proof -
  from assms have "t \<in> set (runsOf isLowerAlnum [] (toLowerCase x))"
    by (simp add: wordsOf_normalizeText)
  then have t: "t \<noteq> []" "\<forall>c \<in> set t. isLowerAlnum c"
    using runsOf_tokens [of t isLowerAlnum "[]"] by auto
  then have "toLowerCase t = t"
    unfolding toLowerCase_def by (intro map_idI) (simp add: alnum_lower_fixed)
  with t show ?thesis
    by (simp add: wordsOf_normalizeText runsOf_all_P)
qed

lemma set_tokenize: "set (tokenize x) = stem ` set (wordsOf (normalizeText x))"
  by (simp add: tokenize_def set_fold_setAdd)

lemma tokenize_topicQ: "tokenize (toLowerCase (trim q)) = tokenize q"
  by (simp add: tokenize_def words_toLowerCase words_trim)

lemma tokenize_empty: "tokenize [] = []"
  by (simp add: tokenize_def wordsOf_normalizeText toLowerCase_def)

lemma fuzzyQueryMatch_iff:
  "fuzzyQueryMatch query text \<longleftrightarrow> (\<forall>qt \<in> set (tokenize query). qt \<in> set (tokenize text))"
  by (auto simp: fuzzyQueryMatch_def Let_def list_all_iff list_ex_iff strongTokenMatch_def)

lemma passesTopicFilter_iff:
  "passesTopicFilter q haystack \<longleftrightarrow> (\<forall>qt \<in> set (tokenize q). qt \<in> set (tokenize haystack))"
proof (cases "toLowerCase (trim q) = []")
  case True
  then have "tokenize q = []"
    using tokenize_topicQ [of q] by (simp add: tokenize_empty)
  with True show ?thesis by (simp add: passesTopicFilter_def)
next
  case False
  then show ?thesis
    by (simp add: passesTopicFilter_def fuzzyQueryMatch_iff tokenize_topicQ)
qed

lemma cohortTokensByID_values:
  assumes "map_of (cohortTokensByID roster) aid = Some toks"
  shows "\<exists>r. toks = wordsOf (normalizeText (cell r ''Name''))"
proof -
  have "\<forall>(k, v) \<in> set m. \<exists>r. v = wordsOf (normalizeText (cell r ''Name'')) \<Longrightarrow>
        \<forall>(k, v) \<in> set (fold (\<lambda>r m. AList.update (normalizeID (cell r ''OpenAlexID''))
                    (wordsOf (normalizeText (cell r ''Name''))) m) rs m).
           \<exists>r. v = wordsOf (normalizeText (cell r ''Name''))" for rs m
  proof (induction rs arbitrary: m)
    case Nil
    then show ?case by simp
  next
    case (Cons r rs)
    have "\<forall>(k, v) \<in> set (AList.update (normalizeID (cell r ''OpenAlexID''))
                    (wordsOf (normalizeText (cell r ''Name''))) m).
             \<exists>r. v = wordsOf (normalizeText (cell r ''Name''))"
      using Cons.prems
        set_update_subset [of "normalizeID (cell r ''OpenAlexID'')"
          "wordsOf (normalizeText (cell r ''Name''))" m]
      by fastforce
    from Cons.IH [OF this] show ?case by simp
  qed
  from this [of "[]" roster] have "\<forall>(k, v) \<in> set (cohortTokensByID roster).
      \<exists>r. v = wordsOf (normalizeText (cell r ''Name''))"
    by (simp add: cohortTokensByID_def)
  with map_of_SomeD [OF assms] show ?thesis by blast
qed

lemma set_option_list:
  "set (case x of None \<Rightarrow> [] | Some toks \<Rightarrow> toks) = (case x of None \<Rightarrow> {} | Some toks \<Rightarrow> set toks)"
  by (cases x) simp_all

lemma set_nameTokensOf: "set (nameTokensOf roster p) = spec_cohortNameTokens roster p"
  by (simp add: nameTokensOf_def spec_cohortNameTokens_def set_option_list)

lemma nameTokens_are_words:
  assumes "t \<in> set (nameTokensOf roster p)"
  shows "wordsOf (normalizeText t) = [t]"
proof -
  from assms obtain aid where
    t: "t \<in> (case map_of (cohortTokensByID roster) aid of None \<Rightarrow> {} | Some toks \<Rightarrow> set toks)"
    unfolding set_nameTokensOf spec_cohortNameTokens_def by blast
  then obtain toks where m: "map_of (cohortTokensByID roster) aid = Some toks" and "t \<in> set toks"
    by (cases "map_of (cohortTokensByID roster) aid") simp_all
  with cohortTokensByID_values [OF m] show ?thesis
    by (auto intro: words_of_word)
qed

lemma concat_singletons: "\<forall>t \<in> set ts. f t = [t] \<Longrightarrow> concat (map f ts) = ts"
  by (induction ts) simp_all

lemma words_of_text:
  "wordsOf (normalizeText (normalizeText (toLowerCase (joinWith '' '' parts))))
   = concat (map (\<lambda>x. wordsOf (normalizeText x)) parts)"
  by (simp only: words_normalizeText_twice words_toLowerCase words_joinWith)

lemma haystack_words:
  "set (wordsOf (normalizeText (topicHaystack roster p)))
   = (\<Union>f \<in> set (topicFields p). set (wordsOf (normalizeText f))) \<union> spec_cohortNameTokens roster p"
proof (cases "nameTokensOf roster p = []")
  case True
  then have "spec_cohortNameTokens roster p = {}"
    using set_nameTokensOf [of roster p] by simp
  with True show ?thesis
    by (simp add: topicHaystack_def Let_def words_of_text)
next
  case False
  have "wordsOf (normalizeText (joinWith '' '' (nameTokensOf roster p)))
        = concat (map (\<lambda>x. wordsOf (normalizeText x)) (nameTokensOf roster p))"
    by (rule words_joinWith)
  also have "\<dots> = nameTokensOf roster p"
    by (rule concat_singletons) (simp add: nameTokens_are_words)
  finally have n: "wordsOf (normalizeText (joinWith '' '' (nameTokensOf roster p)))
        = nameTokensOf roster p" .
  from False show ?thesis
    by (simp add: topicHaystack_def Let_def words_of_text n set_nameTokensOf)
qed

text \<open>
  Claim C9. A publication passes the topic test of \<^verbatim>\<open>applyFilters\<close> exactly when every
  token of the query (the stemmed words of the normalised query, each taken once) is equal
  to a token of the title, of the primary topic name, of the subfield name or of the
  concept list, or to the stem of a name token of a roster member whose id the publication
  lists: these are the tokens of the search text \<^verbatim>\<open>_topic_haystack\<close> that
  \<^verbatim>\<open>normalizePubsFor\<close> stores. With an empty query every publication passes.
\<close>

theorem topic_filter_matches_all_query_tokens:
  "passesTopicFilter q (topicHaystack rosterData p) \<longleftrightarrow>
     (\<forall>qt \<in> set (tokenize q).
        qt \<in> set (tokenize (cell p ''display_name''))
           \<union> set (tokenize (cell p ''primary_topic__display_name''))
           \<union> set (tokenize (cell p ''primary_topic__subfield__display_name''))
           \<union> set (tokenize (cell p ''concepts_list''))
           \<union> stem ` spec_cohortNameTokens rosterData p)"
proof -
  have "set (tokenize (topicHaystack rosterData p))
        = set (tokenize (cell p ''display_name''))
           \<union> set (tokenize (cell p ''primary_topic__display_name''))
           \<union> set (tokenize (cell p ''primary_topic__subfield__display_name''))
           \<union> set (tokenize (cell p ''concepts_list''))
           \<union> stem ` spec_cohortNameTokens rosterData p"
    unfolding set_tokenize haystack_words
    by (auto simp: topicFields_def)
  then show ?thesis by (simp only: passesTopicFilter_iff)
qed

lemma ex_topic_tokens:
  "tokenize ''Smith STUDY soils'' = [''smith'', ''study'', ''soil'']"
  "tokenize ''smith botany'' = [''smith'', ''botany'']"
  "tokenize (cell ex_pub_topic ''display_name'') = [''soil'', ''study'']"
  "tokenize (cell ex_pub_topic ''primary_topic__display_name'') = [''carbon'', ''cycl'']"
  "tokenize (cell ex_pub_topic ''primary_topic__subfield__display_name'') = []"
  "tokenize (cell ex_pub_topic ''concepts_list'') = [''ecology'', ''biology'']"
  by code_simp+

lemma ex_topic_names: "nameTokensOf ex_roster ex_pub_topic = [''ada'', ''smith'']"
  by code_simp

lemma ex_topic_stems: "stem ''ada'' = ''ada''" "stem ''smith'' = ''smith''"
  by code_simp+

theorem topic_filter_witness:
  "passesTopicFilter ''Smith STUDY soils'' (topicHaystack ex_roster ex_pub_topic) \<and>
   \<not> passesTopicFilter ''smith botany'' (topicHaystack ex_roster ex_pub_topic) \<and>
   tokenize ''Smith STUDY soils'' = [''smith'', ''study'', ''soil''] \<and>
   tokenize (cell ex_pub_topic ''display_name'') = [''soil'', ''study''] \<and>
   spec_cohortNameTokens ex_roster ex_pub_topic = {''ada'', ''smith''}"
proof -
  have n: "spec_cohortNameTokens ex_roster ex_pub_topic = {''ada'', ''smith''}"
    unfolding set_nameTokensOf [symmetric] ex_topic_names by auto
  have a: "passesTopicFilter ''Smith STUDY soils'' (topicHaystack ex_roster ex_pub_topic)"
    unfolding topic_filter_matches_all_query_tokens [of "''Smith STUDY soils''" ex_roster ex_pub_topic]
      ex_topic_tokens n
    by (simp add: ex_topic_stems)
  have b: "\<not> passesTopicFilter ''smith botany'' (topicHaystack ex_roster ex_pub_topic)"
    unfolding topic_filter_matches_all_query_tokens [of "''smith botany''" ex_roster ex_pub_topic]
      ex_topic_tokens n
    by (simp add: ex_topic_stems)
  from a b n ex_topic_tokens(1,3) show ?thesis by blast
qed

text \<open>
  The earlier copy of \<^verbatim>\<open>normalizePubsFor\<close> in \<^verbatim>\<open>src/dashboard.js\<close>, which builds the
  search text from the four fields alone, gives the same test without the name tokens; a
  query for a roster member's name finds nothing there unless a field has the word.
\<close>

lemma fieldsOnly_words:
  "set (wordsOf (normalizeText (topicHaystack_fieldsOnly p)))
   = (\<Union>f \<in> set (topicFields p). set (wordsOf (normalizeText f)))"
  by (simp add: topicHaystack_fieldsOnly_def words_of_text)

lemma topic_filter_fields_only:
  "passesTopicFilter q (topicHaystack_fieldsOnly p) \<longleftrightarrow>
     (\<forall>qt \<in> set (tokenize q).
        qt \<in> set (tokenize (cell p ''display_name''))
           \<union> set (tokenize (cell p ''primary_topic__display_name''))
           \<union> set (tokenize (cell p ''primary_topic__subfield__display_name''))
           \<union> set (tokenize (cell p ''concepts_list'')))"
proof -
  have "set (tokenize (topicHaystack_fieldsOnly p))
        = set (tokenize (cell p ''display_name''))
           \<union> set (tokenize (cell p ''primary_topic__display_name''))
           \<union> set (tokenize (cell p ''primary_topic__subfield__display_name''))
           \<union> set (tokenize (cell p ''concepts_list''))"
    unfolding set_tokenize fieldsOnly_words
    by (auto simp: topicFields_def)
  then show ?thesis by (simp only: passesTopicFilter_iff)
qed

lemma topic_filter_fields_only_example:
  "\<not> passesTopicFilter ''smith'' (topicHaystack_fieldsOnly ex_pub_topic)"
proof -
  have t: "tokenize ''smith'' = [''smith'']" by code_simp
  show ?thesis
    unfolding topic_filter_fields_only ex_topic_tokens t by simp
qed

end
